(* ===== verification/Prelude.thy ===== *)
theory Prelude
  imports Main
begin

text \<open>
  Shared vocabulary of the development. A Python function that may raise is modelled by a
  value of the sum type \<open>'e + 'a\<close>: \<open>Inl e\<close> is the exception, \<open>Inr x\<close> the returned value.
  This theory holds the sequencing of such results, the table operations that stand for
  primary-key reads and row updates of the registry database, and the \<^theory_text>\<open>named_theorems\<close>
  collections the component theories fill.
\<close>

named_theorems res_elims \<open>inversion of successful sequenced results\<close>
named_theorems tab_simps \<open>reads after writes on keyed tables\<close>

section \<open>Sequencing results\<close>

definition res_bind :: "'e + 'a \<Rightarrow> ('a \<Rightarrow> 'e + 'b) \<Rightarrow> 'e + 'b" where
  "res_bind m f = (case m of Inl e \<Rightarrow> Inl e | Inr x \<Rightarrow> f x)"

lemma res_bind_simps [simp]:
  "res_bind (Inl e) f = Inl e"
  "res_bind (Inr x) f = f x"
  by (simp_all add: res_bind_def)

lemma res_bind_cong [fundef_cong]:
  "m = m' \<Longrightarrow> (\<And>x. m' = Inr x \<Longrightarrow> f x = f' x) \<Longrightarrow> res_bind m f = res_bind m' f'"
  by (simp add: res_bind_def split: sum.split)

lemma res_bind_eq_Inr [res_elims]:
  "res_bind m f = Inr y \<longleftrightarrow> (\<exists>x. m = Inr x \<and> f x = Inr y)"
  by (cases m) auto

lemma res_bind_eq_Inl:
  "res_bind m f = Inl e \<longleftrightarrow> m = Inl e \<or> (\<exists>x. m = Inr x \<and> f x = Inl e)"
  by (cases m) auto

lemma res_bind_assoc: "res_bind (res_bind m f) g = res_bind m (\<lambda>x. res_bind (f x) g)"
  by (cases m) auto

definition require :: "bool \<Rightarrow> 'e \<Rightarrow> 'e + unit" where
  "require c e = (if c then Inr () else Inl e)"

lemma require_simps [simp]:
  "require True e = Inr ()"
  "require False e = Inl e"
  "require c e = Inr u \<longleftrightarrow> c"
  "require c e = Inl e' \<longleftrightarrow> \<not> c \<and> e' = e"
  by (auto simp: require_def)

definition of_option :: "'e \<Rightarrow> 'a option \<Rightarrow> 'e + 'a" where
  "of_option e m = (case m of None \<Rightarrow> Inl e | Some x \<Rightarrow> Inr x)"

lemma of_option_simps [simp]:
  "of_option e None = Inl e"
  "of_option e (Some x) = Inr x"
  "of_option e m = Inr x \<longleftrightarrow> m = Some x"
  "of_option e m = Inl e' \<longleftrightarrow> m = None \<and> e' = e"
  by (auto simp: of_option_def split: option.splits)

text \<open>A comprehension whose body may raise: the first exception, in list order, wins.\<close>

fun res_map :: "('a \<Rightarrow> 'e + 'b) \<Rightarrow> 'a list \<Rightarrow> 'e + 'b list" where
  "res_map f [] = Inr []"
| "res_map f (x # xs) =
     (case f x of Inl e \<Rightarrow> Inl e
      | Inr y \<Rightarrow> (case res_map f xs of Inl e \<Rightarrow> Inl e | Inr ys \<Rightarrow> Inr (y # ys)))"

lemma res_map_eq_Inr:
  "res_map f xs = Inr ys \<longleftrightarrow> list_all2 (\<lambda>x y. f x = Inr y) xs ys"
proof (induction xs arbitrary: ys)
  case (Cons x xs)
  show ?case
    by (auto split: sum.splits simp: list_all2_Cons1 Cons.IH [symmetric])
qed auto

lemma res_map_all_Inr:
  "(\<And>x. x \<in> set xs \<Longrightarrow> f x = Inr (g x)) \<Longrightarrow> res_map f xs = Inr (map g xs)"
  by (induction xs) auto

lemma res_map_all: "res_map f xs = Inr ys \<Longrightarrow> (\<And>x y. f x = Inr y \<Longrightarrow> P y) \<Longrightarrow> \<forall>y \<in> set ys. P y"
  by (induction xs arbitrary: ys) (auto split: sum.splits)

lemma res_map_length: "res_map f xs = Inr ys \<Longrightarrow> length ys = length xs"
  by (auto simp: res_map_eq_Inr dest: list_all2_lengthD)

lemma res_map_cong [fundef_cong]:
  "xs = ys \<Longrightarrow> (\<And>x. x \<in> set ys \<Longrightarrow> f x = g x) \<Longrightarrow> res_map f xs = res_map g ys"
  by (induction xs arbitrary: ys) (auto split: sum.splits)

text \<open>The same for a body that may be undefined: all of the values, or nothing.\<close>

fun opt_map :: "('a \<Rightarrow> 'b option) \<Rightarrow> 'a list \<Rightarrow> 'b list option" where
  "opt_map f [] = Some []"
| "opt_map f (x # xs) =
     (case f x of None \<Rightarrow> None
      | Some y \<Rightarrow> (case opt_map f xs of None \<Rightarrow> None | Some ys \<Rightarrow> Some (y # ys)))"

lemma opt_map_eq_Some:
  "opt_map f xs = Some ys \<longleftrightarrow> list_all2 (\<lambda>x y. f x = Some y) xs ys"
proof (induction xs arbitrary: ys)
  case (Cons x xs)
  show ?case
    by (auto split: option.splits simp: list_all2_Cons1 Cons.IH [symmetric])
qed auto

lemma opt_map_eq_None: "opt_map f xs = None \<longleftrightarrow> (\<exists>x \<in> set xs. f x = None)"
  by (induction xs) (auto split: option.splits)

lemma opt_map_all_Some:
  "(\<And>x. x \<in> set xs \<Longrightarrow> f x = Some (g x)) \<Longrightarrow> opt_map f xs = Some (map g xs)"
  by (induction xs) auto

section \<open>Keyed tables\<close>

text \<open>
  A table is the list of its rows in insertion order. \<open>tab_get key k rows\<close> is a primary-key
  read, \<open>tab_put key r rows\<close> writes the row with \<open>r\<close>'s key back.
\<close>

definition tab_get :: "('r \<Rightarrow> 'k) \<Rightarrow> 'k \<Rightarrow> 'r list \<Rightarrow> 'r option" where
  "tab_get key k rows = find (\<lambda>r. key r = k) rows"

definition tab_put :: "('r \<Rightarrow> 'k) \<Rightarrow> 'r \<Rightarrow> 'r list \<Rightarrow> 'r list" where
  "tab_put key r rows = map (\<lambda>x. if key x = key r then r else x) rows"

lemma notin_image: "k \<notin> f ` S \<Longrightarrow> x \<in> S \<Longrightarrow> f x \<noteq> k"
  by blast

lemma tab_get_Some: "tab_get key k rows = Some r \<Longrightarrow> r \<in> set rows \<and> key r = k"
  by (auto simp: tab_get_def find_Some_iff)

lemma tab_get_None: "tab_get key k rows = None \<longleftrightarrow> (\<forall>r \<in> set rows. key r \<noteq> k)"
  by (auto simp: tab_get_def find_None_iff)

lemma tab_get_distinct:
  "distinct (map key rows) \<Longrightarrow> r \<in> set rows \<Longrightarrow> tab_get key (key r) rows = Some r"
  by (induction rows) (auto simp: tab_get_def)

lemma tab_get_iff:
  "distinct (map key rows) \<Longrightarrow> tab_get key k rows = Some r \<longleftrightarrow> r \<in> set rows \<and> key r = k"
  using tab_get_Some tab_get_distinct by metis

lemma tab_get_append [tab_simps]:
  "tab_get key k (rows @ rows') =
     (case tab_get key k rows of Some r \<Rightarrow> Some r | None \<Rightarrow> tab_get key k rows')"
  by (induction rows) (auto simp: tab_get_def)

lemma tab_get_Nil [simp]: "tab_get key k [] = None"
  by (simp add: tab_get_def)

lemma tab_get_Cons [simp]:
  "tab_get key k (r # rows) = (if key r = k then Some r else tab_get key k rows)"
  by (simp add: tab_get_def)

lemma tab_put_keys [simp]: "map key (tab_put key r rows) = map key rows"
  by (simp add: tab_put_def)

lemma tab_put_length [simp]: "length (tab_put key r rows) = length rows"
  by (simp add: tab_put_def)

lemma tab_get_put_other [tab_simps]:
  "k \<noteq> key r \<Longrightarrow> tab_get key k (tab_put key r rows) = tab_get key k rows"
  by (induction rows) (auto simp: tab_put_def tab_get_def)

lemma tab_get_put_same [tab_simps]:
  "tab_get key (key r) (tab_put key r rows) =
     (if key r \<in> key ` set rows then Some r else None)"
  by (induction rows) (auto simp: tab_put_def tab_get_def)

lemma tab_put_id: "distinct (map key rows) \<Longrightarrow> r \<in> set rows \<Longrightarrow> tab_put key r rows = rows"
  unfolding tab_put_def by (rule map_idI) (auto simp: distinct_map inj_on_def)

lemma set_tab_put:
  "set (tab_put key r rows) =
     {x \<in> set rows. key x \<noteq> key r} \<union> (if key r \<in> key ` set rows then {r} else {})"
proof (cases "key r \<in> key ` set rows")
  case True
  then show ?thesis by (auto simp: tab_put_def)
next
  case False
  then have "\<forall>x \<in> set rows. key x \<noteq> key r" by (auto dest: notin_image)
  with False show ?thesis by (auto simp: tab_put_def)
qed

lemma set_tab_put_subset: "set (tab_put key r rows) \<subseteq> insert r (set rows)"
  by (auto simp: tab_put_def)

lemma tab_put_absent: "key r \<notin> key ` set rows \<Longrightarrow> tab_put key r rows = rows"
  unfolding tab_put_def by (rule map_idI) (auto dest: notin_image)

lemma tab_put_put [tab_simps]:
  "key r = key r' \<Longrightarrow> tab_put key r (tab_put key r' rows) = tab_put key r rows"
  by (simp add: tab_put_def)

lemma tab_get_put:
  "tab_get key k (tab_put key r rows) =
     (if k = key r \<and> key r \<in> key ` set rows then Some r else tab_get key k rows)"
proof (cases "k = key r")
  case True
  moreover have "key r \<notin> key ` set rows \<Longrightarrow> tab_get key (key r) rows = None"
    unfolding tab_get_None by (auto dest: notin_image)
  ultimately show ?thesis by (simp add: tab_get_put_same)
qed (simp add: tab_get_put_other)

lemma tab_get_snoc:
  "key r \<notin> key ` set rows \<Longrightarrow>
     tab_get key k (rows @ [r]) = (if k = key r then Some r else tab_get key k rows)"
  by (induction rows) auto

lemma tab_get_mem: "tab_get key k rows = Some r \<Longrightarrow> key r \<in> key ` set rows"
  by (auto dest: tab_get_Some)

text \<open>
  A table grows when every row is still there, under the same key, as a row that \<open>ev\<close> admits
  as its successor.
\<close>

definition grows :: "('r \<Rightarrow> 'k) \<Rightarrow> ('r \<Rightarrow> 'r \<Rightarrow> bool) \<Rightarrow> 'r list \<Rightarrow> 'r list \<Rightarrow> bool" where
  "grows key ev rows rows' =
     (\<forall>k r. tab_get key k rows = Some r \<longrightarrow> (\<exists>r'. tab_get key k rows' = Some r' \<and> ev r r'))"

lemma grows_refl: "(\<And>r. ev r r) \<Longrightarrow> grows key ev rows rows"
  by (simp add: grows_def)

lemma grows_trans:
  "(\<And>a b c. ev a b \<Longrightarrow> ev b c \<Longrightarrow> ev a c) \<Longrightarrow>
     grows key ev r1 r2 \<Longrightarrow> grows key ev r2 r3 \<Longrightarrow> grows key ev r1 r3"
  unfolding grows_def by meson

lemma grows_snoc: "(\<And>r. ev r r) \<Longrightarrow> grows key ev rows (rows @ [r])"
  by (simp add: grows_def tab_get_append)

lemma grows_put:
  "tab_get key (key r) rows = Some old \<Longrightarrow> ev old r \<Longrightarrow> (\<And>r. ev r r) \<Longrightarrow>
     grows key ev rows (tab_put key r rows)"
  by (auto simp: grows_def tab_get_put dest: tab_get_mem)

lemma growsD: "grows key ev rows rows' \<Longrightarrow> tab_get key k rows = Some r \<Longrightarrow>
    \<exists>r'. tab_get key k rows' = Some r' \<and> ev r r'"
  by (simp add: grows_def)

section \<open>Maxima of integer columns\<close>

text \<open>\<open>coalesce(max(column), 0)\<close> of a list of values.\<close>

definition max0 :: "int list \<Rightarrow> int" where
  "max0 ns = fold max ns 0"

lemma fold_max_ge: "(m::int) \<le> fold max ns m"
proof (induction ns arbitrary: m)
  case (Cons a ns)
  have "m \<le> max a m" by simp
  also have "\<dots> \<le> fold max ns (max a m)" by (rule Cons.IH)
  finally show ?case by simp
qed simp

lemma fold_max_mem: "n \<in> set ns \<Longrightarrow> (n::int) \<le> fold max ns m"
proof (induction ns arbitrary: m)
  case (Cons a ns)
  then show ?case using fold_max_ge [of "max a m" ns] by auto
qed simp

lemma max0_ge: "n \<in> set ns \<Longrightarrow> n \<le> max0 ns"
  by (simp add: max0_def fold_max_mem)

lemma max0_nonneg: "0 \<le> max0 ns"
  by (simp add: max0_def fold_max_ge)

lemma fold_max_in: "fold max ns (m::int) \<in> insert m (set ns)"
proof (induction ns arbitrary: m)
  case (Cons a ns)
  have eq: "fold max (a # ns) m = fold max ns (max a m)" by simp
  have "fold max ns (max a m) \<in> insert (max a m) (set ns)" by (rule Cons.IH)
  moreover have "max a m \<in> {a, m}" by (simp add: max_def)
  ultimately show ?case unfolding eq by auto
qed simp

lemma max0_in: "max0 ns \<in> insert 0 (set ns)"
  unfolding max0_def by (rule fold_max_in)

end
