(* ===== verification/Errors.thy ===== *)
theory Errors
  imports Prelude
begin

text \<open>
  The exceptions of \<^verbatim>\<open>robolake/domain/errors.py\<close> and their three translations: to an HTTP
  response (\<^verbatim>\<open>apps/api/errors.py\<close>), back to an exception in the CLI's API client
  (\<^verbatim>\<open>robolake/infrastructure/api_client.py\<close>) and to a process exit code
  (\<^verbatim>\<open>apps/cli/output.py\<close>). Exception messages are not modelled, only their classes.
\<close>

section \<open>Exceptions\<close>

text \<open>
  One constructor per class of the domain hierarchy. The last group stands for the exceptions
  of Python, SQLAlchemy and botocore that the code raises or lets through:
  \<open>DatabaseError\<close> is a \<^verbatim>\<open>SQLAlchemyError\<close> (a refused constraint or trigger),
  \<open>StorageError\<close> a botocore \<^verbatim>\<open>ClientError\<close> or \<^verbatim>\<open>BotoCoreError\<close>.
\<close>

datatype error =
    RoboLakeError
  | InvalidDatasetName
  | InvalidDatasetReference
  | InvalidDigestError
  | UnsafePathError
  | PathCollisionError
  | UnsafeFileTypeError
  | UnsupportedFileSizeError
  | SourceChangedError
  | UnsupportedPlatformError
  | ManifestMismatchError
  | ContentConflictError
  | IllegalTransitionError
  | IdempotencyConflictError
  | NotFoundError
  | InvalidCursorError
  | StoredObjectMismatchError
  | UploadConflictError
  | ApiProtocolError
  | ApiUnavailableError
  | RetryableTransferError
  | TransferRejectedError
  | OutputExistsError
  | UnsupportedFilesystemError
  | LocalFileChangedError
  | InvalidPartNumberError
  | PartSizeMismatchError
  | PartChecksumRejectedError
  | MultipartSessionNotFoundError
  | AdmissionLeaseHeldError
  | AdmissionCapacityExhaustedError
  | AdmissionLeaseLostError
  | MultipartInitiationInProgressError
  | MultipartInitiationAmbiguousError
  | MultipartCompletionAmbiguousError
  | FinalBlobPublicationConflictError
  | ProviderContractError
  | ProviderOperationRejectedError
  | TransientProviderFailureError
  | MultipartAbortAmbiguousError
  | DatabaseError
  | StorageError
  | PyNotImplementedError
  | PyValueError
  | PyJSONDecodeError
  | PyUnicodeEncodeError
  | PyTypeError
  | PyKeyError
  | PyOSError
  | PyKeyboardInterrupt

type_synonym 'a res = "error + 'a"

text \<open>\<^verbatim>\<open>isinstance(error, RoboLakeError)\<close>.\<close>

definition is_domain_error :: "error \<Rightarrow> bool" where
  "is_domain_error e =
     (e \<notin> {DatabaseError, StorageError, PyNotImplementedError, PyValueError,
            PyJSONDecodeError, PyUnicodeEncodeError, PyTypeError, PyKeyError, PyOSError,
            PyKeyboardInterrupt})"

text \<open>The class attribute \<^verbatim>\<open>code\<close>; the other exceptions have none.\<close>

fun error_code :: "error \<Rightarrow> string option" where
  "error_code RoboLakeError = Some ''ROBOLAKE_ERROR''"
| "error_code InvalidDatasetName = Some ''INVALID_DATASET_NAME''"
| "error_code InvalidDatasetReference = Some ''INVALID_DATASET_REFERENCE''"
| "error_code InvalidDigestError = Some ''INVALID_DIGEST''"
| "error_code UnsafePathError = Some ''UNSAFE_PATH''"
| "error_code PathCollisionError = Some ''PATH_COLLISION''"
| "error_code UnsafeFileTypeError = Some ''UNSAFE_FILE_TYPE''"
| "error_code UnsupportedFileSizeError = Some ''UNSUPPORTED_FILE_SIZE''"
| "error_code SourceChangedError = Some ''SOURCE_CHANGED''"
| "error_code UnsupportedPlatformError = Some ''UNSUPPORTED_PLATFORM''"
| "error_code ManifestMismatchError = Some ''MANIFEST_MISMATCH''"
| "error_code ContentConflictError = Some ''CONTENT_CONFLICT''"
| "error_code IllegalTransitionError = Some ''ILLEGAL_TRANSITION''"
| "error_code IdempotencyConflictError = Some ''IDEMPOTENCY_CONFLICT''"
| "error_code NotFoundError = Some ''NOT_FOUND''"
| "error_code InvalidCursorError = Some ''INVALID_CURSOR''"
| "error_code StoredObjectMismatchError = Some ''STORED_OBJECT_MISMATCH''"
| "error_code UploadConflictError = Some ''UPLOAD_CONFLICT''"
| "error_code ApiProtocolError = Some ''API_PROTOCOL_ERROR''"
| "error_code ApiUnavailableError = Some ''API_UNAVAILABLE''"
| "error_code RetryableTransferError = Some ''RETRYABLE_TRANSFER''"
| "error_code TransferRejectedError = Some ''TRANSFER_REJECTED''"
| "error_code OutputExistsError = Some ''OUTPUT_EXISTS''"
| "error_code UnsupportedFilesystemError = Some ''UNSUPPORTED_FILESYSTEM''"
| "error_code LocalFileChangedError = Some ''LOCAL_FILE_CHANGED''"
| "error_code InvalidPartNumberError = Some ''INVALID_PART_NUMBER''"
| "error_code PartSizeMismatchError = Some ''PART_SIZE_MISMATCH''"
| "error_code PartChecksumRejectedError = Some ''PART_CHECKSUM_REJECTED''"
| "error_code MultipartSessionNotFoundError = Some ''MULTIPART_SESSION_NOT_FOUND''"
| "error_code AdmissionLeaseHeldError = Some ''ADMISSION_LEASE_HELD''"
| "error_code AdmissionCapacityExhaustedError = Some ''ADMISSION_CAPACITY_EXHAUSTED''"
| "error_code AdmissionLeaseLostError = Some ''ADMISSION_LEASE_LOST''"
| "error_code MultipartInitiationInProgressError = Some ''MULTIPART_INITIATION_IN_PROGRESS''"
| "error_code MultipartInitiationAmbiguousError = Some ''MULTIPART_INITIATION_AMBIGUOUS''"
| "error_code MultipartCompletionAmbiguousError = Some ''MULTIPART_COMPLETION_AMBIGUOUS''"
| "error_code FinalBlobPublicationConflictError = Some ''FINAL_BLOB_PUBLICATION_CONFLICT''"
| "error_code ProviderContractError = Some ''PROVIDER_CONTRACT_ERROR''"
| "error_code ProviderOperationRejectedError = Some ''PROVIDER_OPERATION_REJECTED''"
| "error_code TransientProviderFailureError = Some ''TRANSIENT_PROVIDER_FAILURE''"
| "error_code MultipartAbortAmbiguousError = Some ''MULTIPART_ABORT_AMBIGUOUS''"
| "error_code DatabaseError = None"
| "error_code StorageError = None"
| "error_code PyNotImplementedError = None"
| "error_code PyValueError = None"
| "error_code PyJSONDecodeError = None"
| "error_code PyUnicodeEncodeError = None"
| "error_code PyTypeError = None"
| "error_code PyKeyError = None"
| "error_code PyOSError = None"
| "error_code PyKeyboardInterrupt = None"

section \<open>Calls that change a world\<close>

text \<open>
  A call with effects takes the world and gives a result and the world it leaves, also when
  the result is an error. \<open>svc_bind\<close> sequences two calls, \<open>svc_catch\<close> runs a handler for any
  exception and raises it again (or the one the handler itself raises).
\<close>

type_synonym ('w, 'a) act = "'w \<Rightarrow> 'a res \<times> 'w"

definition svc_bind :: "('w, 'a) act \<Rightarrow> ('a \<Rightarrow> ('w, 'b) act) \<Rightarrow> ('w, 'b) act" where
  "svc_bind m f w = (case m w of (Inl err, w') \<Rightarrow> (Inl err, w') | (Inr x, w') \<Rightarrow> f x w')"

definition answer :: "'a res \<Rightarrow> ('w, 'a) act" where
  "answer r w = (r, w)"

definition svc_catch :: "('w, 'a) act \<Rightarrow> ('w, unit) act \<Rightarrow> ('w, 'a) act" where
  "svc_catch m handler w =
     (case m w of
        (Inr x, w') \<Rightarrow> (Inr x, w')
      | (Inl err, w') \<Rightarrow>
          (case handler w' of (Inl err', w'') \<Rightarrow> (Inl err', w'') | (Inr _, w'') \<Rightarrow> (Inl err, w'')))"

lemma svc_simps [simp]:
  "answer r w = (r, w)"
  "svc_bind (answer (Inr x)) f w = f x w" "svc_bind (answer (Inl err)) f w = (Inl err, w)"
  by (simp_all add: answer_def svc_bind_def)

lemma svc_bind_Inr [res_elims]:
  "svc_bind m f w = (Inr y, w'') \<longleftrightarrow> (\<exists>x w'. m w = (Inr x, w') \<and> f x w' = (Inr y, w''))"
  by (auto simp: svc_bind_def split: prod.splits sum.splits)

lemma svc_bind_Inl:
  "svc_bind m f w = (Inl e, w'') \<longleftrightarrow>
     m w = (Inl e, w'') \<or> (\<exists>x w'. m w = (Inr x, w') \<and> f x w' = (Inl e, w''))"
  by (auto simp: svc_bind_def split: prod.splits sum.splits)

text \<open>Whatever holds of the world and is kept by both calls is kept by their sequence.\<close>

lemma svc_bind_keeps:
  "P w \<Longrightarrow> (\<And>w. P w \<Longrightarrow> P (snd (m w))) \<Longrightarrow> (\<And>x w. P w \<Longrightarrow> P (snd (f x w))) \<Longrightarrow> P (snd (svc_bind m f w))"
  by (cases "fst (m w)") (simp_all add: svc_bind_def prod.case_eq_if)

section \<open>The HTTP boundary\<close>

record error_response =
  er_status :: int
  er_code :: string
  er_next_action :: "string option"

definition validation_errors :: "error list" where
  "validation_errors =
     [InvalidCursorError, InvalidDatasetName, InvalidDatasetReference, InvalidDigestError,
      ManifestMismatchError, PathCollisionError, SourceChangedError, UnsafeFileTypeError,
      UnsafePathError, UnsupportedFileSizeError, UnsupportedPlatformError]"

definition conflict_errors :: "error list" where
  "conflict_errors =
     [ContentConflictError, IdempotencyConflictError, IllegalTransitionError,
      StoredObjectMismatchError, UploadConflictError]"

definition domain_handler :: "error \<Rightarrow> string \<Rightarrow> error_response" where
  "domain_handler e code =
     (if e = NotFoundError then
        \<lparr>er_status = 404, er_code = code, er_next_action = None\<rparr>
      else if e = StoredObjectMismatchError then
        \<lparr>er_status = 409, er_code = code, er_next_action = Some ''CONTACT_OPERATOR''\<rparr>
      else if e = UploadConflictError then
        \<lparr>er_status = 409, er_code = code, er_next_action = Some ''RETRY_PUSH''\<rparr>
      else if e \<in> set validation_errors then
        \<lparr>er_status = 422, er_code = code, er_next_action = None\<rparr>
      else if e \<in> set conflict_errors then
        \<lparr>er_status = 409, er_code = code, er_next_action = None\<rparr>
      else
        \<lparr>er_status = 409, er_code = code, er_next_action = None\<rparr>)"

definition storage_handler :: error_response where
  "storage_handler =
     \<lparr>er_status = 502, er_code = ''OBJECT_STORAGE_UNAVAILABLE'',
      er_next_action = Some ''RETRY_PUSH''\<rparr>"

definition database_handler :: error_response where
  "database_handler =
     \<lparr>er_status = 503, er_code = ''REGISTRY_UNAVAILABLE'', er_next_action = Some ''RETRY_PUSH''\<rparr>"

definition unexpected_handler :: error_response where
  "unexpected_handler =
     \<lparr>er_status = 500, er_code = ''INTERNAL_ERROR'', er_next_action = None\<rparr>"

text \<open>Starlette calls the handler registered for the most specific class of the exception.\<close>

definition handle_exception :: "error \<Rightarrow> error_response" where
  "handle_exception e =
     (case error_code e of
        Some code \<Rightarrow> domain_handler e code
      | None \<Rightarrow> (if e = StorageError then storage_handler
                 else if e = DatabaseError then database_handler
                 else unexpected_handler))"

section \<open>The API client\<close>

definition client_error_table :: "(string \<times> error) list" where
  "client_error_table =
     [(''UPLOAD_CONFLICT'', UploadConflictError),
      (''STORED_OBJECT_MISMATCH'', StoredObjectMismatchError),
      (''NOT_FOUND'', NotFoundError),
      (''IDEMPOTENCY_CONFLICT'', IdempotencyConflictError),
      (''CONTENT_CONFLICT'', ContentConflictError),
      (''ILLEGAL_TRANSITION'', IllegalTransitionError)]"

text \<open>
  \<^verbatim>\<open>_raise_api_error\<close> on a response whose body is the error envelope: the symbolic code
  selects the exception, a code outside the table is a protocol error.
\<close>

definition raise_api_error :: "error_response \<Rightarrow> error" where
  "raise_api_error r =
     (case map_of client_error_table (er_code r) of
        None \<Rightarrow> ApiProtocolError
      | Some e \<Rightarrow> e)"

section \<open>Exit codes\<close>

definition cli_validation :: "error list" where
  "cli_validation =
     [InvalidCursorError, InvalidDatasetName, InvalidDatasetReference, InvalidDigestError,
      PathCollisionError, SourceChangedError, UnsafeFileTypeError, UnsafePathError,
      UnsupportedFileSizeError, UnsupportedPlatformError]"

definition cli_conflict :: "error list" where
  "cli_conflict =
     [ContentConflictError, IdempotencyConflictError, IllegalTransitionError, NotFoundError]"

definition cli_retryable :: "error list" where
  "cli_retryable = [ApiUnavailableError, RetryableTransferError, UploadConflictError]"

definition cli_integrity :: "error list" where
  "cli_integrity = [ManifestMismatchError, StoredObjectMismatchError, TransferRejectedError]"

definition exit_for_error :: "error \<Rightarrow> int" where
  "exit_for_error e =
     (if e \<in> set cli_validation then 2
      else if e \<in> set cli_conflict then 3
      else if e \<in> set cli_retryable then 4
      else if e \<in> set cli_integrity then 5
      else if e = ApiProtocolError then 1
      else 1)"

lemmas cli_defs = exit_for_error_def cli_validation_def cli_conflict_def cli_retryable_def
  cli_integrity_def

lemmas http_defs = handle_exception_def domain_handler_def validation_errors_def
  conflict_errors_def storage_handler_def database_handler_def unexpected_handler_def

lemmas client_defs = raise_api_error_def client_error_table_def

section \<open>What crosses the boundary\<close>

lemma error_code_domain: "error_code e = None \<longleftrightarrow> \<not> is_domain_error e"
  by (cases e) (simp_all add: is_domain_error_def)

lemma handle_exception_code:
  "error_code e = Some c \<Longrightarrow> er_code (handle_exception e) = c"
  by (simp add: handle_exception_def domain_handler_def)

text \<open>
  The client raises the very exception the service raised exactly when it belongs to the
  client's table; every other failure of the service becomes a protocol error.
\<close>

lemma raise_after_handle:
  "raise_api_error (handle_exception e) =
     (if e \<in> snd ` set client_error_table then e else ApiProtocolError)"
  by (cases e) (simp_all add: http_defs client_defs)

text \<open>
  What a CLI user sees of a failure of the service: a failure in the client's table of six
  comes through with its own exit code, every other one arrives as a protocol error and exits
  with 1, and no failure of the service exits with the validation code 2.
\<close>

theorem boundary_exit_codes:
  "(raise_api_error (handle_exception e) = e) = (e \<in> snd ` set client_error_table \<or> e = ApiProtocolError)
   \<and> exit_for_error (raise_api_error (handle_exception e))
       = (if e \<in> {UploadConflictError} then 4
          else if e \<in> {StoredObjectMismatchError} then 5
          else if e \<in> {NotFoundError, IdempotencyConflictError, ContentConflictError,
                       IllegalTransitionError} then 3
          else 1)"
  unfolding raise_after_handle
  by (auto simp: client_error_table_def cli_defs)

text \<open>
  The advice of the service and the exit code disagree: an unavailable registry or object
  store is answered with \<^verbatim>\<open>RETRY_PUSH\<close>, but the client knows neither code, so the CLI exits
  with the code 1 of an unsupported response instead of 4 for a retryable failure.
\<close>

theorem retryable_outage_exits_one:
  "er_next_action (handle_exception DatabaseError) = Some ''RETRY_PUSH''
   \<and> er_next_action (handle_exception StorageError) = Some ''RETRY_PUSH''
   \<and> exit_for_error (raise_api_error (handle_exception DatabaseError)) = 1
   \<and> exit_for_error (raise_api_error (handle_exception StorageError)) = 1
   \<and> exit_for_error ApiUnavailableError = 4"
  by (simp add: http_defs client_defs cli_defs)

end
