(* ===== verification/Lifecycle.thy ===== *)
theory Lifecycle
  imports Errors
begin

text \<open>
  The lifecycles: \<^verbatim>\<open>robolake/domain/lifecycle.py\<close> (versions, blobs, single-PUT upload
  sessions) and the state machines of \<^verbatim>\<open>robolake/domain/multipart.py\<close> (multipart sessions,
  parts, the phases of a completion). Each enum is a datatype, each edge set the list the code
  declares, each \<^verbatim>\<open>require_*\<close> function returns the target or \<open>IllegalTransitionError\<close>.
  The lemmas show which states are final, what precedes a published state, and that the
  multipart machine has no cycle but the guarded recovery.
\<close>

section \<open>Publication lifecycles\<close>

datatype version_state = V_DRAFT | V_UPLOADING | V_VERIFYING | V_READY | V_FAILED

datatype blob_state = B_PENDING | B_UPLOADING | B_VERIFYING | B_AVAILABLE | B_FAILED

datatype session_state = S_CREATED | S_IN_PROGRESS | S_COMPLETED | S_FAILED

datatype next_action = NA_NONE | NA_RETRY_PUSH | NA_RETRY_STATUS | NA_CONTACT_OPERATOR

datatype failure_code = FC_STORED_OBJECT_MISMATCH

definition version_edges :: "(version_state \<times> version_state) list" where
  "version_edges =
     [(V_DRAFT, V_UPLOADING), (V_DRAFT, V_VERIFYING), (V_UPLOADING, V_VERIFYING),
      (V_VERIFYING, V_READY), (V_VERIFYING, V_FAILED), (V_FAILED, V_UPLOADING)]"

definition blob_edges :: "(blob_state \<times> blob_state) list" where
  "blob_edges =
     [(B_PENDING, B_UPLOADING), (B_UPLOADING, B_VERIFYING), (B_VERIFYING, B_AVAILABLE),
      (B_VERIFYING, B_FAILED), (B_FAILED, B_UPLOADING)]"

definition session_edges :: "(session_state \<times> session_state) list" where
  "session_edges =
     [(S_CREATED, S_IN_PROGRESS), (S_IN_PROGRESS, S_COMPLETED), (S_IN_PROGRESS, S_FAILED)]"

definition require_version_transition :: "version_state \<Rightarrow> version_state \<Rightarrow> version_state res" where
  "require_version_transition current target =
     (if current = target \<or> (current, target) \<in> set version_edges then Inr target
      else Inl IllegalTransitionError)"

definition require_blob_transition :: "blob_state \<Rightarrow> blob_state \<Rightarrow> blob_state res" where
  "require_blob_transition current target =
     (if current = target \<or> (current, target) \<in> set blob_edges then Inr target
      else Inl IllegalTransitionError)"

definition require_session_transition :: "session_state \<Rightarrow> session_state \<Rightarrow> session_state res" where
  "require_session_transition current target =
     (if current = target \<or> (current, target) \<in> set session_edges then Inr target
      else Inl IllegalTransitionError)"

section \<open>Multipart lifecycles\<close>

datatype multipart_state =
    M_CREATED | M_INITIATING | M_IN_PROGRESS | M_COMPLETING | M_COMPLETED
  | M_ABORTING | M_ABORTED | M_CANCELLED | M_FAILED

datatype part_state = P_PENDING | P_UPLOADED | P_VERIFIED

datatype completion_phase = C_PENDING | C_ASSEMBLING | C_FINAL_PRESENT | C_FINAL_VERIFICATION

datatype completion_reason = CR_PARTS_READY | CR_FINAL_PRESENT

datatype recovery_reason =
    RR_PARTS_READY | RR_PARTS_PARTIAL | RR_CONDITIONAL_409 | RR_MULTIPART_SESSION_NOT_FOUND

datatype recovery_action = RA_RETRY_COMPLETION | RA_RESUME_PART_UPLOAD | RA_START_NEW_GENERATION

datatype multipart_failure =
    MF_INITIATION_AMBIGUOUS | MF_PROVIDER_ATTEMPT_INVALIDATED | MF_STORED_OBJECT_MISMATCH
  | MF_PLAN_INVARIANT

datatype verification_method = FULL_STREAM_SHA256

datatype part_attribution = NEWLY_TRANSFERRED | REUSED_PROVIDER | RECONCILED

definition multipart_session_edges :: "(multipart_state \<times> multipart_state) list" where
  "multipart_session_edges =
     [(M_CREATED, M_INITIATING), (M_CREATED, M_CANCELLED), (M_CREATED, M_FAILED),
      (M_INITIATING, M_IN_PROGRESS), (M_INITIATING, M_FAILED),
      (M_IN_PROGRESS, M_COMPLETING), (M_IN_PROGRESS, M_ABORTING), (M_IN_PROGRESS, M_FAILED),
      (M_COMPLETING, M_COMPLETED), (M_COMPLETING, M_FAILED),
      (M_ABORTING, M_ABORTED), (M_ABORTING, M_COMPLETING), (M_ABORTING, M_FAILED)]"

definition require_multipart_session_transition ::
    "multipart_state \<Rightarrow> multipart_state \<Rightarrow> bool \<Rightarrow> multipart_state res" where
  "require_multipart_session_transition current target guarded_completion_recovery =
     (if current = target \<or> (current, target) \<in> set multipart_session_edges then Inr target
      else if guarded_completion_recovery \<and> current = M_COMPLETING \<and> target = M_IN_PROGRESS
      then Inr target
      else Inl IllegalTransitionError)"

definition require_upload_part_transition ::
    "part_state \<Rightarrow> part_state \<Rightarrow> bool \<Rightarrow> part_state res" where
  "require_upload_part_transition current target provider_reconciled =
     (if current = target
         \<or> (current, target) \<in> {(P_PENDING, P_UPLOADED), (P_UPLOADED, P_VERIFIED)}
      then Inr target
      else if provider_reconciled \<and> current \<in> {P_UPLOADED, P_VERIFIED} \<and> target = P_PENDING
      then Inr target
      else Inl IllegalTransitionError)"

definition completion_phase_edges :: "(completion_phase \<times> completion_phase) list" where
  "completion_phase_edges =
     [(C_PENDING, C_ASSEMBLING), (C_ASSEMBLING, C_FINAL_PRESENT),
      (C_FINAL_PRESENT, C_FINAL_VERIFICATION)]"

definition require_completion_phase_transition ::
    "completion_phase \<Rightarrow> completion_phase \<Rightarrow> bool \<Rightarrow> bool \<Rightarrow> bool \<Rightarrow> completion_phase res" where
  "require_completion_phase_transition current target
       final_present_observed retryable_reconciliation transient_read_failure =
     (if current = target \<or> (current, target) \<in> set completion_phase_edges then Inr target
      else if final_present_observed \<and> current = C_PENDING \<and> target = C_FINAL_PRESENT
      then Inr target
      else if retryable_reconciliation \<and> current = C_ASSEMBLING \<and> target = C_PENDING
      then Inr target
      else if transient_read_failure \<and> current = C_FINAL_VERIFICATION \<and> target = C_FINAL_PRESENT
      then Inr target
      else Inl IllegalTransitionError)"

lemmas lifecycle_defs = require_version_transition_def version_edges_def
  require_blob_transition_def blob_edges_def require_session_transition_def session_edges_def
  require_multipart_session_transition_def multipart_session_edges_def
  require_upload_part_transition_def
  require_completion_phase_transition_def completion_phase_edges_def

text \<open>A transition function never answers anything but its target or the transition error.\<close>

lemma require_version_Inr: "require_version_transition a b = Inr c \<Longrightarrow> c = b"
  by (auto simp: require_version_transition_def split: if_splits)

lemma require_blob_Inr: "require_blob_transition a b = Inr c \<Longrightarrow> c = b"
  by (auto simp: require_blob_transition_def split: if_splits)

lemma require_session_Inr: "require_session_transition a b = Inr c \<Longrightarrow> c = b"
  by (auto simp: require_session_transition_def split: if_splits)

lemma require_multipart_Inr: "require_multipart_session_transition a b g = Inr c \<Longrightarrow> c = b"
  by (auto simp: require_multipart_session_transition_def split: if_splits)

lemma require_part_Inr: "require_upload_part_transition a b g = Inr c \<Longrightarrow> c = b"
  by (auto simp: require_upload_part_transition_def split: if_splits)

lemma require_phase_Inr: "require_completion_phase_transition a b f r t = Inr c \<Longrightarrow> c = b"
  by (auto simp: require_completion_phase_transition_def split: if_splits)

section \<open>Histories\<close>

text \<open>
  \<open>chain step s hs\<close>: every state of the history \<open>hs\<close>, begun in \<open>s\<close>, is an accepted target of
  the one before.
\<close>

fun chain :: "('s \<Rightarrow> 's \<Rightarrow> bool) \<Rightarrow> 's \<Rightarrow> 's list \<Rightarrow> bool" where
  "chain step s [] = True"
| "chain step s (t # ts) = (step s t \<and> chain step t ts)"

definition version_step :: "version_state \<Rightarrow> version_state \<Rightarrow> bool" where
  "version_step a b = (require_version_transition a b = Inr b)"

definition blob_step :: "blob_state \<Rightarrow> blob_state \<Rightarrow> bool" where
  "blob_step a b = (require_blob_transition a b = Inr b)"

definition multipart_step :: "bool \<Rightarrow> multipart_state \<Rightarrow> multipart_state \<Rightarrow> bool" where
  "multipart_step g a b = (require_multipart_session_transition a b g = Inr b)"

lemmas step_defs = version_step_def blob_step_def multipart_step_def lifecycle_defs

lemma chain_stays:
  assumes "\<And>a b. P a \<Longrightarrow> step a b \<Longrightarrow> P b"
  shows "chain step s ts \<Longrightarrow> P s \<Longrightarrow> \<forall>t \<in> set ts. P t"
  using assms by (induction ts arbitrary: s) auto

lemma version_ready_final: "version_step V_READY b \<longleftrightarrow> b = V_READY"
  by (cases b) (simp_all add: step_defs)

lemma blob_available_final: "blob_step B_AVAILABLE b \<longleftrightarrow> b = B_AVAILABLE"
  by (cases b) (simp_all add: step_defs)

lemma version_into_ready: "version_step a V_READY \<longleftrightarrow> a \<in> {V_READY, V_VERIFYING}"
  by (cases a) (simp_all add: step_defs)

lemma blob_into_available: "blob_step a B_AVAILABLE \<longleftrightarrow> a \<in> {B_AVAILABLE, B_VERIFYING}"
  by (cases a) (simp_all add: step_defs)

lemma chain_append:
  "chain step s (xs @ x # ys) = (chain step s (xs @ [x]) \<and> chain step x ys)"
  by (induction xs arbitrary: s) auto

text \<open>A state entered only from \<open>via\<close> is reached through \<open>via\<close>.\<close>

lemma chain_via:
  assumes "\<And>a. step a goal \<Longrightarrow> a = goal \<or> a = via"
  shows "chain step s (xs @ [goal]) \<Longrightarrow> s \<noteq> goal \<Longrightarrow> via \<in> set (s # xs)"
  using assms by (induction xs arbitrary: s) force+

text \<open>
  The rank of a multipart state. An accepted transition that changes the state raises it,
  unless it is the guarded recovery, the only way back.
\<close>

definition multipart_rank :: "multipart_state \<Rightarrow> nat" where
  "multipart_rank s =
     (case s of M_CREATED \<Rightarrow> 0 | M_INITIATING \<Rightarrow> 1 | M_IN_PROGRESS \<Rightarrow> 2 | M_ABORTING \<Rightarrow> 3
      | M_COMPLETING \<Rightarrow> 4 | M_COMPLETED \<Rightarrow> 5 | M_ABORTED \<Rightarrow> 5 | M_CANCELLED \<Rightarrow> 5 | M_FAILED \<Rightarrow> 5)"

definition multipart_terminal :: "multipart_state \<Rightarrow> bool" where
  "multipart_terminal s = (s \<in> {M_COMPLETED, M_ABORTED, M_CANCELLED, M_FAILED})"

lemma multipart_step_rank:
  "multipart_step False a b \<Longrightarrow> a = b \<or> multipart_rank a < multipart_rank b"
  by (cases a; cases b) (simp_all add: step_defs multipart_rank_def)

lemma multipart_terminal_final:
  "multipart_terminal a \<Longrightarrow> multipart_step g a b \<longleftrightarrow> b = a"
  by (cases a; cases b) (auto simp: step_defs multipart_terminal_def)

lemma multipart_live_continues:
  "\<not> multipart_terminal a \<Longrightarrow> \<exists>b. b \<noteq> a \<and> multipart_step False a b"
  by (cases a)
     (auto simp: step_defs multipart_terminal_def intro: exI [of _ M_FAILED])

lemma multipart_rank_le: "multipart_rank s \<le> 5"
  by (cases s) (simp_all add: multipart_rank_def)

text \<open>The states a history visits one after another, repetitions aside.\<close>

lemma multipart_chain_length:
  "chain (\<lambda>a b. a \<noteq> b \<and> multipart_step False a b) s ts \<Longrightarrow>
     length ts + multipart_rank s \<le> 5"
proof (induction ts arbitrary: s)
  case Nil
  then show ?case using multipart_rank_le by simp
next
  case (Cons t ts)
  then have "length ts + multipart_rank t \<le> 5" and "multipart_rank s < multipart_rank t"
    using multipart_step_rank by auto
  then show ?case by simp
qed

text \<open>
  C11: No history of accepted transitions publishes without verifying: a version that began as
  a draft and is READY at some point was VERIFYING before, and a blob is AVAILABLE only after
  VERIFYING; once published, both stay so.
\<close>

theorem publication_follows_verification:
  assumes "chain version_step V_DRAFT (vs @ V_READY # vs')"
    and "chain blob_step B_PENDING (bs @ B_AVAILABLE # bs')"
  shows "V_VERIFYING \<in> set vs \<and> set vs' \<subseteq> {V_READY}
     \<and> B_VERIFYING \<in> set bs \<and> set bs' \<subseteq> {B_AVAILABLE}"
proof -
  have v: "chain version_step V_DRAFT (vs @ [V_READY])" "chain version_step V_READY vs'"
    using iffD1 [OF chain_append assms(1)] by blast+
  have b: "chain blob_step B_PENDING (bs @ [B_AVAILABLE])" "chain blob_step B_AVAILABLE bs'"
    using iffD1 [OF chain_append assms(2)] by blast+
  have "V_VERIFYING \<in> set (V_DRAFT # vs)"
    by (rule chain_via [OF _ v(1)]) (simp_all add: version_into_ready)
  moreover have "B_VERIFYING \<in> set (B_PENDING # bs)"
    by (rule chain_via [OF _ b(1)]) (simp_all add: blob_into_available)
  moreover have "\<forall>t \<in> set vs'. t = V_READY"
    by (rule chain_stays [OF _ v(2)]) (simp_all add: version_ready_final)
  moreover have "\<forall>t \<in> set bs'. t = B_AVAILABLE"
    by (rule chain_stays [OF _ b(2)]) (simp_all add: blob_available_final)
  ultimately show ?thesis by auto
qed

theorem publication_follows_verification_witness:
  "V_VERIFYING \<in> set [V_VERIFYING, V_FAILED, V_UPLOADING, V_VERIFYING]
   \<and> B_VERIFYING \<in> set [B_UPLOADING, B_VERIFYING]"
  using publication_follows_verification
    [of "[V_VERIFYING, V_FAILED, V_UPLOADING, V_VERIFYING]" "[]" "[B_UPLOADING, B_VERIFYING]" "[]"]
  by (simp add: step_defs)

text \<open>
  C10: The multipart state machine terminates when it is not recovered: a history without the
  guarded recovery changes state at most five times, only terminal states end all histories,
  and a terminal state is never left, not even by the recovery.
\<close>

theorem multipart_histories_terminate:
  assumes "chain (\<lambda>a b. a \<noteq> b \<and> multipart_step False a b) s ts"
  shows "length ts \<le> 5
     \<and> ((\<nexists>b. b \<noteq> t \<and> multipart_step False t b) \<longleftrightarrow> multipart_terminal t)
     \<and> (multipart_terminal t \<longrightarrow> multipart_step g t b \<longrightarrow> b = t)"
  using multipart_chain_length [OF assms] multipart_terminal_final [of t] multipart_live_continues [of t]
  by auto

theorem multipart_histories_terminate_witness:
  "length [M_INITIATING, M_IN_PROGRESS, M_ABORTING, M_COMPLETING, M_COMPLETED] \<le> 5
   \<and> multipart_step True M_COMPLETING M_IN_PROGRESS"
  using multipart_histories_terminate
    [of M_CREATED "[M_INITIATING, M_IN_PROGRESS, M_ABORTING, M_COMPLETING, M_COMPLETED]"]
  by (simp add: step_defs)

end
