(* ===== verification/PyText.thy ===== *)
theory PyText
  imports Prelude "HOL-Library.Word" "HOL-Library.List_Lexorder"
begin

text \<open>
  Python's \<^verbatim>\<open>str\<close> and \<^verbatim>\<open>bytes\<close> as the code uses them. A string is the list of its code
  points, a byte string a list of 8-bit words. The theory defines the strict UTF-8 codec,
  decimal and hexadecimal notation and the string methods the domain code calls, and proves
  the codecs to be inverse to each other.
\<close>

section \<open>Strings and bytes\<close>

type_synonym codepoint = nat
type_synonym ustr = "nat list"
type_synonym byte = "8 word"
type_synonym bytes = "byte list"

definition lit :: "string \<Rightarrow> ustr" where
  "lit s = map of_char s"

lemma lit_simps [simp]:
  "lit [] = []"
  "lit (c # s) = of_char c # lit s"
  by (simp_all add: lit_def)

lemma lit_append: "lit (s @ t) = lit s @ lit t"
  by (simp add: lit_def)

text \<open>Unicode general categories \<^verbatim>\<open>Cc\<close> and \<^verbatim>\<open>Cs\<close>.\<close>

definition is_Cc :: "codepoint \<Rightarrow> bool" where
  "is_Cc c \<longleftrightarrow> c \<le> 0x1F \<or> 0x7F \<le> c \<and> c \<le> 0x9F"

definition is_Cs :: "codepoint \<Rightarrow> bool" where
  "is_Cs c \<longleftrightarrow> 0xD800 \<le> c \<and> c \<le> 0xDFFF"

text \<open>A Unicode scalar value: what UTF-8 can encode.\<close>

definition is_scalar :: "codepoint \<Rightarrow> bool" where
  "is_scalar c \<longleftrightarrow> c < 0x110000 \<and> \<not> is_Cs c"

subsection \<open>String methods\<close>

definition starts_with :: "ustr \<Rightarrow> ustr \<Rightarrow> bool" where
  "starts_with p s \<longleftrightarrow> take (length p) s = p"

definition ends_with :: "ustr \<Rightarrow> ustr \<Rightarrow> bool" where
  "ends_with p s \<longleftrightarrow> starts_with (rev p) (rev s)"

text \<open>\<^verbatim>\<open>s.split(sep)\<close> for a one-character separator.\<close>

fun split_on :: "codepoint \<Rightarrow> ustr \<Rightarrow> ustr list" where
  "split_on sep [] = [[]]"
| "split_on sep (c # cs) =
     (if c = sep then [] # split_on sep cs
      else (case split_on sep cs of [] \<Rightarrow> [[c]] | s # ss \<Rightarrow> (c # s) # ss))"

text \<open>\<^verbatim>\<open>sep.join(parts)\<close>.\<close>

fun join_with :: "codepoint \<Rightarrow> ustr list \<Rightarrow> ustr" where
  "join_with sep [] = []"
| "join_with sep [s] = s"
| "join_with sep (s # t # ss) = s @ sep # join_with sep (t # ss)"

text \<open>
  \<^verbatim>\<open>s.rpartition(marker)\<close> for a nonempty marker: what is left and right of its last
  occurrence, or nothing when it does not occur.
\<close>

fun rpartition :: "ustr \<Rightarrow> ustr \<Rightarrow> (ustr \<times> ustr) option" where
  "rpartition m [] = None"
| "rpartition m (c # cs) =
     (case rpartition m cs of
        Some (l, r) \<Rightarrow> Some (c # l, r)
      | None \<Rightarrow> (if starts_with m (c # cs) then Some ([], drop (length m) (c # cs)) else None))"

lemma split_on_nonempty [simp]: "split_on sep s \<noteq> []"
  by (induction s) (auto split: list.splits)

lemma join_split [simp]: "join_with sep (split_on sep s) = s"
proof (induction s)
  case (Cons c cs)
  then show ?case
    by (cases "split_on sep cs" rule: list.exhaust; cases "tl (split_on sep cs)")
       (auto split: list.splits)
qed simp

lemma split_on_no_sep: "p \<in> set (split_on sep s) \<Longrightarrow> sep \<notin> set p"
  by (induction s arbitrary: p) (auto split: list.splits if_splits)

lemma split_join:
  "ss \<noteq> [] \<Longrightarrow> \<forall>s \<in> set ss. sep \<notin> set s \<Longrightarrow> split_on sep (join_with sep ss) = ss"
proof (induction sep ss rule: join_with.induct)
  case (2 sep s)
  then show ?case by (induction s) auto
next
  case (3 sep s t ss)
  then have tail: "split_on sep (join_with sep (t # ss)) = t # ss" and "sep \<notin> set s" by auto
  from this(2) have "split_on sep (s @ sep # join_with sep (t # ss)) = s # t # ss"
    by (induction s) (use tail in \<open>auto\<close>)
  then show ?case by simp
qed simp

lemma split_on_singleton: "sep \<notin> set s \<Longrightarrow> split_on sep s = [s]"
  by (induction s) auto

lemma rpartition_Some: "rpartition m s = Some (l, r) \<Longrightarrow> s = l @ m @ r"
proof (induction s arbitrary: l)
  case (Cons c cs)
  show ?case
  proof (cases "rpartition m cs")
    case None
    with Cons.prems show ?thesis
      by (auto simp: starts_with_def split: if_splits) (metis append_take_drop_id)
  next
    case (Some p)
    with Cons show ?thesis by (cases p) auto
  qed
qed simp

text \<open>A suffix without the marker's first character does not contain the marker.\<close>

lemma rpartition_absent:
  "m = a # m' \<Longrightarrow> a \<notin> set s \<Longrightarrow> rpartition m s = None"
  by (induction s) (auto simp: starts_with_def)

lemma rpartition_append:
  assumes "m = a # m'" and "a \<notin> set m'" and "a \<notin> set r"
  shows "rpartition m (l @ m @ r) = Some (l, r)"
proof (induction l)
  case Nil
  have "rpartition m (m' @ r) = None"
    using assms by (intro rpartition_absent [of m a m']) auto
  then show ?case using assms(1) by (simp add: starts_with_def)
qed simp

section \<open>UTF-8\<close>

text \<open>
  \<^verbatim>\<open>s.encode("utf-8")\<close> under the strict error handler: \<open>None\<close> is
  \<^verbatim>\<open>UnicodeEncodeError\<close>, which a surrogate raises.
\<close>

definition utf8_char :: "codepoint \<Rightarrow> bytes option" where
  "utf8_char c =
     (if c < 0x80 then Some [of_nat c]
      else if c < 0x800 then Some [of_nat (0xC0 + c div 64), of_nat (0x80 + c mod 64)]
      else if c < 0x10000 then
        (if is_Cs c then None
         else Some [of_nat (0xE0 + c div 4096), of_nat (0x80 + c div 64 mod 64),
                    of_nat (0x80 + c mod 64)])
      else if c < 0x110000 then
        Some [of_nat (0xF0 + c div 262144), of_nat (0x80 + c div 4096 mod 64),
              of_nat (0x80 + c div 64 mod 64), of_nat (0x80 + c mod 64)]
      else None)"

definition utf8_encode :: "ustr \<Rightarrow> bytes option" where
  "utf8_encode s = map_option concat (opt_map utf8_char s)"

text \<open>\<^verbatim>\<open>data.decode("utf-8")\<close>, strict: \<open>None\<close> is \<^verbatim>\<open>UnicodeDecodeError\<close>.\<close>

definition cont :: "byte \<Rightarrow> bool" where
  "cont b \<longleftrightarrow> 0x80 \<le> unat b \<and> unat b < 0xC0"

fun utf8_decode :: "bytes \<Rightarrow> ustr option" where
  "utf8_decode [] = Some []"
| "utf8_decode (b # bs) =
     (let n = unat b in
      if n < 0x80 then map_option (Cons n) (utf8_decode bs)
      else if n < 0xC2 then None
      else if n < 0xE0 then
        (case bs of
           b1 # r \<Rightarrow>
             (if cont b1
              then map_option (Cons ((n - 0xC0) * 64 + (unat b1 - 0x80))) (utf8_decode r)
              else None)
         | _ \<Rightarrow> None)
      else if n < 0xF0 then
        (case bs of
           b1 # b2 # r \<Rightarrow>
             (let c = (n - 0xE0) * 4096 + (unat b1 - 0x80) * 64 + (unat b2 - 0x80) in
              if cont b1 \<and> cont b2 \<and> 0x800 \<le> c \<and> \<not> is_Cs c
              then map_option (Cons c) (utf8_decode r) else None)
         | _ \<Rightarrow> None)
      else if n < 0xF5 then
        (case bs of
           b1 # b2 # b3 # r \<Rightarrow>
             (let c = (n - 0xF0) * 262144 + (unat b1 - 0x80) * 4096 + (unat b2 - 0x80) * 64
                        + (unat b3 - 0x80) in
              if cont b1 \<and> cont b2 \<and> cont b3 \<and> 0x10000 \<le> c \<and> c < 0x110000
              then map_option (Cons c) (utf8_decode r) else None)
         | _ \<Rightarrow> None)
      else None)"

declare utf8_decode.simps(2) [simp del]

lemma unat_byte [simp]: "n < 256 \<Longrightarrow> unat (of_nat n :: byte) = n"
  by (simp add: unat_of_nat take_bit_eq_mod)

lemma unat_byte_less: "unat (b :: byte) < 256"
  using unsigned_less [of b] by simp

lemma of_nat_unat_byte [simp]: "(of_nat (unat b) :: byte) = b"
  by simp

lemma utf8_char_Some: "(\<exists>bs. utf8_char c = Some bs) \<longleftrightarrow> is_scalar c"
  by (auto simp: utf8_char_def is_scalar_def is_Cs_def)

lemma utf8_decode_2:
  "0xC2 \<le> unat b \<Longrightarrow> unat b < 0xE0 \<Longrightarrow> cont b1 \<Longrightarrow>
     (unat b - 0xC0) * 64 + (unat b1 - 0x80) = c \<Longrightarrow>
     utf8_decode (b # b1 # r) = map_option (Cons c) (utf8_decode r)"
  by (simp add: utf8_decode.simps(2) Let_def)

lemma utf8_decode_3:
  "0xE0 \<le> unat b \<Longrightarrow> unat b < 0xF0 \<Longrightarrow> cont b1 \<Longrightarrow> cont b2 \<Longrightarrow>
     (unat b - 0xE0) * 4096 + (unat b1 - 0x80) * 64 + (unat b2 - 0x80) = c \<Longrightarrow>
     0x800 \<le> c \<Longrightarrow> \<not> is_Cs c \<Longrightarrow>
     utf8_decode (b # b1 # b2 # r) = map_option (Cons c) (utf8_decode r)"
  by (simp add: utf8_decode.simps(2) Let_def)

lemma utf8_decode_4:
  "0xF0 \<le> unat b \<Longrightarrow> unat b < 0xF5 \<Longrightarrow> cont b1 \<Longrightarrow> cont b2 \<Longrightarrow> cont b3 \<Longrightarrow>
     (unat b - 0xF0) * 262144 + (unat b1 - 0x80) * 4096 + (unat b2 - 0x80) * 64
       + (unat b3 - 0x80) = c \<Longrightarrow>
     0x10000 \<le> c \<Longrightarrow> c < 0x110000 \<Longrightarrow>
     utf8_decode (b # b1 # b2 # b3 # r) = map_option (Cons c) (utf8_decode r)"
  by (simp add: utf8_decode.simps(2) Let_def)

lemma cont_byte: "m < 64 \<Longrightarrow> cont (of_nat (0x80 + m)) \<and> unat (of_nat (0x80 + m) :: byte) - 0x80 = m"
proof -
  assume "m < 64"
  then have "unat (of_nat (0x80 + m) :: byte) = 0x80 + m" by (intro unat_byte) linarith
  with \<open>m < 64\<close> show ?thesis unfolding cont_def by presburger
qed

lemma sextets:
  "(c::nat) div 4096 * 4096 + c div 64 mod 64 * 64 + c mod 64 = c"
  "c div 262144 * 262144 + c div 4096 mod 64 * 4096 + c div 64 mod 64 * 64 + c mod 64 = c"
proof -
  have d: "c div 4096 = c div 64 div 64" "c div 262144 = c div 4096 div 64"
    by (simp_all add: div_mult2_eq [symmetric])
  have s: "n div 64 * 64 + n mod 64 = n" for n :: nat by simp
  from s [of "c div 64"] s [of c] show
    one: "c div 4096 * 4096 + c div 64 mod 64 * 64 + c mod 64 = c"
    unfolding d(1) by linarith
  from s [of "c div 4096"] one show
    "c div 262144 * 262144 + c div 4096 mod 64 * 4096 + c div 64 mod 64 * 64 + c mod 64 = c"
    unfolding d(2) by linarith
qed

lemma utf8_decode_char:
  assumes "utf8_char c = Some bs"
  shows "utf8_decode (bs @ r) = map_option (Cons c) (utf8_decode r)"
proof -
  from assms have s: "c < 0x110000" "\<not> is_Cs c"
    using utf8_char_Some [of c] by (auto simp: is_scalar_def)
  have m: "cont (of_nat (0x80 + x mod 64))" "unat (of_nat (0x80 + x mod 64) :: byte) - 0x80 = x mod 64"
    for x using cont_byte [of "x mod 64"] by simp_all
  consider "c < 0x80" | "0x80 \<le> c" "c < 0x800" | "0x800 \<le> c" "c < 0x10000"
    | "0x10000 \<le> c" "c < 0x110000"
    using s(1) by linarith
  then show ?thesis
  proof cases
    case 1
    with assms show ?thesis by (auto simp: utf8_char_def utf8_decode.simps(2))
  next
    case 2
    then have b: "2 \<le> c div 64" "c div 64 < 32" by auto
    have u: "unat (of_nat (0xC0 + c div 64) :: byte) = 0xC0 + c div 64"
      by (rule unat_byte) (use b in linarith)
    have bs: "bs = [of_nat (0xC0 + c div 64), of_nat (0x80 + c mod 64)]"
      using 2 assms unfolding utf8_char_def by auto
    have e: "c div 64 * 64 + c mod 64 = c" by presburger
    show ?thesis unfolding bs append_Cons append_Nil
      by (rule utf8_decode_2; (simp only: u m)?; use b 2 e in simp)
  next
    case 3
    then have b: "c div 4096 < 16" by auto
    have u: "unat (of_nat (0xE0 + c div 4096) :: byte) = 0xE0 + c div 4096"
      by (rule unat_byte) (use b in linarith)
    have bs: "bs = [of_nat (0xE0 + c div 4096), of_nat (0x80 + c div 64 mod 64),
                    of_nat (0x80 + c mod 64)]"
      using 3 s assms unfolding utf8_char_def by auto
    have e: "c div 4096 * 4096 + c div 64 mod 64 * 64 + c mod 64 = c" by (rule sextets)
    show ?thesis unfolding bs append_Cons append_Nil
      by (rule utf8_decode_3; (simp only: u m)?; use b 3 s e in simp)
  next
    case 4
    then have b: "c div 262144 < 5" by auto
    have u: "unat (of_nat (0xF0 + c div 262144) :: byte) = 0xF0 + c div 262144"
      by (rule unat_byte) (use b in linarith)
    have bs: "bs = [of_nat (0xF0 + c div 262144), of_nat (0x80 + c div 4096 mod 64),
              of_nat (0x80 + c div 64 mod 64), of_nat (0x80 + c mod 64)]"
      using 4 s assms unfolding utf8_char_def by auto
    have e: "c div 262144 * 262144 + c div 4096 mod 64 * 4096 + c div 64 mod 64 * 64 + c mod 64 = c"
      by (rule sextets)
    show ?thesis unfolding bs append_Cons append_Nil
      by (rule utf8_decode_4; (simp only: u m)?; use b 4 s e in simp)
  qed
qed

lemma utf8_encode_Cons:
  "utf8_encode (c # cs) =
     (case utf8_char c of None \<Rightarrow> None | Some b \<Rightarrow> map_option ((@) b) (utf8_encode cs))"
  by (simp add: utf8_encode_def split: option.splits)

lemma utf8_encode_Nil [simp]: "utf8_encode [] = Some []"
  by (simp add: utf8_encode_def)

lemma utf8_roundtrip: "utf8_encode s = Some bs \<Longrightarrow> utf8_decode bs = Some s"
  by (induction s arbitrary: bs)
     (auto simp: utf8_encode_Cons utf8_decode_char split: option.splits)

lemma utf8_encode_inj: "utf8_encode s = Some bs \<Longrightarrow> utf8_encode t = Some bs \<Longrightarrow> s = t"
  using utf8_roundtrip [of s bs] utf8_roundtrip [of t bs] by simp

lemma utf8_encode_Some: "(\<exists>bs. utf8_encode s = Some bs) \<longleftrightarrow> (\<forall>c \<in> set s. is_scalar c)"
  by (induction s) (auto simp: utf8_encode_Cons utf8_char_Some [symmetric] split: option.splits)

lemma utf8_encode_None: "utf8_encode s = None \<longleftrightarrow> (\<exists>c \<in> set s. \<not> is_scalar c)"
  using utf8_encode_Some [of s] by (cases "utf8_encode s") auto

lemma utf8_encode_append:
  "utf8_encode (s @ t) =
     (case utf8_encode s of None \<Rightarrow> None | Some a \<Rightarrow> map_option ((@) a) (utf8_encode t))"
  by (induction s; cases "utf8_encode t") (auto simp: utf8_encode_Cons split: option.splits)

lemma utf8_encode_ascii:
  "\<forall>c \<in> set s. c < 0x80 \<Longrightarrow> utf8_encode s = Some (map of_nat s)"
  by (induction s) (auto simp: utf8_encode_Cons utf8_char_def)

section \<open>Decimal notation\<close>

text \<open>\<^verbatim>\<open>str(n)\<close> of a nonnegative and of any integer.\<close>

fun nat_str :: "nat \<Rightarrow> ustr" where
  "nat_str n = (if n < 10 then [48 + n] else nat_str (n div 10) @ [48 + n mod 10])"

declare nat_str.simps [simp del]

definition int_str :: "int \<Rightarrow> ustr" where
  "int_str i = (if i < 0 then 45 # nat_str (nat (- i)) else nat_str (nat i))"

definition is_digit :: "codepoint \<Rightarrow> bool" where
  "is_digit c \<longleftrightarrow> 48 \<le> c \<and> c \<le> 57"

definition digits_val :: "ustr \<Rightarrow> nat" where
  "digits_val ds = foldl (\<lambda>a d. a * 10 + (d - 48)) 0 ds"

lemma digits_val_snoc: "digits_val (ds @ [d]) = digits_val ds * 10 + (d - 48)"
  by (simp add: digits_val_def)

lemma digits_val_nat_str [simp]: "digits_val (nat_str n) = n"
proof (induction n rule: nat_str.induct)
  case (1 n)
  show ?case
  proof (cases "n < 10")
    case True
    then show ?thesis by (simp add: nat_str.simps [of n] digits_val_def)
  next
    case False
    with 1 show ?thesis by (simp add: nat_str.simps [of n] digits_val_snoc)
  qed
qed

lemma nat_str_nonempty [simp]: "nat_str n \<noteq> []"
  by (subst nat_str.simps) simp

lemma nat_str_digits: "c \<in> set (nat_str n) \<Longrightarrow> is_digit c"
proof (induction n rule: nat_str.induct)
  case (1 n)
  then show ?case
    by (cases "n < 10") (auto simp: nat_str.simps [of n] is_digit_def)
qed

lemma nat_str_hd: "n \<noteq> 0 \<Longrightarrow> hd (nat_str n) \<noteq> 48"
proof (induction n rule: nat_str.induct)
  case (1 n)
  show ?case
  proof (cases "n < 10")
    case True
    with "1.prems" show ?thesis by (simp add: nat_str.simps [of n])
  next
    case False
    then have "n div 10 \<noteq> 0" by auto
    with 1 False have "hd (nat_str (n div 10)) \<noteq> 48" by simp
    with False show ?thesis by (simp add: nat_str.simps [of n])
  qed
qed

lemma nat_str_0 [simp]: "nat_str 0 = [48]"
  by (simp add: nat_str.simps)

lemma nat_str_inj: "nat_str m = nat_str n \<longleftrightarrow> m = n"
  by (metis digits_val_nat_str)

section \<open>Hexadecimal notation\<close>

definition hex_char :: "nat \<Rightarrow> codepoint" where
  "hex_char n = (if n < 10 then 48 + n else 87 + n)"

text \<open>The characters of \<^verbatim>\<open>"0123456789abcdef"\<close> and their values.\<close>

definition hex_val :: "codepoint \<Rightarrow> nat option" where
  "hex_val c =
     (if 48 \<le> c \<and> c \<le> 57 then Some (c - 48)
      else if 97 \<le> c \<and> c \<le> 102 then Some (c - 87)
      else None)"

text \<open>\<^verbatim>\<open>data.hex()\<close> and \<^verbatim>\<open>bytes.fromhex\<close> on lowercase digits without blanks.\<close>

fun hex_encode :: "bytes \<Rightarrow> ustr" where
  "hex_encode [] = []"
| "hex_encode (b # bs) = hex_char (unat b div 16) # hex_char (unat b mod 16) # hex_encode bs"

fun hex_decode :: "ustr \<Rightarrow> bytes option" where
  "hex_decode [] = Some []"
| "hex_decode [c] = None"
| "hex_decode (c # d # r) =
     (case (hex_val c, hex_val d) of
        (Some x, Some y) \<Rightarrow> map_option (Cons (of_nat (16 * x + y))) (hex_decode r)
      | _ \<Rightarrow> None)"

lemma hex_val_char [simp]: "n < 16 \<Longrightarrow> hex_val (hex_char n) = Some n"
  by (auto simp: hex_val_def hex_char_def)

lemma hex_char_val: "hex_val c = Some n \<Longrightarrow> hex_char n = c \<and> n < 16"
  by (auto simp: hex_val_def hex_char_def split: if_splits)

lemma hex_decode_encode [simp]: "hex_decode (hex_encode bs) = Some bs"
proof (induction bs)
  case (Cons b bs)
  have "unat b div 16 < 16" using unat_byte_less [of b] by linarith
  moreover have "16 * (unat b div 16) + unat b mod 16 = unat b" by presburger
  ultimately show ?case using Cons
    by (simp del: of_nat_add of_nat_mult)
qed simp

lemma hex_encode_decode: "hex_decode s = Some bs \<Longrightarrow> hex_encode bs = s"
proof (induction s arbitrary: bs rule: hex_decode.induct)
  case (3 c d r)
  then obtain x y ys where v: "hex_val c = Some x" "hex_val d = Some y"
    and r: "hex_decode r = Some ys" and bs: "bs = of_nat (16 * x + y) # ys"
    by (auto split: option.splits)
  from v have xy: "hex_char x = c" "x < 16" "hex_char y = d" "y < 16"
    by (auto dest: hex_char_val)
  then have "unat (of_nat (16 * x + y) :: byte) = 16 * x + y" by (intro unat_byte) simp
  with xy have "unat (of_nat (16 * x + y) :: byte) div 16 = x"
    "unat (of_nat (16 * x + y) :: byte) mod 16 = y" by simp_all
  with 3 v r bs xy show ?case by (simp del: of_nat_add of_nat_mult)
qed auto

lemma hex_encode_length [simp]: "length (hex_encode bs) = 2 * length bs"
  by (induction bs) auto

lemma hex_encode_inj: "hex_encode a = hex_encode b \<longleftrightarrow> a = b"
  by (metis hex_decode_encode option.inject)

lemma hex_decode_length: "hex_decode s = Some bs \<Longrightarrow> length s = 2 * length bs"
  using hex_encode_decode hex_encode_length by metis

lemma hex_encode_chars: "c \<in> set (hex_encode bs) \<Longrightarrow> hex_val c \<noteq> None"
proof (induction bs)
  case (Cons b bs)
  have "unat b div 16 < 16" using unat_byte_less [of b] by linarith
  with Cons show ?case by auto
qed simp

lemma hex_decode_Some:
  "even (length s) \<Longrightarrow> \<forall>c \<in> set s. hex_val c \<noteq> None \<Longrightarrow> \<exists>bs. hex_decode s = Some bs"
  by (induction s rule: hex_decode.induct) auto

end
