(* ===== verification/Base64.thy ===== *)
theory Base64
  imports PyText
begin

text \<open>
  The two functions of Python's \<^verbatim>\<open>base64\<close> module the code calls: \<^verbatim>\<open>b64encode\<close> (and its
  URL-safe variant) and \<^verbatim>\<open>b64decode\<close> with \<^verbatim>\<open>validate=True\<close>, which is the strict mode of
  \<^verbatim>\<open>binascii.a2b_base64\<close> of Python 3.12: a scan of the characters with the position in the
  current quad, the bits left over and the number of padding characters seen. Base64 text is
  kept as the list of its ASCII codes.
\<close>

section \<open>Encoding\<close>

definition b64_char :: "nat \<Rightarrow> codepoint" where
  "b64_char n =
     (if n < 26 then 65 + n else if n < 52 then 71 + n else if n < 62 then n - 4
      else if n = 62 then 43 else 47)"

definition b64_val :: "codepoint \<Rightarrow> nat option" where
  "b64_val c =
     (if 65 \<le> c \<and> c \<le> 90 then Some (c - 65)
      else if 97 \<le> c \<and> c \<le> 122 then Some (c - 71)
      else if 48 \<le> c \<and> c \<le> 57 then Some (c + 4)
      else if c = 43 then Some 62 else if c = 47 then Some 63 else None)"

fun b64_encode :: "bytes \<Rightarrow> ustr" where
  "b64_encode [] = []"
| "b64_encode [a] =
     [b64_char (unat a div 4), b64_char (unat a mod 4 * 16), 61, 61]"
| "b64_encode [a, b] =
     [b64_char (unat a div 4), b64_char (unat a mod 4 * 16 + unat b div 16),
      b64_char (unat b mod 16 * 4), 61]"
| "b64_encode (a # b # c # r) =
     b64_char (unat a div 4) # b64_char (unat a mod 4 * 16 + unat b div 16)
       # b64_char (unat b mod 16 * 4 + unat c div 64) # b64_char (unat c mod 64)
       # b64_encode r"

section \<open>Strict decoding\<close>

fun b64_loop :: "nat \<Rightarrow> nat \<Rightarrow> nat \<Rightarrow> bool \<Rightarrow> ustr \<Rightarrow> bytes option" where
  "b64_loop quad left pads started [] = (if quad = 0 then Some [] else None)"
| "b64_loop quad left pads started (c # cs) =
     (if c = 61 then
        (if 2 \<le> quad then
           (if 4 \<le> quad + Suc pads then (if cs = [] then Some [] else None)
            else b64_loop quad left (Suc pads) True cs)
         else b64_loop quad left pads True cs)
      else
        (case b64_val c of
           None \<Rightarrow> None
         | Some v \<Rightarrow>
             (if started then None
              else if quad = 0 then b64_loop 1 v 0 False cs
              else if quad = 1 then
                map_option (Cons (of_nat (left * 4 + v div 16))) (b64_loop 2 (v mod 16) 0 False cs)
              else if quad = 2 then
                map_option (Cons (of_nat (left * 16 + v div 4))) (b64_loop 3 (v mod 4) 0 False cs)
              else
                map_option (Cons (of_nat (left * 64 + v))) (b64_loop 0 0 0 False cs))))"

definition b64_decode :: "ustr \<Rightarrow> bytes option" where
  "b64_decode s = (if s \<noteq> [] \<and> hd s = 61 then None else b64_loop 0 0 0 False s)"

lemma b64_val_char [simp]: "n < 64 \<Longrightarrow> b64_val (b64_char n) = Some n"
  by (auto simp: b64_val_def b64_char_def)

lemma b64_char_not_pad [simp]: "n < 64 \<Longrightarrow> b64_char n \<noteq> 61"
  by (auto simp: b64_char_def)

lemma byte_parts:
  "unat (a :: byte) div 4 < 64" "unat a mod 4 * 16 < 64"
  "unat (b :: byte) div 16 < 16" "unat a mod 4 * 16 + unat b div 16 < 64"
  "unat b mod 16 * 4 < 64" "unat (c :: byte) div 64 < 4"
  "unat b mod 16 * 4 + unat c div 64 < 64" "unat c mod 64 < 64"
proof -
  have a: "unat a < 256" and b: "unat b < 256" and c: "unat c < 256" by (rule unat_byte_less)+
  show "unat a div 4 < 64" using a by linarith
  show "unat b div 16 < 16" using b by linarith
  show "unat c div 64 < 4" using c by linarith
  show "unat a mod 4 * 16 < 64" "unat b mod 16 * 4 < 64" "unat c mod 64 < 64" by linarith+
  show "unat a mod 4 * 16 + unat b div 16 < 64" using b by linarith
  show "unat b mod 16 * 4 + unat c div 64 < 64" using c by linarith
qed

lemma sextet_split:
  "k < 16 \<Longrightarrow> (m * 16 + k) div 16 = (m::nat)" "k < 16 \<Longrightarrow> (m * 16 + k) mod 16 = (k::nat)"
  "k < 4 \<Longrightarrow> (m * 4 + k) div 4 = (m::nat)" "k < 4 \<Longrightarrow> (m * 4 + k) mod 4 = (k::nat)"
  by simp_all

lemma of_nat_parts:
  "(of_nat (unat (a :: byte) div 4 * 4 + unat a mod 4) :: byte) = a"
  "(of_nat (unat a div 16 * 16 + unat a mod 16) :: byte) = a"
  "(of_nat (unat a div 64 * 64 + unat a mod 64) :: byte) = a"
  by (simp_all only: div_mult_mod_eq of_nat_unat_byte)

lemma b64_loop_val:
  "c \<noteq> 61 \<Longrightarrow> b64_val c = Some v \<Longrightarrow> b64_loop 0 l p False (c # cs) = b64_loop 1 v 0 False cs"
  "c \<noteq> 61 \<Longrightarrow> b64_val c = Some v \<Longrightarrow>
     b64_loop 1 l p False (c # cs)
       = map_option (Cons (of_nat (l * 4 + v div 16))) (b64_loop 2 (v mod 16) 0 False cs)"
  "c \<noteq> 61 \<Longrightarrow> b64_val c = Some v \<Longrightarrow>
     b64_loop 2 l p False (c # cs)
       = map_option (Cons (of_nat (l * 16 + v div 4))) (b64_loop 3 (v mod 4) 0 False cs)"
  "c \<noteq> 61 \<Longrightarrow> b64_val c = Some v \<Longrightarrow>
     b64_loop 3 l p False (c # cs)
       = map_option (Cons (of_nat (l * 64 + v))) (b64_loop 0 0 0 False cs)"
  by simp_all

lemma b64_loop_encode: "b64_loop 0 0 0 False (b64_encode bs) = Some bs"
proof (induction bs rule: b64_encode.induct)
  case 1
  show ?case by simp
next
  case (2 a)
  have "(unat a mod 4 * 16) div 16 = unat a mod 4" by simp
  then show ?case
    by (simp only: b64_encode.simps b64_loop_val b64_char_not_pad b64_val_char byte_parts not_False_eq_True
        of_nat_parts) simp
next
  case (3 a b)
  show ?case
    by (simp only: b64_encode.simps b64_loop_val b64_char_not_pad b64_val_char byte_parts not_False_eq_True
        sextet_split of_nat_parts nonzero_mult_div_cancel_right)
      (simp add: of_nat_parts del: of_nat_add of_nat_mult)
next
  case (4 a b c r)
  show ?case
    by (simp only: b64_encode.simps b64_loop_val b64_char_not_pad b64_val_char byte_parts not_False_eq_True
        sextet_split of_nat_parts 4) simp
qed

lemma b64_encode_hd: "bs \<noteq> [] \<Longrightarrow> hd (b64_encode bs) \<noteq> 61"
  by (induction bs rule: b64_encode.induct) (simp_all add: byte_parts)

lemma b64_roundtrip [simp]: "b64_decode (b64_encode bs) = Some bs"
proof (cases "bs = []")
  case False
  then show ?thesis using b64_encode_hd [of bs] by (simp add: b64_decode_def b64_loop_encode)
qed (simp add: b64_decode_def)

lemma b64_encode_inj: "b64_encode a = b64_encode b \<longleftrightarrow> a = b"
  by (metis b64_roundtrip option.inject)

section \<open>Padding and the URL-safe alphabet\<close>

text \<open>\<^verbatim>\<open>s.rstrip(b"=")\<close>.\<close>

definition rstrip_pad :: "ustr \<Rightarrow> ustr" where
  "rstrip_pad s = rev (dropWhile (\<lambda>c. c = 61) (rev s))"

text \<open>\<^verbatim>\<open>b"=" * (-len(s) % 4)\<close>.\<close>

definition padding :: "ustr \<Rightarrow> ustr" where
  "padding s = replicate (nat ((- int (length s)) mod 4)) 61"

fun b64_unpadded :: "bytes \<Rightarrow> ustr" where
  "b64_unpadded [] = []"
| "b64_unpadded [a] = [b64_char (unat a div 4), b64_char (unat a mod 4 * 16)]"
| "b64_unpadded [a, b] =
     [b64_char (unat a div 4), b64_char (unat a mod 4 * 16 + unat b div 16),
      b64_char (unat b mod 16 * 4)]"
| "b64_unpadded (a # b # c # r) =
     b64_char (unat a div 4) # b64_char (unat a mod 4 * 16 + unat b div 16)
       # b64_char (unat b mod 16 * 4 + unat c div 64) # b64_char (unat c mod 64)
       # b64_unpadded r"

lemma b64_encode_unpadded:
  "\<exists>k q. k < 4 \<and> b64_encode bs = b64_unpadded bs @ replicate k 61
     \<and> length (b64_unpadded bs) + k = 4 * q"
proof (induction bs rule: b64_encode.induct)
  case 1
  show ?case by simp
next
  case (2 a)
  show ?case by (intro exI [of _ 2] exI [of _ 1]) (simp add: numeral_2_eq_2)
next
  case (3 a b)
  show ?case by (intro exI [of _ 1] exI [of _ 1]) simp
next
  case (4 a b c r)
  then obtain k q where "k < 4" "b64_encode r = b64_unpadded r @ replicate k 61"
    "length (b64_unpadded r) + k = 4 * q" by blast
  then show ?case by (intro exI [of _ k] exI [of _ "Suc q"]) simp
qed

lemma b64_unpadded_clean: "61 \<notin> set (b64_unpadded bs)"
  by (induction bs rule: b64_unpadded.induct) (auto simp: byte_parts dest!: sym [of 61])

lemma rstrip_pad_append:
  "61 \<notin> set s \<Longrightarrow> rstrip_pad (s @ replicate k 61) = s"
proof -
  assume s: "61 \<notin> set s"
  have "dropWhile (\<lambda>c. c = 61) (replicate k 61 @ rev s) = rev s"
    using s by (induction k) (cases "rev s"; auto)+
  then show ?thesis by (simp add: rstrip_pad_def)
qed

lemma rstrip_pad_encode: "rstrip_pad (b64_encode bs) = b64_unpadded bs"
  using b64_encode_unpadded [of bs] b64_unpadded_clean [of bs] rstrip_pad_append by auto

lemma padding_restores: "b64_unpadded bs @ padding (b64_unpadded bs) = b64_encode bs"
proof -
  obtain k q where k: "k < 4" "b64_encode bs = b64_unpadded bs @ replicate k 61"
    "length (b64_unpadded bs) + k = 4 * q"
    using b64_encode_unpadded by blast
  then have "- int (length (b64_unpadded bs)) = int k + 4 * (- int q)" by linarith
  then have "(- int (length (b64_unpadded bs))) mod 4 = int k"
    using k(1) by (simp only: mod_mult_self2) simp
  then have "nat ((- int (length (b64_unpadded bs))) mod 4) = k" by simp
  with k show ?thesis by (simp add: padding_def)
qed

definition to_urlsafe :: "ustr \<Rightarrow> ustr" where
  "to_urlsafe = map (\<lambda>c. if c = 43 then 45 else if c = 47 then 95 else c)"

definition from_urlsafe :: "ustr \<Rightarrow> ustr" where
  "from_urlsafe = map (\<lambda>c. if c = 45 then 43 else if c = 95 then 47 else c)"

lemma b64_char_range: "n < 64 \<Longrightarrow> b64_char n \<noteq> 45 \<and> b64_char n \<noteq> 95 \<and> b64_char n < 123"
  by (auto simp: b64_char_def)

lemma b64_encode_chars: "c \<in> set (b64_encode bs) \<Longrightarrow> c \<noteq> 45 \<and> c \<noteq> 95 \<and> c < 123"
  by (induction bs rule: b64_encode.induct) (auto simp: byte_parts b64_char_range)

lemma from_to_urlsafe: "(\<forall>c \<in> set s. c \<noteq> 45 \<and> c \<noteq> 95) \<Longrightarrow> from_urlsafe (to_urlsafe s) = s"
  by (induction s) (auto simp: from_urlsafe_def to_urlsafe_def)

lemma to_urlsafe_simps:
  "length (to_urlsafe s) = length s" "to_urlsafe (s @ t) = to_urlsafe s @ to_urlsafe t"
  "to_urlsafe (replicate k 61) = replicate k 61" "(61 \<in> set (to_urlsafe s)) = (61 \<in> set s)"
  by (auto simp: to_urlsafe_def image_iff)

lemma from_urlsafe_append: "from_urlsafe (s @ t) = from_urlsafe s @ from_urlsafe t"
  by (simp add: from_urlsafe_def)

lemma padding_cong: "length s = length t \<Longrightarrow> padding s = padding t"
  by (simp add: padding_def)

lemma from_urlsafe_padding: "from_urlsafe (padding s) = padding s"
  by (simp add: from_urlsafe_def padding_def)

text \<open>Unpadded URL-safe text is read back by padding it and decoding strictly.\<close>

lemma urlsafe_roundtrip:
  assumes "s = rstrip_pad (to_urlsafe (b64_encode bs))"
  shows "b64_decode (from_urlsafe (s @ padding s)) = Some bs"
    and "\<forall>c \<in> set s. c < 128"
proof -
  obtain k where k: "b64_encode bs = b64_unpadded bs @ replicate k 61"
    using b64_encode_unpadded by blast
  have s: "s = to_urlsafe (b64_unpadded bs)"
    using assms b64_unpadded_clean [of bs]
    by (simp add: k to_urlsafe_simps rstrip_pad_append)
  have "padding s = padding (b64_unpadded bs)"
    by (rule padding_cong) (simp add: s to_urlsafe_simps)
  moreover have "from_urlsafe s = b64_unpadded bs"
    unfolding s by (rule from_to_urlsafe) (use b64_encode_chars [of _ bs] k in auto)
  ultimately show "b64_decode (from_urlsafe (s @ padding s)) = Some bs"
    by (simp add: from_urlsafe_append from_urlsafe_padding padding_restores)
  have "\<forall>c \<in> set (b64_unpadded bs). c < 123" using b64_encode_chars [of _ bs] k by auto
  then show "\<forall>c \<in> set s. c < 128" by (auto simp: s to_urlsafe_def dest: bspec)
qed

end
