(* ===== verification/Identifiers.thy ===== *)
theory Identifiers
  imports Sha256 Base64 Errors
begin

text \<open>
  \<^verbatim>\<open>robolake/domain/identifiers.py\<close> and \<^verbatim>\<open>robolake/domain/constants.py\<close>: the validated
  dataset name, dataset reference, relative path and SHA-256 digest, the object key of a blob,
  and the two identifiers every request carries: UUIDs and the length-delimited request
  fingerprint of \<^verbatim>\<open>robolake/application/idempotency.py\<close>.
\<close>

section \<open>The Unicode database\<close>

text \<open>
  What the code asks of Python's Unicode tables: NFC normalisation, case folding, whether a
  character is alphabetic, the decimal value of a digit. Theorems hold for every such table;
  \<open>unicode_laws\<close> states the documented facts some of them need: normalisation is idempotent
  and leaves ASCII alone, and the ASCII digits have their values.
\<close>

record unicode =
  nfc :: "ustr \<Rightarrow> ustr"
  casefold :: "ustr \<Rightarrow> ustr"
  is_alpha :: "codepoint \<Rightarrow> bool"
  decimal_value :: "codepoint \<Rightarrow> nat option"

definition unicode_laws :: "unicode \<Rightarrow> bool" where
  "unicode_laws U \<longleftrightarrow>
     (\<forall>s. nfc U (nfc U s) = nfc U s)
     \<and> (\<forall>s. (\<forall>c \<in> set s. c < 128) \<longrightarrow> nfc U s = s)
     \<and> (\<forall>c. is_digit c \<longrightarrow> decimal_value U c = Some (c - 48))"

text \<open>The restriction of the tables to ASCII, for the concrete examples.\<close>

definition ascii_lower :: "codepoint \<Rightarrow> codepoint" where
  "ascii_lower c = (if 65 \<le> c \<and> c \<le> 90 then c + 32 else c)"

definition ascii_unicode :: unicode where
  "ascii_unicode =
     \<lparr>nfc = (\<lambda>s. s), casefold = map ascii_lower,
      is_alpha = (\<lambda>c. 65 \<le> c \<and> c \<le> 90 \<or> 97 \<le> c \<and> c \<le> 122),
      decimal_value = (\<lambda>c. if is_digit c then Some (c - 48) else None)\<rparr>"

lemma ascii_unicode_laws [simp]: "unicode_laws ascii_unicode"
  by (simp add: unicode_laws_def ascii_unicode_def)

section \<open>Protocol limits\<close>

definition MAX_DATASET_NAME_BYTES :: nat where "MAX_DATASET_NAME_BYTES = 255"
definition MAX_MANIFEST_BYTES :: nat where "MAX_MANIFEST_BYTES = 64 * 1024 * 1024"
definition MAX_MANIFEST_ENTRIES :: nat where "MAX_MANIFEST_ENTRIES = 100000"
definition MAX_PATH_SEGMENT_BYTES :: nat where "MAX_PATH_SEGMENT_BYTES = 255"
definition MAX_RELATIVE_PATH_BYTES :: nat where "MAX_RELATIVE_PATH_BYTES = 1024"
definition BASE_PART_BYTES :: int where "BASE_PART_BYTES = 64 * 1024 * 1024"
definition MAX_PART_BYTES :: int where "MAX_PART_BYTES = 5 * 1024 * 1024 * 1024"
definition MAX_PARTS :: int where "MAX_PARTS = 10000"
definition MAX_MULTIPART_BLOB_BYTES :: int where "MAX_MULTIPART_BLOB_BYTES = 5000000000000"
definition PART_PLAN_SCHEMA_VERSION :: int where "PART_PLAN_SCHEMA_VERSION = 1"
definition MAX_SINGLE_PUT_BYTES :: int where "MAX_SINGLE_PUT_BYTES = 5000000000"

lemmas limit_defs = MAX_DATASET_NAME_BYTES_def MAX_MANIFEST_BYTES_def MAX_MANIFEST_ENTRIES_def
  MAX_PATH_SEGMENT_BYTES_def MAX_RELATIVE_PATH_BYTES_def BASE_PART_BYTES_def MAX_PART_BYTES_def
  MAX_PARTS_def MAX_MULTIPART_BLOB_BYTES_def PART_PLAN_SCHEMA_VERSION_def MAX_SINGLE_PUT_BYTES_def

section \<open>Dataset names and references\<close>

datatype dataset_name = DatasetName (dn_value: ustr)

definition dot_segments :: "ustr list" where
  "dot_segments = [lit ''.'', lit ''..'']"

definition bad_segment :: "ustr \<Rightarrow> bool" where
  "bad_segment s \<longleftrightarrow> s = [] \<or> s \<in> set dot_segments"

definition bad_char :: "codepoint \<Rightarrow> bool" where
  "bad_char c \<longleftrightarrow> is_Cc c \<or> is_Cs c"

definition mk_dataset_name :: "unicode \<Rightarrow> ustr \<Rightarrow> dataset_name res" where
  "mk_dataset_name U raw =
     (let normalized = nfc U raw; segments = split_on 47 normalized
      in case utf8_encode normalized of
           None \<Rightarrow> Inl InvalidDatasetName
         | Some encoded \<Rightarrow>
             (if normalized = []
                 \<or> MAX_DATASET_NAME_BYTES < length encoded
                 \<or> starts_with (lit ''/'') normalized
                 \<or> ends_with (lit ''/'') normalized
                 \<or> 64 \<in> set normalized
                 \<or> (\<exists>s \<in> set segments. bad_segment s)
                 \<or> (\<exists>c \<in> set normalized. bad_char c)
              then Inl InvalidDatasetName
              else Inr (DatasetName normalized)))"

record dataset_reference =
  dr_dataset :: dataset_name
  dr_version_number :: int

definition reference_str :: "dataset_reference \<Rightarrow> ustr" where
  "reference_str r = dn_value (dr_dataset r) @ lit ''@v'' @ int_str (dr_version_number r)"

text \<open>\<^verbatim>\<open>s.isdecimal()\<close> and \<^verbatim>\<open>int(s)\<close> of such a string.\<close>

definition is_decimal :: "unicode \<Rightarrow> ustr \<Rightarrow> bool" where
  "is_decimal U s \<longleftrightarrow> s \<noteq> [] \<and> (\<forall>c \<in> set s. decimal_value U c \<noteq> None)"

definition decimal_int :: "unicode \<Rightarrow> ustr \<Rightarrow> int res" where
  "decimal_int U s =
     (if 4300 < length s then Inl PyValueError
      else Inr (int (foldl (\<lambda>a c. a * 10 + (case decimal_value U c of Some d \<Rightarrow> d | None \<Rightarrow> 0)) 0 s)))"

definition parse_reference :: "unicode \<Rightarrow> ustr \<Rightarrow> dataset_reference res" where
  "parse_reference U raw =
     (case rpartition (lit ''@v'') raw of
        None \<Rightarrow> Inl InvalidDatasetReference
      | Some (name, number) \<Rightarrow>
          (if \<not> is_decimal U number then Inl InvalidDatasetReference
           else res_bind (decimal_int U number) (\<lambda>n.
             (if n < 1 then Inl InvalidDatasetReference
              else res_bind (mk_dataset_name U name) (\<lambda>d.
                Inr \<lparr>dr_dataset = d, dr_version_number = n\<rparr>)))))"

section \<open>Relative paths\<close>

datatype relative_path = RelativePath (rp_value: ustr)

definition drive_qualified :: "unicode \<Rightarrow> ustr list \<Rightarrow> bool" where
  "drive_qualified U segments \<longleftrightarrow>
     segments \<noteq> [] \<and> length (hd segments) = 2 \<and> is_alpha U (hd segments ! 0)
       \<and> hd segments ! 1 = 58"

definition mk_relative_path :: "unicode \<Rightarrow> ustr \<Rightarrow> relative_path res" where
  "mk_relative_path U raw =
     (let normalized = nfc U raw; segments = split_on 47 normalized
      in case (utf8_encode normalized, opt_map utf8_encode segments) of
           (Some encoded, Some encoded_segments) \<Rightarrow>
             (if normalized = []
                 \<or> starts_with (lit ''/'') normalized
                 \<or> 92 \<in> set normalized
                 \<or> drive_qualified U segments
                 \<or> MAX_RELATIVE_PATH_BYTES < length encoded
                 \<or> (\<exists>s \<in> set segments. bad_segment s)
                 \<or> (\<exists>s \<in> set encoded_segments. MAX_PATH_SEGMENT_BYTES < length s)
                 \<or> (\<exists>c \<in> set normalized. bad_char c)
              then Inl UnsafePathError
              else Inr (RelativePath normalized))
         | _ \<Rightarrow> Inl UnsafePathError)"

section \<open>Digests and object keys\<close>

datatype sha256_digest = Sha256Digest (digest_value: ustr)

definition mk_digest :: "ustr \<Rightarrow> sha256_digest res" where
  "mk_digest v =
     (if length v \<noteq> 64 \<or> (\<exists>c \<in> set v. c \<notin> set (lit ''0123456789abcdef''))
      then Inl InvalidDigestError
      else Inr (Sha256Digest v))"

definition digest_raw :: "sha256_digest \<Rightarrow> bytes" where
  "digest_raw d = the (hex_decode (digest_value d))"

definition checksum_base64 :: "sha256_digest \<Rightarrow> ustr" where
  "checksum_base64 d = b64_encode (digest_raw d)"

definition object_key_for :: "sha256_digest \<Rightarrow> ustr" where
  "object_key_for d =
     lit ''blobs/sha256/'' @ take 2 (digest_value d) @ lit ''/''
       @ take 2 (drop 2 (digest_value d)) @ lit ''/'' @ digest_value d"

definition wf_digest :: "sha256_digest \<Rightarrow> bool" where
  "wf_digest d = (mk_digest (digest_value d) = Inr d)"

lemma hex_chars: "c \<in> set (lit ''0123456789abcdef'') \<longleftrightarrow> hex_val c \<noteq> None"
  by (simp add: hex_val_def) presburger

lemma wf_digest_iff:
  "wf_digest d \<longleftrightarrow> length (digest_value d) = 64 \<and> (\<forall>c \<in> set (digest_value d). hex_val c \<noteq> None)"
  unfolding wf_digest_def mk_digest_def hex_chars by (cases d) auto

lemma mk_digest_Inr: "mk_digest v = Inr d \<longleftrightarrow> d = Sha256Digest v \<and> wf_digest d"
  by (auto simp: wf_digest_def mk_digest_def)

lemma mk_digest_wf: "wf_digest d \<Longrightarrow> mk_digest (digest_value d) = Inr d"
  by (simp add: wf_digest_def)

lemma digest_hex:
  assumes "wf_digest d"
  shows "hex_decode (digest_value d) = Some (digest_raw d)"
    and "hex_encode (digest_raw d) = digest_value d"
    and "length (digest_raw d) = 32"
proof -
  from assms obtain bs where bs: "hex_decode (digest_value d) = Some bs"
    using hex_decode_Some [of "digest_value d"] by (auto simp: wf_digest_iff)
  then show "hex_decode (digest_value d) = Some (digest_raw d)" by (simp add: digest_raw_def)
  then show enc: "hex_encode (digest_raw d) = digest_value d" by (rule hex_encode_decode)
  have "length (hex_encode (digest_raw d)) = 64" using assms enc by (simp add: wf_digest_iff)
  then show "length (digest_raw d) = 32" by simp
qed

lemma digest_raw_inj:
  "wf_digest d \<Longrightarrow> wf_digest e \<Longrightarrow> digest_raw d = digest_raw e \<Longrightarrow> d = e"
  using digest_hex(2) by (metis sha256_digest.expand)

lemma hex_digest_wf: "length bs = 32 \<Longrightarrow> mk_digest (hex_encode bs) = Inr (Sha256Digest (hex_encode bs))"
  using hex_encode_chars [of _ bs]
  unfolding mk_digest_def hex_chars by auto

lemma digest_raw_hex [simp]: "digest_raw (Sha256Digest (hex_encode bs)) = bs"
  by (simp add: digest_raw_def)

definition content_digest :: "bytes \<Rightarrow> sha256_digest" where
  "content_digest m = Sha256Digest (sha256_hex m)"

lemma content_digest_wf [simp]: "wf_digest (content_digest m)"
  and mk_content_digest [simp]: "mk_digest (sha256_hex m) = Inr (content_digest m)"
  using hex_digest_wf [of "sha256 m"]
  by (simp_all add: wf_digest_def content_digest_def sha256_hex_def)

lemma object_key_inj: "object_key_for d = object_key_for e \<Longrightarrow> wf_digest d \<Longrightarrow> wf_digest e \<Longrightarrow> d = e"
proof -
  assume k: "object_key_for d = object_key_for e" and "wf_digest d" "wf_digest e"
  then have l: "length (digest_value d) = length (digest_value e)" by (simp add: wf_digest_iff)
  have "\<exists>p. object_key_for d = p @ digest_value d" for d
    by (intro exI [of _ "lit ''blobs/sha256/'' @ take 2 (digest_value d) @ lit ''/''
          @ take 2 (drop 2 (digest_value d)) @ lit ''/''"]) (simp add: object_key_for_def)
  then obtain p q where "p @ digest_value d = q @ digest_value e" using k by metis
  with l have "digest_value d = digest_value e" by simp
  then show "d = e" by (rule sha256_digest.expand)
qed

section \<open>Validated values are stable\<close>

definition wf_name :: "unicode \<Rightarrow> dataset_name \<Rightarrow> bool" where
  "wf_name U d = (mk_dataset_name U (dn_value d) = Inr d)"

definition wf_path :: "unicode \<Rightarrow> relative_path \<Rightarrow> bool" where
  "wf_path U p = (mk_relative_path U (rp_value p) = Inr p)"

lemma nfc_idem: "unicode_laws U \<Longrightarrow> nfc U (nfc U s) = nfc U s"
  by (simp add: unicode_laws_def)

lemma mk_dataset_name_wf:
  assumes "unicode_laws U" and "mk_dataset_name U raw = Inr d"
  shows "wf_name U d" and "dn_value d = nfc U raw"
proof -
  show v: "dn_value d = nfc U raw"
    using assms(2) by (auto simp: mk_dataset_name_def Let_def split: option.splits if_splits)
  show "wf_name U d"
    using assms(2) unfolding wf_name_def v
    by (simp add: mk_dataset_name_def Let_def nfc_idem [OF assms(1)])
qed

lemma mk_relative_path_wf:
  assumes "unicode_laws U" and "mk_relative_path U raw = Inr p"
  shows "wf_path U p" and "rp_value p = nfc U raw"
proof -
  show v: "rp_value p = nfc U raw"
    using assms(2) by (auto simp: mk_relative_path_def Let_def split: option.splits if_splits)
  show "wf_path U p"
    using assms(2) unfolding wf_path_def v
    by (simp add: mk_relative_path_def Let_def nfc_idem [OF assms(1)])
qed

lemma wf_name_facts:
  assumes "wf_name U d"
  shows "64 \<notin> set (dn_value d)" and "dn_value d \<noteq> []"
proof -
  have "nfc U (dn_value d) = dn_value d"
    using assms by (cases d)
      (auto simp: wf_name_def mk_dataset_name_def Let_def split: option.splits if_splits)
  then show "64 \<notin> set (dn_value d)" and "dn_value d \<noteq> []"
    using assms
    by (auto simp: wf_name_def mk_dataset_name_def Let_def split: option.splits if_splits)
qed

lemma wf_path_facts:
  assumes "wf_path U p"
  shows "nfc U (rp_value p) = rp_value p" and "\<exists>bs. utf8_encode (rp_value p) = Some bs"
    and "rp_value p \<noteq> []" and "92 \<notin> set (rp_value p)"
    and "\<forall>s \<in> set (split_on 47 (rp_value p)). \<not> bad_segment s"
    and "\<forall>c \<in> set (rp_value p). \<not> bad_char c"
proof -
  show n: "nfc U (rp_value p) = rp_value p"
    using assms by (cases p)
      (auto simp: wf_path_def mk_relative_path_def Let_def split: option.splits if_splits)
  show "\<exists>bs. utf8_encode (rp_value p) = Some bs" "rp_value p \<noteq> []" "92 \<notin> set (rp_value p)"
    "\<forall>s \<in> set (split_on 47 (rp_value p)). \<not> bad_segment s"
    "\<forall>c \<in> set (rp_value p). \<not> bad_char c"
    using assms unfolding wf_path_def mk_relative_path_def Let_def n
    by (auto split: option.splits if_splits)
qed

lemma decimal_nat_str:
  assumes "unicode_laws U"
  shows "is_decimal U (nat_str n)"
    and "length (nat_str n) \<le> 4300 \<Longrightarrow> decimal_int U (nat_str n) = Inr (int n)"
proof -
  have d: "decimal_value U c = Some (c - 48)" if "c \<in> set (nat_str n)" for c
    using assms nat_str_digits [OF that] by (simp add: unicode_laws_def)
  then show "is_decimal U (nat_str n)" by (simp add: is_decimal_def)
  have "foldl (\<lambda>a c. a * 10 + (case decimal_value U c of Some d \<Rightarrow> d | None \<Rightarrow> 0)) a cs
      = foldl (\<lambda>a c. a * 10 + (c - 48)) a cs" if "set cs \<subseteq> set (nat_str n)" for cs a
    using that d by (induction cs arbitrary: a) auto
  from this [of "nat_str n" 0] have
    "foldl (\<lambda>a c. a * 10 + (case decimal_value U c of Some d \<Rightarrow> d | None \<Rightarrow> 0)) 0 (nat_str n) = n"
    using digits_val_nat_str [of n] by (simp add: digits_val_def)
  then show "length (nat_str n) \<le> 4300 \<Longrightarrow> decimal_int U (nat_str n) = Inr (int n)"
    by (simp add: decimal_int_def)
qed

lemma rpartition_reference:
  "64 \<notin> set number \<Longrightarrow> rpartition (lit ''@v'') (name @ lit ''@v'' @ number) = Some (name, number)"
  using rpartition_append [of "lit ''@v''" 64 "[118]" number name] by simp

text \<open>
  A dataset reference survives printing and parsing: for a validated name and a positive
  version number of at most 4,300 digits, \<^verbatim>\<open>DatasetReference.parse(str(r))\<close> is \<^verbatim>\<open>r\<close>.
\<close>

theorem reference_roundtrip:
  assumes "unicode_laws U" and "wf_name U (dr_dataset r)" and "1 \<le> dr_version_number r"
    and "length (nat_str (nat (dr_version_number r))) \<le> 4300"
  shows "parse_reference U (reference_str r) = Inr r"
proof -
  let ?n = "nat (dr_version_number r)"
  have "reference_str r = dn_value (dr_dataset r) @ lit ''@v'' @ nat_str ?n"
    using assms(3) by (simp add: reference_str_def int_str_def)
  moreover have "64 \<notin> set (nat_str ?n)" using nat_str_digits [of 64 ?n] by (auto simp: is_digit_def)
  ultimately have "rpartition (lit ''@v'') (reference_str r) = Some (dn_value (dr_dataset r), nat_str ?n)"
    using rpartition_reference by metis
  then show ?thesis
    using assms decimal_nat_str [OF assms(1), of ?n]
    by (simp add: parse_reference_def wf_name_def)
qed

section \<open>UUIDs\<close>

type_synonym uuid = "128 word"

text \<open>\<^verbatim>\<open>u.bytes\<close>: the sixteen bytes, most significant first.\<close>

definition uuid_bytes :: "uuid \<Rightarrow> bytes" where
  "uuid_bytes u = map (\<lambda>i. ucast (drop_bit (8 * (15 - i)) u)) [0..<16]"

text \<open>\<^verbatim>\<open>str(u)\<close>.\<close>

definition uuid_str :: "uuid \<Rightarrow> ustr" where
  "uuid_str u =
     (let h = hex_encode (uuid_bytes u)
      in take 8 h @ 45 # take 4 (drop 8 h) @ 45 # take 4 (drop 12 h) @ 45 # take 4 (drop 16 h)
           @ 45 # drop 20 h)"

lemma uuid_bytes_length [simp]: "length (uuid_bytes u) = 16"
  by (simp add: uuid_bytes_def)

lemma uuid_bytes_nth: "i < 16 \<Longrightarrow> uuid_bytes u ! i = ucast (drop_bit (8 * (15 - i)) u)"
  by (simp add: uuid_bytes_def)

lemma uuid_bytes_inj: "uuid_bytes u = uuid_bytes v \<longleftrightarrow> u = v"
proof
  assume eq: "uuid_bytes u = uuid_bytes v"
  show "u = v"
  proof (rule bit_word_eqI)
    fix n assume "n < LENGTH(128)"
    then have n: "n div 8 < 16" "15 - (15 - n div 8) = n div 8" by auto
    have "bit (uuid_bytes x ! (15 - n div 8)) (n mod 8) = bit x n" for x
      using n by (simp add: uuid_bytes_nth bit_ucast_iff bit_drop_bit_eq)
    then show "bit u n = bit v n" using eq by metis
  qed
qed simp

lemma uuid_str_hex: "filter (\<lambda>c. c \<noteq> 45) (uuid_str u) = hex_encode (uuid_bytes u)"
proof -
  define h where "h = hex_encode (uuid_bytes u)"
  have "\<forall>c \<in> set h. c \<noteq> 45"
    using hex_encode_chars [of _ "uuid_bytes u"] by (force simp: h_def hex_val_def)
  then have keep: "filter (\<lambda>c. c \<noteq> 45) h = h" by (simp add: filter_id_conv)
  have split: "take n h @ drop n h = h" "take 4 (drop n h) @ drop (n + 4) h = drop n h" for n
    using append_take_drop_id [of 4 "drop n h"] by (simp_all add: add.commute)
  from split(2) [of 8] split(2) [of 12] split(2) [of 16]
  have "take 8 h @ take 4 (drop 8 h) @ take 4 (drop 12 h) @ take 4 (drop 16 h) @ drop 20 h = h"
    using split(1) [of 8] by simp
  then have "filter (\<lambda>c. c \<noteq> 45) (take 8 h @ take 4 (drop 8 h) @ take 4 (drop 12 h)
      @ take 4 (drop 16 h) @ drop 20 h) = h"
    using keep by (simp del: filter_append)
  then show ?thesis by (simp add: uuid_str_def Let_def h_def)
qed

lemma uuid_str_inj: "uuid_str u = uuid_str v \<longleftrightarrow> u = v"
  using uuid_str_hex [of u] uuid_str_hex [of v] by (metis hex_encode_inj uuid_bytes_inj)

end
