(* ===== verification/Idempotency.thy ===== *)
theory Idempotency
  imports Identifiers
begin

text \<open>
  \<^verbatim>\<open>robolake/application/idempotency.py\<close>: the request fingerprint, a SHA-256 over
  length-delimited fields, and the idempotency key of an operation. The framing lemma shows
  that the hashed message determines the fields.
\<close>

text \<open>\<^verbatim>\<open>len(field).to_bytes(8, "big")\<close>; no Python object has \<open>2 ^ 64\<close> bytes.\<close>

definition frame_field :: "bytes \<Rightarrow> bytes" where
  "frame_field f = be_bytes 8 (length f) @ f"

definition request_fingerprint :: "bytes list \<Rightarrow> sha256_digest" where
  "request_fingerprint fs = content_digest (concat (map frame_field fs))"

definition make_idempotency_key :: "string \<Rightarrow> bytes list \<Rightarrow> ustr" where
  "make_idempotency_key operation fs =
     lit ''robolake-m1:'' @ lit operation @ lit '':'' @ digest_value (request_fingerprint fs)"

lemma request_fingerprint_wf [simp]: "wf_digest (request_fingerprint fs)"
  by (simp add: request_fingerprint_def)

lemma frame_field_inj:
  assumes "length f < 2 ^ 64" and "length g < 2 ^ 64"
    and "frame_field f @ r = frame_field g @ t"
  shows "f = g \<and> r = t"
proof -
  have "be_bytes 8 (length f) @ f @ r = be_bytes 8 (length g) @ g @ t"
    using assms(3) by (simp add: frame_field_def)
  then have h: "be_bytes 8 (length f) = be_bytes 8 (length g)" and b: "f @ r = g @ t" by simp_all
  have "length f = length g" by (rule be_bytes_inj [OF _ _ h]) (use assms(1,2) in simp_all)
  with b show ?thesis by simp
qed

lemma frame_field_nonempty: "frame_field f \<noteq> []"
proof -
  have "length (frame_field f) = 8 + length f" by (simp add: frame_field_def)
  then show ?thesis by auto
qed

text \<open>
  C12: The message a request fingerprint hashes determines the fields: moving bytes between
  adjacent fields, or adding and dropping fields, always changes what is hashed.
\<close>

theorem fingerprint_framing_injective:
  assumes "\<forall>f \<in> set fs. length f < 2 ^ 64" and "\<forall>g \<in> set gs. length g < 2 ^ 64"
    and "concat (map frame_field fs) = concat (map frame_field gs)"
  shows "fs = gs"
  using assms
proof (induction fs arbitrary: gs)
  case Nil
  then show ?case using frame_field_nonempty by (cases gs) auto
next
  case (Cons f fs)
  obtain g gs' where gs: "gs = g # gs'"
    using Cons.prems(3) frame_field_nonempty [of f] by (cases gs) auto
  have "f = g \<and> concat (map frame_field fs) = concat (map frame_field gs')"
    using Cons.prems unfolding gs by (intro frame_field_inj) simp_all
  with Cons.IH [of gs'] Cons.prems gs show ?case by simp
qed

theorem fingerprint_framing_injective_witness:
  "concat (map frame_field [[1, 2], [3]]) \<noteq> concat (map frame_field [[1], [2, 3]])"
proof
  assume eq: "concat (map frame_field [[1, 2], [3]]) = concat (map frame_field [[1], [2, 3]])"
  have "[[1, 2], [3 :: byte]] = [[1], [2, 3]]"
    by (rule fingerprint_framing_injective [OF _ _ eq]) simp_all
  then show False by simp
qed

end
