(* ===== verification/Json.thy ===== *)
theory Json
  imports PyText Errors
begin

text \<open>
  Python's \<^verbatim>\<open>json\<close> module as the code uses it: \<^verbatim>\<open>json.dumps(ensure_ascii=False,
  separators=(",", ":"))\<close> and \<^verbatim>\<open>json.loads\<close>, with an \<^verbatim>\<open>object_pairs_hook\<close> or without.
  The reader follows the C scanner of Python 3.12, including what it accepts beyond JSON
  (\<^verbatim>\<open>NaN\<close>, \<^verbatim>\<open>Infinity\<close>, lone surrogate escapes) and the \<^verbatim>\<open>ValueError\<close> of an integer of more
  than 4,300 digits. The interpreter's limit on nesting depth is not modelled.
\<close>

section \<open>Values\<close>

text \<open>
  \<open>JFloat m e\<close> is the float read from the decimal \<open>m * 10 ^ e\<close>, \<open>JNonFinite\<close> one of
  \<^verbatim>\<open>NaN\<close>, \<^verbatim>\<open>Infinity\<close>, \<^verbatim>\<open>-Infinity\<close>; an object is a dict in insertion order.
\<close>

datatype json =
    JNull
  | JBool bool
  | JInt int
  | JFloat int int
  | JNonFinite
  | JStr ustr
  | JArr "json list"
  | JObj "(ustr \<times> json) list"

type_synonym pairs_hook = "(ustr \<times> json) list \<Rightarrow> json res"

text \<open>\<^verbatim>\<open>d[key] = value\<close> and \<^verbatim>\<open>dict(pairs)\<close>.\<close>

fun dict_set :: "ustr \<Rightarrow> 'v \<Rightarrow> (ustr \<times> 'v) list \<Rightarrow> (ustr \<times> 'v) list" where
  "dict_set k v [] = [(k, v)]"
| "dict_set k v ((k', v') # d) = (if k' = k then (k, v) # d else (k', v') # dict_set k v d)"

definition dict_of :: "(ustr \<times> 'v) list \<Rightarrow> (ustr \<times> 'v) list" where
  "dict_of ps = fold (\<lambda>(k, v) d. dict_set k v d) ps []"

text \<open>Without a hook an object is a dict.\<close>

definition plain_hook :: pairs_hook where
  "plain_hook ps = Inr (JObj (dict_of ps))"

text \<open>\<^verbatim>\<open>set(d) == {...}\<close> and \<^verbatim>\<open>d[key]\<close> of a key that is there.\<close>

definition has_keys :: "string list \<Rightarrow> (ustr \<times> json) list \<Rightarrow> bool" where
  "has_keys ks d \<longleftrightarrow> set (map fst d) = set (map lit ks)"

definition field :: "string \<Rightarrow> (ustr \<times> json) list \<Rightarrow> json" where
  "field k d = (case map_of d (lit k) of Some v \<Rightarrow> v | None \<Rightarrow> JNull)"

section \<open>Writing\<close>

definition esc_char :: "codepoint \<Rightarrow> ustr" where
  "esc_char c =
     (if c = 34 then [92, 34] else if c = 92 then [92, 92]
      else if c = 10 then [92, 110] else if c = 13 then [92, 114] else if c = 9 then [92, 116]
      else if c = 12 then [92, 102] else if c = 8 then [92, 98]
      else if c < 32 then [92, 117, 48, 48, hex_char (c div 16), hex_char (c mod 16)]
      else [c])"

definition dumps_str :: "ustr \<Rightarrow> ustr" where
  "dumps_str s = 34 # concat (map esc_char s) @ [34]"

text \<open>The code writes no floats; \<open>dumps\<close> says nothing about them.\<close>

fun dumps :: "json \<Rightarrow> ustr"
  and dumps_items :: "json list \<Rightarrow> ustr"
  and dumps_members :: "(ustr \<times> json) list \<Rightarrow> ustr" where
  "dumps JNull = lit ''null''"
| "dumps (JBool b) = (if b then lit ''true'' else lit ''false'')"
| "dumps (JInt i) = int_str i"
| "dumps (JStr s) = dumps_str s"
| "dumps (JArr vs) = 91 # dumps_items vs @ [93]"
| "dumps (JObj ms) = 123 # dumps_members ms @ [125]"
| "dumps_items [] = []"
| "dumps_items [v] = dumps v"
| "dumps_items (v # w # vs) = dumps v @ 44 # dumps_items (w # vs)"
| "dumps_members [] = []"
| "dumps_members [(k, v)] = dumps_str k @ 58 # dumps v"
| "dumps_members ((k, v) # m # ms) = dumps_str k @ 58 # dumps v @ 44 # dumps_members (m # ms)"

section \<open>Reading\<close>

definition skip_ws :: "ustr \<Rightarrow> ustr" where
  "skip_ws s = dropWhile (\<lambda>c. c = 32 \<or> c = 9 \<or> c = 10 \<or> c = 13) s"

definition hex_digit :: "codepoint \<Rightarrow> nat option" where
  "hex_digit c = (if 65 \<le> c \<and> c \<le> 70 then Some (c - 55) else hex_val c)"

text \<open>Four hexadecimal digits at the front of the text.\<close>

definition hex4 :: "ustr \<Rightarrow> nat option" where
  "hex4 s =
     (if length s < 4 then None
      else map_option (foldl (\<lambda>a d. a * 16 + d) 0) (opt_map hex_digit (take 4 s)))"

definition high_surrogate :: "nat \<Rightarrow> bool" where
  "high_surrogate c \<longleftrightarrow> 0xD800 \<le> c \<and> c \<le> 0xDBFF"

definition low_surrogate :: "nat \<Rightarrow> bool" where
  "low_surrogate c \<longleftrightarrow> 0xDC00 \<le> c \<and> c \<le> 0xDFFF"

text \<open>The escape of a low surrogate at the front of the text.\<close>

definition low_escape :: "ustr \<Rightarrow> nat option" where
  "low_escape s =
     (if take 2 s = [92, 117]
      then (case hex4 (drop 2 s) of
              Some l \<Rightarrow> (if low_surrogate l then Some l else None) | None \<Rightarrow> None)
      else None)"

definition simple_escape :: "codepoint \<Rightarrow> codepoint option" where
  "simple_escape c =
     (if c = 34 then Some 34 else if c = 92 then Some 92 else if c = 47 then Some 47
      else if c = 98 then Some 8 else if c = 102 then Some 12 else if c = 110 then Some 10
      else if c = 114 then Some 13 else if c = 116 then Some 9 else None)"

definition push_char :: "codepoint \<Rightarrow> (ustr \<times> ustr) res \<Rightarrow> (ustr \<times> ustr) res" where
  "push_char c m = (case m of Inl e \<Rightarrow> Inl e | Inr (s, r) \<Rightarrow> Inr (c # s, r))"

text \<open>\<^verbatim>\<open>scanstring\<close> in strict mode, begun behind the opening quote.\<close>

fun scan_string :: "ustr \<Rightarrow> (ustr \<times> ustr) res" where
  "scan_string [] = Inl PyJSONDecodeError"
| "scan_string (c # s) =
     (if c = 34 then Inr ([], s)
      else if c = 92 then
        (case s of
           [] \<Rightarrow> Inl PyJSONDecodeError
         | e # r \<Rightarrow>
             (if e = 117 then
                (case hex4 r of
                   None \<Rightarrow> Inl PyJSONDecodeError
                 | Some u \<Rightarrow>
                     (if high_surrogate u \<and> low_escape (drop 4 r) \<noteq> None
                      then push_char
                             (0x10000 + (u - 0xD800) * 1024 + (the (low_escape (drop 4 r)) - 0xDC00))
                             (scan_string (drop 10 r))
                      else push_char u (scan_string (drop 4 r))))
              else
                (case simple_escape e of
                   None \<Rightarrow> Inl PyJSONDecodeError
                 | Some x \<Rightarrow> push_char x (scan_string r))))
      else if c < 32 then Inl PyJSONDecodeError
      else push_char c (scan_string s))"

text \<open>\<^verbatim>\<open>int(digits)\<close> refuses more than 4,300 digits.\<close>

definition max_int_digits :: nat where
  "max_int_digits = 4300"

text \<open>The fraction: a point followed by digits. The exponent: \<^verbatim>\<open>e\<close>, a sign, digits.\<close>

definition scan_fraction :: "ustr \<Rightarrow> ustr \<times> ustr" where
  "scan_fraction s =
     (case s of
        p # d # r \<Rightarrow>
          (if p = 46 \<and> is_digit d then (takeWhile is_digit (d # r), dropWhile is_digit (d # r))
           else ([], s))
      | _ \<Rightarrow> ([], s))"

definition scan_exponent :: "ustr \<Rightarrow> int option \<times> ustr" where
  "scan_exponent s =
     (case s of
        [] \<Rightarrow> (None, s)
      | e # r \<Rightarrow>
          (if e = 101 \<or> e = 69 then
             (let r' = (case r of [] \<Rightarrow> [] | g # t \<Rightarrow> (if g = 43 \<or> g = 45 then t else r));
                  neg = (r \<noteq> [] \<and> hd r = 45);
                  ds = takeWhile is_digit r'
              in if ds = [] then (None, s)
                 else (Some (if neg then - int (digits_val ds) else int (digits_val ds)),
                       dropWhile is_digit r'))
           else (None, s)))"

definition number_of :: "bool \<Rightarrow> ustr \<Rightarrow> ustr \<Rightarrow> (json \<times> ustr) res" where
  "number_of neg digits rest =
     (let (frac, r1) = scan_fraction rest; (expo, r2) = scan_exponent r1;
          sgn = (if neg then - 1 else 1)
      in if frac = [] \<and> expo = None then
           (if max_int_digits < length digits then Inl PyValueError
            else Inr (JInt (sgn * int (digits_val digits)), r2))
         else
           Inr (JFloat (sgn * int (digits_val (digits @ frac)))
                  ((case expo of None \<Rightarrow> 0 | Some x \<Rightarrow> x) - int (length frac)), r2))"

definition scan_number :: "ustr \<Rightarrow> (json \<times> ustr) res" where
  "scan_number s =
     (let neg = (s \<noteq> [] \<and> hd s = 45); s1 = (if neg then tl s else s)
      in case s1 of
           [] \<Rightarrow> Inl PyJSONDecodeError
         | c # r \<Rightarrow>
             (if c = 48 then number_of neg [48] r
              else if 49 \<le> c \<and> c \<le> 57
              then number_of neg (c # takeWhile is_digit r) (dropWhile is_digit r)
              else Inl PyJSONDecodeError))"

text \<open>
  The scanner proper takes fuel; \<open>None\<close> is running out of it, which twice the length of the
  text excludes (\<open>scan_total\<close>).
\<close>

definition fbind :: "'a res option \<Rightarrow> ('a \<Rightarrow> 'b res option) \<Rightarrow> 'b res option" where
  "fbind m f = (case m of None \<Rightarrow> None | Some (Inl e) \<Rightarrow> Some (Inl e) | Some (Inr x) \<Rightarrow> f x)"

lemma fbind_simps [simp]:
  "fbind None f = None"
  "fbind (Some (Inl e)) f = Some (Inl e)"
  "fbind (Some (Inr x)) f = f x"
  by (simp_all add: fbind_def)

abbreviation "json_error \<equiv> Some (Inl PyJSONDecodeError)"

fun scan_value :: "pairs_hook \<Rightarrow> nat \<Rightarrow> ustr \<Rightarrow> (json \<times> ustr) res option"
  and scan_items :: "pairs_hook \<Rightarrow> nat \<Rightarrow> ustr \<Rightarrow> (json list \<times> ustr) res option"
  and scan_members :: "pairs_hook \<Rightarrow> nat \<Rightarrow> ustr \<Rightarrow> ((ustr \<times> json) list \<times> ustr) res option" where
  "scan_value h 0 s = None"
| "scan_value h (Suc n) s =
     (case s of
        [] \<Rightarrow> json_error
      | c # r \<Rightarrow>
          (if c = 34 then
             Some (case scan_string r of Inl e \<Rightarrow> Inl e | Inr (t, r') \<Rightarrow> Inr (JStr t, r'))
           else if c = 123 then
             (if skip_ws r \<noteq> [] \<and> hd (skip_ws r) = 125
              then Some (res_bind (h []) (\<lambda>v. Inr (v, tl (skip_ws r))))
              else fbind (scan_members h n (skip_ws r))
                     (\<lambda>(ms, r'). Some (res_bind (h ms) (\<lambda>v. Inr (v, r')))))
           else if c = 91 then
             (if skip_ws r \<noteq> [] \<and> hd (skip_ws r) = 93
              then Some (Inr (JArr [], tl (skip_ws r)))
              else fbind (scan_items h n (skip_ws r)) (\<lambda>(vs, r'). Some (Inr (JArr vs, r'))))
           else if starts_with (lit ''null'') s then Some (Inr (JNull, drop 4 s))
           else if starts_with (lit ''true'') s then Some (Inr (JBool True, drop 4 s))
           else if starts_with (lit ''false'') s then Some (Inr (JBool False, drop 5 s))
           else if starts_with (lit ''NaN'') s then Some (Inr (JNonFinite, drop 3 s))
           else if starts_with (lit ''Infinity'') s then Some (Inr (JNonFinite, drop 8 s))
           else if starts_with (lit ''-Infinity'') s then Some (Inr (JNonFinite, drop 9 s))
           else Some (scan_number s)))"
| "scan_items h 0 s = None"
| "scan_items h (Suc n) s =
     fbind (scan_value h n s) (\<lambda>(v, r).
       (case skip_ws r of
          [] \<Rightarrow> json_error
        | d # r1 \<Rightarrow>
            (if d = 93 then Some (Inr ([v], r1))
             else if d = 44 then
               fbind (scan_items h n (skip_ws r1)) (\<lambda>(vs, r2). Some (Inr (v # vs, r2)))
             else json_error)))"
| "scan_members h 0 s = None"
| "scan_members h (Suc n) s =
     (case s of
        [] \<Rightarrow> json_error
      | q # r \<Rightarrow>
          (if q \<noteq> 34 then json_error
           else fbind (Some (scan_string r)) (\<lambda>(k, r1).
             (case skip_ws r1 of
                [] \<Rightarrow> json_error
              | cl # r2 \<Rightarrow>
                  (if cl \<noteq> 58 then json_error
                   else fbind (scan_value h n (skip_ws r2)) (\<lambda>(v, r3).
                     (case skip_ws r3 of
                        [] \<Rightarrow> json_error
                      | d # r4 \<Rightarrow>
                          (if d = 125 then Some (Inr ([(k, v)], r4))
                           else if d = 44 then
                             fbind (scan_members h n (skip_ws r4))
                               (\<lambda>(ms, r5). Some (Inr ((k, v) # ms, r5)))
                           else json_error))))))))"

declare scan_value.simps(2) [simp del] scan_items.simps(2) [simp del] scan_members.simps(2) [simp del]

definition loads_fuel :: "pairs_hook \<Rightarrow> nat \<Rightarrow> ustr \<Rightarrow> json res option" where
  "loads_fuel h n s =
     (if s \<noteq> [] \<and> hd s = 0xFEFF then json_error
      else fbind (scan_value h n (skip_ws s)) (\<lambda>(v, r).
             (if skip_ws r = [] then Some (Inr v) else json_error)))"

text \<open>\<^verbatim>\<open>json.loads(s, object_pairs_hook=h)\<close>.\<close>

definition loads :: "pairs_hook \<Rightarrow> ustr \<Rightarrow> json res" where
  "loads h s =
     (case loads_fuel h (2 * length s + 2) s of
        Some m \<Rightarrow> m
      | None \<Rightarrow> Inl PyJSONDecodeError)"

section \<open>The reader is total\<close>

lemma skip_ws_length: "length (skip_ws s) \<le> length s"
  by (simp add: skip_ws_def length_dropWhile_le)

lemma push_char_Inr: "push_char c m = Inr (t, r) \<longleftrightarrow> (\<exists>t'. m = Inr (t', r) \<and> t = c # t')"
  by (auto simp: push_char_def split: sum.splits)

lemma scan_string_shorter: "scan_string s = Inr (t, r) \<Longrightarrow> length r < length s"
proof (induction s arbitrary: t rule: length_induct)
  case (1 s)
  have step: "length u < length s \<Longrightarrow> scan_string u = Inr (t', r) \<Longrightarrow> length r < length s" for u t'
    using 1(1) by fastforce
  show ?case
    using 1(2)
    by (cases s)
       (auto split: if_splits list.splits option.splits simp: push_char_Inr dest!: step [rotated])
qed

lemma dropWhile_shorter: "length (dropWhile p s) \<le> length s"
  by (rule length_dropWhile_le)

lemma scan_fraction_length: "length (snd (scan_fraction s)) \<le> length s"
  by (auto simp: scan_fraction_def split: list.splits intro: le_SucI length_dropWhile_le)

lemma scan_exponent_length: "length (snd (scan_exponent s)) \<le> length s"
  by (auto simp: scan_exponent_def Let_def split: list.splits
      intro: le_SucI order_trans [OF length_dropWhile_le])

lemma number_of_length: "number_of neg ds s = Inr (v, r) \<Longrightarrow> length r \<le> length s"
  using scan_fraction_length [of s] scan_exponent_length [of "snd (scan_fraction s)"]
  by (auto simp: number_of_def Let_def split: prod.splits if_splits)

lemma scan_number_shorter: "scan_number s = Inr (v, r) \<Longrightarrow> length r < length s"
  by (cases s)
    (auto simp: scan_number_def Let_def split: if_splits list.splits dest!: number_of_length
      intro: le_imp_less_Suc order_trans [OF _ length_dropWhile_le] less_SucI)


text \<open>\<open>shorter s m\<close>: an answer, and a success leaves less than \<open>s\<close>.\<close>

definition shorter :: "ustr \<Rightarrow> ('v \<times> ustr) res option \<Rightarrow> bool" where
  "shorter s m = (\<exists>x. m = Some x \<and> (\<forall>v r. x = Inr (v, r) \<longrightarrow> length r < length s))"

lemma shorter_error [simp]: "shorter s (Some (Inl e))"
  by (simp add: shorter_def)

lemma shorter_value [simp]: "shorter s (Some (Inr (v, r))) \<longleftrightarrow> length r < length s"
  by (simp add: shorter_def)

lemma shorter_if: "shorter s x \<Longrightarrow> shorter s y \<Longrightarrow> shorter s (if b then x else y)"
  by simp

lemma shorter_fbind:
  assumes "shorter s m" and "\<And>v r. length r < length s \<Longrightarrow> shorter t (f (v, r))"
  shows "shorter t (fbind m f)"
  using assms by (auto simp: shorter_def fbind_def split: option.splits sum.splits)

lemma skip_ws_le: "length r < n \<Longrightarrow> length (skip_ws r) < n"
  using skip_ws_length [of r] by linarith

lemma skip_ws_Cons: "skip_ws r = c # r' \<Longrightarrow> length r' < length r"
  using skip_ws_length [of r] by simp

lemma scan_value_step:
  assumes items: "\<And>s. 2 * length s + 2 \<le> n \<Longrightarrow> shorter s (scan_items h n s)"
    and members: "\<And>s. 2 * length s + 2 \<le> n \<Longrightarrow> shorter s (scan_members h n s)"
    and fuel: "2 * length s + 1 \<le> Suc n"
  shows "shorter s (scan_value h (Suc n) s)"
proof (cases s)
  case (Cons c r)
  have len: "2 * length (skip_ws r) + 2 \<le> n" using fuel Cons skip_ws_length [of r] by simp
  have le: "length (skip_ws r) \<le> length r" by (rule skip_ws_length)
  have "shorter s (fbind (scan_items h n (skip_ws r)) (\<lambda>(vs, r'). Some (Inr (JArr vs, r'))))"
    by (rule shorter_fbind [OF items [OF len]]) (use le Cons in simp)
  moreover have "shorter s (fbind (scan_members h n (skip_ws r))
      (\<lambda>(ms, r'). Some (res_bind (h ms) (\<lambda>v. Inr (v, r')))))"
    by (rule shorter_fbind [OF members [OF len]])
       (use le Cons in \<open>auto simp: shorter_def res_bind_eq_Inr\<close>)
  moreover have "shorter s (Some (case scan_string r of Inl e \<Rightarrow> Inl e | Inr (t, r') \<Rightarrow> Inr (JStr t, r')))"
    using Cons by (auto simp: shorter_def split: sum.splits dest: scan_string_shorter)
  moreover have "shorter s (Some (scan_number s))"
    by (auto simp: shorter_def dest: scan_number_shorter)
  moreover have "shorter s (Some (res_bind (h []) (\<lambda>v. Inr (v, tl (skip_ws r)))))"
    using Cons le by (auto simp: shorter_def res_bind_eq_Inr)
  moreover have "shorter s (Some (Inr (JArr [], tl (skip_ws r))))"
    using Cons le by simp
  moreover have "shorter s (Some (Inr (x, drop (Suc k) s)))" for x :: json and k
    using Cons by simp
  ultimately show ?thesis
    unfolding scan_value.simps(2) Cons list.case
    by (intro shorter_if) (simp_all add: numeral_eq_Suc)
qed (simp add: scan_value.simps(2))

lemma scan_items_step:
  assumes val: "\<And>s. 2 * length s + 1 \<le> n \<Longrightarrow> shorter s (scan_value h n s)"
    and items: "\<And>s. 2 * length s + 2 \<le> n \<Longrightarrow> shorter s (scan_items h n s)"
    and fuel: "2 * length s + 2 \<le> Suc n"
  shows "shorter s (scan_items h (Suc n) s)"
  unfolding scan_items.simps(2)
proof (rule shorter_fbind [OF val])
  show "2 * length s + 1 \<le> n" using fuel by simp
next
  fix v :: json and r :: ustr assume r: "length r < length s"
  have "shorter s (fbind (scan_items h n (skip_ws r1)) (\<lambda>(vs, r2). Some (Inr (v # vs, r2))))"
    if "skip_ws r = d # r1" for d r1
    using fuel r skip_ws_Cons [OF that] skip_ws_length [of r1]
    by (intro shorter_fbind [OF items]) (auto simp: skip_ws_le)
  moreover have "skip_ws r = d # r1 \<Longrightarrow> length r1 < length s" for d r1
    using r skip_ws_Cons by fastforce
  ultimately show "shorter s (case (v, r) of (v, r) \<Rightarrow> (case skip_ws r of
          [] \<Rightarrow> json_error
        | d # r1 \<Rightarrow>
            (if d = 93 then Some (Inr ([v], r1))
             else if d = 44 then
               fbind (scan_items h n (skip_ws r1)) (\<lambda>(vs, r2). Some (Inr (v # vs, r2)))
             else json_error)))"
    by (auto split: list.splits)
qed

lemma scan_members_step:
  assumes val: "\<And>s. 2 * length s + 1 \<le> n \<Longrightarrow> shorter s (scan_value h n s)"
    and members: "\<And>s. 2 * length s + 2 \<le> n \<Longrightarrow> shorter s (scan_members h n s)"
    and fuel: "2 * length s + 2 \<le> Suc n"
  shows "shorter s (scan_members h (Suc n) s)"
proof (cases s)
  case (Cons q r)
  have str: "shorter r (Some (scan_string r))"
    by (auto simp: shorter_def dest: scan_string_shorter)
  have tail: "shorter s (case skip_ws r3 of [] \<Rightarrow> json_error
      | d # r4 \<Rightarrow> (if d = 125 then Some (Inr ([(k, v)], r4))
                   else if d = 44 then
                     fbind (scan_members h n (skip_ws r4)) (\<lambda>(ms, r5). Some (Inr ((k, v) # ms, r5)))
                   else json_error))"
    if r3: "length r3 < length r" for k v r3
  proof -
    have "shorter s (fbind (scan_members h n (skip_ws r4)) (\<lambda>(ms, r5). Some (Inr ((k, v) # ms, r5))))"
      if "skip_ws r3 = d # r4" for d r4
      using fuel r3 Cons skip_ws_Cons [OF that] skip_ws_length [of r4]
      by (intro shorter_fbind [OF members]) auto
    moreover have "skip_ws r3 = d # r4 \<Longrightarrow> length r4 < length s" for d r4
      using r3 Cons skip_ws_Cons by fastforce
    ultimately show ?thesis by (auto split: list.splits)
  qed
  have mid: "shorter s (fbind (scan_value h n (skip_ws r2)) (\<lambda>(v, r3). case skip_ws r3 of
       [] \<Rightarrow> json_error
      | d # r4 \<Rightarrow> (if d = 125 then Some (Inr ([(k, v)], r4))
                   else if d = 44 then
                     fbind (scan_members h n (skip_ws r4)) (\<lambda>(ms, r5). Some (Inr ((k, v) # ms, r5)))
                   else json_error)))"
    if "length r2 < length r" for k r2
  proof (rule shorter_fbind [OF val])
    show "2 * length (skip_ws r2) + 1 \<le> n" using fuel Cons that skip_ws_length [of r2] by simp
    fix v :: json and r3 :: ustr assume "length r3 < length (skip_ws r2)"
    then have "length r3 < length r" using that skip_ws_length [of r2] by simp
    from tail [OF this] show "shorter s (case (v, r3) of (v, r3) \<Rightarrow> case skip_ws r3 of
       [] \<Rightarrow> json_error
      | d # r4 \<Rightarrow> (if d = 125 then Some (Inr ([(k, v)], r4))
                   else if d = 44 then
                     fbind (scan_members h n (skip_ws r4)) (\<lambda>(ms, r5). Some (Inr ((k, v) # ms, r5)))
                   else json_error))" by simp
  qed
  have "shorter s (fbind (Some (scan_string r)) (\<lambda>(k, r1).
             (case skip_ws r1 of
                [] \<Rightarrow> json_error
              | cl # r2 \<Rightarrow>
                  (if cl \<noteq> 58 then json_error
                   else fbind (scan_value h n (skip_ws r2)) (\<lambda>(v, r3).
                     (case skip_ws r3 of
                        [] \<Rightarrow> json_error
                      | d # r4 \<Rightarrow>
                          (if d = 125 then Some (Inr ([(k, v)], r4))
                           else if d = 44 then
                             fbind (scan_members h n (skip_ws r4))
                               (\<lambda>(ms, r5). Some (Inr ((k, v) # ms, r5)))
                           else json_error)))))))"
    by (rule shorter_fbind [OF str])
       (auto split: list.splits intro!: mid dest: skip_ws_Cons)
  then show ?thesis
    unfolding scan_members.simps(2) Cons list.case by (intro shorter_if) simp_all
qed (simp add: scan_members.simps(2))

lemma scan_total:
  "(\<forall>s. 2 * length s + 1 \<le> n \<longrightarrow> shorter s (scan_value h n s))
   \<and> (\<forall>s. 2 * length s + 2 \<le> n \<longrightarrow> shorter s (scan_items h n s))
   \<and> (\<forall>s. 2 * length s + 2 \<le> n \<longrightarrow> shorter s (scan_members h n s))"
proof (induction n)
  case (Suc n)
  then show ?case
    by (intro conjI allI impI scan_value_step scan_items_step scan_members_step) simp_all
qed simp

lemma loads_fuel_total: "2 * length s + 1 \<le> n \<Longrightarrow> \<exists>m. loads_fuel h n s = Some m"
proof -
  assume n: "2 * length s + 1 \<le> n"
  then have "2 * length (skip_ws s) + 1 \<le> n" using skip_ws_length [of s] by linarith
  with scan_total have "shorter (skip_ws s) (scan_value h n (skip_ws s))" by blast
  then show ?thesis
    by (auto simp: loads_fuel_def shorter_def fbind_def split: sum.splits)
qed

section \<open>Reading what was written\<close>

lemma hex_digit_char [simp]: "n < 16 \<Longrightarrow> hex_digit (hex_char n) = Some n"
  by (auto simp: hex_digit_def hex_val_def hex_char_def)

lemma hex_digit_zero [simp]: "hex_digit 48 = Some 0"
  by (simp add: hex_digit_def hex_val_def)

lemma hex4_escape:
  assumes "c < 256"
  shows "hex4 (48 # 48 # hex_char (c div 16) # hex_char (c mod 16) # r) = Some c"
proof -
  from assms have "c div 16 < 16" by linarith
  moreover have "c div 16 * 16 + c mod 16 = c" by simp
  ultimately show ?thesis by (simp add: hex4_def)
qed

lemma scan_string_escape: "scan_string (esc_char c @ r) = push_char c (scan_string r)"
proof (cases "c = 34 \<or> c = 92 \<or> c = 10 \<or> c = 13 \<or> c = 9 \<or> c = 12 \<or> c = 8 \<or> \<not> c < 32")
  case True
  then show ?thesis by (elim disjE) (simp_all add: esc_char_def simple_escape_def)
next
  case False
  then have e: "esc_char c = [92, 117, 48, 48, hex_char (c div 16), hex_char (c mod 16)]"
    by (simp add: esc_char_def)
  have "hex4 (48 # 48 # hex_char (c div 16) # hex_char (c mod 16) # r) = Some c"
    using False by (intro hex4_escape) simp
  moreover have "\<not> high_surrogate c" using False by (simp add: high_surrogate_def)
  ultimately show ?thesis unfolding e by simp
qed

lemma scan_string_dumps: "scan_string (concat (map esc_char s) @ 34 # r) = Inr (s, r)"
  by (induction s) (simp_all add: scan_string_escape push_char_def)

definition num_stop :: "ustr \<Rightarrow> bool" where
  "num_stop r = (r = [] \<or> \<not> is_digit (hd r) \<and> hd r \<noteq> 46 \<and> hd r \<noteq> 101 \<and> hd r \<noteq> 69)"

lemma span_digits:
  assumes "\<forall>c \<in> set ds. is_digit c" and "num_stop r"
  shows "takeWhile is_digit (ds @ r) = ds" and "dropWhile is_digit (ds @ r) = r"
  using assms by (induction ds; cases r; auto simp: num_stop_def)+

lemma number_of_stop:
  "num_stop r \<Longrightarrow> length ds \<le> max_int_digits \<Longrightarrow>
     number_of neg ds r = Inr (JInt ((if neg then - 1 else 1) * int (digits_val ds)), r)"
  by (cases r rule: list.exhaust; cases "tl r")
     (auto simp: number_of_def scan_fraction_def scan_exponent_def num_stop_def split: list.splits)

definition int_fits :: "int \<Rightarrow> bool" where
  "int_fits i = (length (nat_str (nat \<bar>i\<bar>)) \<le> max_int_digits)"

lemma nat_str_0_iff: "hd (nat_str n) = 48 \<longleftrightarrow> n = 0"
  using nat_str_hd [of n] by auto

lemma scan_nat:
  assumes "num_stop r" and "length (nat_str n) \<le> max_int_digits" and s: "s = nat_str n @ r"
  shows "(case s of [] \<Rightarrow> Inl PyJSONDecodeError
         | c # r \<Rightarrow>
             (if c = 48 then number_of neg [48] r
              else if 49 \<le> c \<and> c \<le> 57
              then number_of neg (c # takeWhile is_digit r) (dropWhile is_digit r)
              else Inl PyJSONDecodeError)) = Inr (JInt ((if neg then - 1 else 1) * int n), r)"
proof (cases "n = 0")
  case True
  then show ?thesis using assms number_of_stop [of r "[48]" neg]
    by (simp add: digits_val_def)
next
  case False
  obtain c ds where ds: "nat_str n = c # ds" by (cases "nat_str n") auto
  have dig: "\<forall>d \<in> set (c # ds). is_digit d" using nat_str_digits [of _ n] ds by auto
  moreover have "c \<noteq> 48" using False nat_str_0_iff [of n] ds by simp
  ultimately have "49 \<le> c \<and> c \<le> 57" by (auto simp: is_digit_def)
  moreover have "digits_val (c # ds) = n" using ds digits_val_nat_str by metis
  ultimately show ?thesis
    using assms dig span_digits [of ds r] number_of_stop [of r "c # ds" neg] ds by simp
qed

lemma scan_int:
  assumes "num_stop r" and "int_fits i"
  shows "scan_number (int_str i @ r) = Inr (JInt i, r)"
proof (cases "i < 0")
  case True
  with assms scan_nat [of r "nat (- i)" "nat_str (nat (- i)) @ r" True] show ?thesis
    by (simp add: scan_number_def int_str_def int_fits_def)
next
  case False
  have "hd (nat_str (nat i)) \<noteq> 45" using nat_str_digits [of "hd (nat_str (nat i))" "nat i"]
    by (auto simp: is_digit_def)
  with False assms scan_nat [of r "nat i" "nat_str (nat i) @ r" False] show ?thesis
    by (simp add: scan_number_def int_str_def int_fits_def)
qed

text \<open>What the code writes: no floats, integers the reader takes, distinct keys.\<close>

fun writable :: "json \<Rightarrow> bool" where
  "writable (JFloat m e) = False"
| "writable JNonFinite = False"
| "writable (JInt i) = int_fits i"
| "writable (JArr vs) = (\<forall>v \<in> set vs. writable v)"
| "writable (JObj ms) = ((\<forall>m \<in> set ms. writable (snd m)) \<and> distinct (map fst ms))"
| "writable j = True"

text \<open>A hook that takes objects with distinct keys as they are.\<close>

definition keeps_dicts :: "pairs_hook \<Rightarrow> bool" where
  "keeps_dicts h = (\<forall>ms. distinct (map fst ms) \<longrightarrow> h ms = Inr (JObj ms))"

lemma dict_set_new: "k \<notin> fst ` set d \<Longrightarrow> dict_set k v d = d @ [(k, v)]"
  by (induction d) auto

lemma dict_of_distinct: "distinct (map fst ms) \<Longrightarrow> dict_of ms = ms"
proof -
  have "distinct (map fst (d @ ms)) \<Longrightarrow> fold (\<lambda>(k, v) d. dict_set k v d) ms d = d @ ms" for d
    by (induction ms arbitrary: d) (auto simp: dict_set_new)
  from this [of "[]"] show "distinct (map fst ms) \<Longrightarrow> dict_of ms = ms"
    by (simp add: dict_of_def)
qed

lemma plain_hook_keeps [simp]: "keeps_dicts plain_hook"
  by (simp add: keeps_dicts_def plain_hook_def dict_of_distinct)

lemma skip_ws_stop [simp]: "c \<noteq> 32 \<Longrightarrow> c \<noteq> 9 \<Longrightarrow> c \<noteq> 10 \<Longrightarrow> c \<noteq> 13 \<Longrightarrow> skip_ws (c # s) = c # s"
  by (simp add: skip_ws_def)

definition value_head :: "codepoint \<Rightarrow> bool" where
  "value_head c = (c \<notin> {32, 9, 10, 13, 44, 93, 125, 0xFEFF})"

lemma int_str_head: "\<exists>c s. int_str i = c # s \<and> (c = 45 \<or> is_digit c)"
proof (cases "i < 0")
  case False
  then show ?thesis using nat_str_digits [of "hd (nat_str (nat i))" "nat i"]
    by (intro exI [of _ "hd (nat_str (nat i))"] exI [of _ "tl (nat_str (nat i))"])
       (simp add: int_str_def)
qed (simp add: int_str_def)

lemma dumps_head: "writable j \<Longrightarrow> \<exists>c s. dumps j = c # s \<and> value_head c"
  using int_str_head
  by (cases j) (fastforce simp: value_head_def dumps_str_def is_digit_def)+

lemma skip_ws_dumps: "writable j \<Longrightarrow> skip_ws (dumps j @ r) = dumps j @ r"
  using dumps_head [of j] by (auto simp: value_head_def)


lemma num_stop_simps [simp]: "num_stop (44 # r)" "num_stop (93 # r)" "num_stop (125 # r)" "num_stop []"
  by (simp_all add: num_stop_def is_digit_def)

lemma dumps_members_head: "ms \<noteq> [] \<Longrightarrow> \<exists>s. dumps_members ms = 34 # s"
  by (cases ms rule: dumps_members.cases) (auto simp: dumps_str_def)

lemma dumps_items_head:
  "vs \<noteq> [] \<Longrightarrow> \<forall>v \<in> set vs. writable v \<Longrightarrow> \<exists>c s. dumps_items vs = c # s \<and> value_head c"
  using dumps_head [of "hd vs"] by (cases vs rule: dumps_items.cases) auto

lemma skip_ws_head: "value_head c \<Longrightarrow> skip_ws (c # s) = c # s"
  by (simp add: value_head_def)

text \<open>What the reader does on the text of a value, of list elements, of members.\<close>

definition reads_value :: "pairs_hook \<Rightarrow> json \<Rightarrow> bool" where
  "reads_value h j =
     (writable j \<longrightarrow> (\<forall>n r. 2 * length (dumps j) + 1 \<le> n \<longrightarrow> num_stop r \<longrightarrow>
        scan_value h n (dumps j @ r) = Some (Inr (j, r))))"

definition reads_items :: "pairs_hook \<Rightarrow> json list \<Rightarrow> bool" where
  "reads_items h vs =
     (vs \<noteq> [] \<longrightarrow> (\<forall>v \<in> set vs. writable v) \<longrightarrow>
       (\<forall>n r. 2 * length (dumps_items vs) + 2 \<le> n \<longrightarrow>
         scan_items h n (dumps_items vs @ 93 # r) = Some (Inr (vs, r))))"

definition reads_members :: "pairs_hook \<Rightarrow> (ustr \<times> json) list \<Rightarrow> bool" where
  "reads_members h ms =
     (ms \<noteq> [] \<longrightarrow> (\<forall>m \<in> set ms. writable (snd m)) \<longrightarrow>
       (\<forall>n r. 2 * length (dumps_members ms) + 2 \<le> n \<longrightarrow>
         scan_members h n (dumps_members ms @ 125 # r) = Some (Inr (ms, r))))"

lemma reads_valueI:
  assumes "\<And>m r. writable j \<Longrightarrow> 2 * length (dumps j) \<le> m \<Longrightarrow> num_stop r \<Longrightarrow>
     scan_value h (Suc m) (dumps j @ r) = Some (Inr (j, r))"
  shows "reads_value h j"
  unfolding reads_value_def
proof (intro impI allI)
  fix n r assume "writable j" "2 * length (dumps j) + 1 \<le> n" "num_stop r"
  then show "scan_value h n (dumps j @ r) = Some (Inr (j, r))" using assms by (cases n) auto
qed

lemma int_str_heads:
  "\<exists>c s. int_str i = c # s \<and> (is_digit c \<or> c = 45 \<and> s \<noteq> [] \<and> is_digit (hd s))"
proof -
  have d: "nat_str n \<noteq> [] \<and> is_digit (hd (nat_str n))" for n
    using nat_str_digits [of "hd (nat_str n)" n] by simp
  show ?thesis
  proof (cases "i < 0")
    case True
    then show ?thesis using d by (simp add: int_str_def)
  next
    case False
    then show ?thesis using d [of "nat i"]
      by (cases "nat_str (nat i)") (simp_all add: int_str_def)
  qed
qed

lemma reads_int: "reads_value h (JInt i)"
proof (rule reads_valueI)
  fix m r assume a: "writable (JInt i)" "num_stop r"
  obtain c s where c: "int_str i = c # s" "is_digit c \<or> c = 45 \<and> s \<noteq> [] \<and> is_digit (hd s)"
    using int_str_heads by blast
  then have "c \<notin> {34, 123, 91, 110, 116, 102, 78, 73}" and "c = 45 \<Longrightarrow> hd (s @ r) \<noteq> 73"
    by (auto simp: is_digit_def hd_append)
  then show "scan_value h (Suc m) (dumps (JInt i) @ r) = Some (Inr (JInt i, r))"
    using a scan_int [of r i] c(1)
    by (cases "s @ r") (auto simp: scan_value.simps(2) starts_with_def)
qed

lemma reads_atoms:
  "reads_value h JNull" "reads_value h (JBool b)" "reads_value h (JStr t)"
  "reads_value h (JFloat m e)" "reads_value h JNonFinite"
proof -
  show "reads_value h JNull"
    by (rule reads_valueI) (simp add: scan_value.simps(2) starts_with_def)
  show "reads_value h (JBool b)"
    by (rule reads_valueI) (simp add: scan_value.simps(2) starts_with_def)
  show "reads_value h (JStr t)"
    by (rule reads_valueI) (simp add: scan_value.simps(2) dumps_str_def scan_string_dumps)
qed (simp_all add: reads_value_def)

lemma reads_arr:
  assumes "reads_items h vs"
  shows "reads_value h (JArr vs)"
proof (rule reads_valueI)
  fix m r assume a: "writable (JArr vs)" "2 * length (dumps (JArr vs)) \<le> m"
  show "scan_value h (Suc m) (dumps (JArr vs) @ r) = Some (Inr (JArr vs, r))"
  proof (cases "vs = []")
    case False
    then obtain c s where c: "dumps_items vs = c # s" "value_head c"
      using dumps_items_head [OF False] a by auto
    then have ws: "skip_ws (c # s @ 93 # r) = c # s @ 93 # r" and "c \<noteq> 93"
      by (simp_all add: skip_ws_head value_head_def)
    moreover have "scan_items h m (dumps_items vs @ 93 # r) = Some (Inr (vs, r))"
      using assms a False by (simp add: reads_items_def)
    ultimately show ?thesis using c by (simp add: scan_value.simps(2))
  qed (simp add: scan_value.simps(2))
qed

lemma reads_obj:
  assumes "reads_members h ms" and "keeps_dicts h"
  shows "reads_value h (JObj ms)"
proof (rule reads_valueI)
  fix m r assume a: "writable (JObj ms)" "2 * length (dumps (JObj ms)) \<le> m"
  then have h: "h ms = Inr (JObj ms)" using assms(2) by (simp add: keeps_dicts_def)
  show "scan_value h (Suc m) (dumps (JObj ms) @ r) = Some (Inr (JObj ms, r))"
  proof (cases "ms = []")
    case False
    then obtain s where s: "dumps_members ms = 34 # s" using dumps_members_head by blast
    have "scan_members h m (dumps_members ms @ 125 # r) = Some (Inr (ms, r))"
      using assms(1) a False by (simp add: reads_members_def)
    with s show ?thesis by (simp add: scan_value.simps(2) h)
  qed (use h in \<open>simp add: scan_value.simps(2)\<close>)
qed

lemma reads_itemsI:
  assumes "\<And>m r. \<forall>v \<in> set vs. writable v \<Longrightarrow> 2 * length (dumps_items vs) + 1 \<le> m \<Longrightarrow>
     scan_items h (Suc m) (dumps_items vs @ 93 # r) = Some (Inr (vs, r))"
  shows "reads_items h vs"
  unfolding reads_items_def
proof (intro impI allI)
  fix n r assume "vs \<noteq> []" "\<forall>v \<in> set vs. writable v" "2 * length (dumps_items vs) + 2 \<le> n"
  then show "scan_items h n (dumps_items vs @ 93 # r) = Some (Inr (vs, r))"
    using assms by (cases n) auto
qed

lemma reads_membersI:
  assumes "\<And>m r. \<forall>v \<in> set ms. writable (snd v) \<Longrightarrow> 2 * length (dumps_members ms) + 1 \<le> m \<Longrightarrow>
     scan_members h (Suc m) (dumps_members ms @ 125 # r) = Some (Inr (ms, r))"
  shows "reads_members h ms"
  unfolding reads_members_def
proof (intro impI allI)
  fix n r assume "ms \<noteq> []" "\<forall>v \<in> set ms. writable (snd v)"
    "2 * length (dumps_members ms) + 2 \<le> n"
  then show "scan_members h n (dumps_members ms @ 125 # r) = Some (Inr (ms, r))"
    using assms by (cases n) auto
qed

lemma reads_items_one: "reads_value h v \<Longrightarrow> reads_items h [v]"
  by (rule reads_itemsI) (simp add: scan_items.simps(2) reads_value_def)

lemma reads_items_more:
  assumes v: "reads_value h v" and ws: "reads_items h (w # vs)"
  shows "reads_items h (v # w # vs)"
proof (rule reads_itemsI)
  fix m r assume a: "\<forall>x \<in> set (v # w # vs). writable x"
    "2 * length (dumps_items (v # w # vs)) + 1 \<le> m"
  then obtain c s where c: "dumps_items (w # vs) = c # s" "value_head c"
    using dumps_items_head [of "w # vs"] by auto
  have "scan_value h m (dumps v @ 44 # dumps_items (w # vs) @ 93 # r)
          = Some (Inr (v, 44 # dumps_items (w # vs) @ 93 # r))"
    using v a by (simp add: reads_value_def)
  moreover have "skip_ws (dumps_items (w # vs) @ 93 # r) = dumps_items (w # vs) @ 93 # r"
    using c by (simp add: skip_ws_head)
  moreover have "scan_items h m (dumps_items (w # vs) @ 93 # r) = Some (Inr (w # vs, r))"
    using ws a by (simp add: reads_items_def)
  ultimately show "scan_items h (Suc m) (dumps_items (v # w # vs) @ 93 # r)
      = Some (Inr (v # w # vs, r))"
    by (simp add: scan_items.simps(2))
qed

lemma reads_members_one: "reads_value h v \<Longrightarrow> reads_members h [(k, v)]"
  by (rule reads_membersI)
     (simp add: scan_members.simps(2) reads_value_def dumps_str_def scan_string_dumps skip_ws_dumps)

lemma reads_members_more:
  assumes v: "reads_value h v" and ms: "reads_members h (m # ms)"
  shows "reads_members h ((k, v) # m # ms)"
proof (rule reads_membersI)
  fix n r assume a: "\<forall>x \<in> set ((k, v) # m # ms). writable (snd x)"
    "2 * length (dumps_members ((k, v) # m # ms)) + 1 \<le> n"
  obtain s where s: "dumps_members (m # ms) = 34 # s"
    using dumps_members_head [of "m # ms"] by blast
  have "scan_value h n (dumps v @ 44 # dumps_members (m # ms) @ 125 # r)
          = Some (Inr (v, 44 # dumps_members (m # ms) @ 125 # r))"
    using v a by (simp add: reads_value_def)
  moreover have "skip_ws (dumps_members (m # ms) @ 125 # r) = dumps_members (m # ms) @ 125 # r"
    using s by simp
  moreover have "scan_members h n (dumps_members (m # ms) @ 125 # r) = Some (Inr (m # ms, r))"
    using ms a by (simp add: reads_members_def)
  ultimately show "scan_members h (Suc n) (dumps_members ((k, v) # m # ms) @ 125 # r)
      = Some (Inr ((k, v) # m # ms, r))"
    using a by (simp add: scan_members.simps(2) dumps_str_def scan_string_dumps skip_ws_dumps)
qed

lemma scan_dumps:
  assumes h: "keeps_dicts h"
  shows "reads_value h j" and "reads_items h vs" and "reads_members h ms"
proof (induction j and vs and ms rule: dumps_dumps_items_dumps_members.induct)
  case (6 ms)
  then show ?case using h by (rule reads_obj)
qed (simp_all add: reads_atoms reads_int reads_arr reads_items_one reads_items_more
        reads_members_one reads_members_more reads_items_def [of h "[]"] reads_members_def [of h "[]"])

text \<open>\<^verbatim>\<open>json.loads(json.dumps(v)) == v\<close>.\<close>

lemma loads_dumps:
  assumes "writable j" and "keeps_dicts h"
  shows "loads h (dumps j) = Inr j"
proof -
  obtain c s where c: "dumps j = c # s" "value_head c" using dumps_head assms(1) by blast
  have "c \<noteq> 0xFEFF" using c(2) by (simp add: value_head_def)
  have "\<forall>n r. 2 * length (dumps j) + 1 \<le> n \<longrightarrow> num_stop r \<longrightarrow>
      scan_value h n (dumps j @ r) = Some (Inr (j, r))"
    using scan_dumps(1) [OF assms(2), of j] assms(1) by (simp add: reads_value_def)
  from this [rule_format, of "2 * length (dumps j) + 2" "[]"]
  have "scan_value h (2 * length (dumps j) + 2) (dumps j) = Some (Inr (j, []))" by simp
  then show ?thesis using c skip_ws_dumps [OF assms(1), of "[]"] \<open>c \<noteq> 0xFEFF\<close>
    by (simp add: loads_def loads_fuel_def skip_ws_def)
qed

end
