(* ===== verification/Manifest.thy ===== *)
theory Manifest
  imports Idempotency Json "HOL-Library.Multiset"
begin

text \<open>
  \<^verbatim>\<open>robolake/domain/manifest.py\<close>: the canonical manifest of a dataset version, its builder and
  the parser that reproduces it. The lemmas show that building does not depend on the order
  of the entries, that the parser inverts the builder and accepts nothing else, and exactly
  which colliding paths the builder lets through.
\<close>

section \<open>Entries and manifests\<close>

record manifest_entry =
  me_path :: relative_path
  me_size :: int
  me_sha :: sha256_digest

definition mk_manifest_entry ::
    "relative_path \<Rightarrow> int \<Rightarrow> sha256_digest \<Rightarrow> manifest_entry res" where
  "mk_manifest_entry p n d =
     (if n < 0 then Inl ManifestMismatchError
      else Inr \<lparr>me_path = p, me_size = n, me_sha = d\<rparr>)"

record manifest =
  mf_entries :: "manifest_entry list"
  mf_canonical :: bytes
  mf_sha256 :: sha256_digest
  mf_schema_version :: int

definition file_count :: "manifest \<Rightarrow> int" where
  "file_count m = int (length (mf_entries m))"

definition logical_bytes :: "manifest \<Rightarrow> int" where
  "logical_bytes m = sum_list (map me_size (mf_entries m))"

definition unique_blob_count :: "manifest \<Rightarrow> int" where
  "unique_blob_count m = int (card (set (map me_sha (mf_entries m))))"

text \<open>\<^verbatim>\<open>sum({e.sha256: e.size_bytes for e in entries}.values())\<close>: the last size of a digest.\<close>

definition digest_dict :: "manifest_entry list \<Rightarrow> sha256_digest \<Rightarrow> int option" where
  "digest_dict es = fold (\<lambda>e d. d(me_sha e \<mapsto> me_size e)) es Map.empty"

definition unique_blob_bytes :: "manifest \<Rightarrow> int" where
  "unique_blob_bytes m =
     sum_list (map (\<lambda>d. the (digest_dict (mf_entries m) d)) (remdups (map me_sha (mf_entries m))))"

section \<open>Building\<close>

definition entry_key :: "manifest_entry \<Rightarrow> bytes" where
  "entry_key e = (case utf8_encode (rp_value (me_path e)) of Some b \<Rightarrow> b | None \<Rightarrow> [])"

text \<open>The loop over \<^verbatim>\<open>digest_sizes.setdefault\<close>.\<close>

fun check_sizes :: "(sha256_digest \<times> int) list \<Rightarrow> manifest_entry list \<Rightarrow> unit res" where
  "check_sizes d [] = Inr ()"
| "check_sizes d (e # es) =
     (case map_of d (me_sha e) of
        None \<Rightarrow> check_sizes ((me_sha e, me_size e) # d) es
      | Some n \<Rightarrow> (if n \<noteq> me_size e then Inl ContentConflictError else check_sizes d es))"

definition collision_key :: "unicode \<Rightarrow> manifest_entry \<Rightarrow> ustr" where
  "collision_key U e = nfc U (casefold U (rp_value (me_path e)))"

definition collides :: "ustr \<Rightarrow> ustr \<Rightarrow> bool" where
  "collides previous current \<longleftrightarrow> current = previous \<or> starts_with (previous @ lit ''/'') current"

fun check_collisions :: "ustr list \<Rightarrow> unit res" where
  "check_collisions (p # c # ks) =
     (if collides p c then Inl PathCollisionError else check_collisions (c # ks))"
| "check_collisions ks = Inr ()"

definition entry_json :: "manifest_entry \<Rightarrow> json" where
  "entry_json e =
     JObj [(lit ''relative_path'', JStr (rp_value (me_path e))),
           (lit ''size_bytes'', JInt (me_size e)),
           (lit ''sha256'', JStr (digest_value (me_sha e)))]"

definition manifest_json :: "manifest_entry list \<Rightarrow> json" where
  "manifest_json es =
     JObj [(lit ''schema_version'', JInt 1), (lit ''entries'', JArr (map entry_json es))]"

text \<open>
  \<^verbatim>\<open>Manifest.build\<close>. Writing an integer of more than 4,300 digits raises \<^verbatim>\<open>ValueError\<close>;
  encoding a path that is not scalar text raises \<^verbatim>\<open>UnicodeEncodeError\<close>, which no validated
  \<^verbatim>\<open>RelativePath\<close> does.
\<close>

definition build :: "unicode \<Rightarrow> manifest_entry list \<Rightarrow> manifest res" where
  "build U supplied =
     (if MAX_MANIFEST_ENTRIES < length supplied then Inl ManifestMismatchError
      else if \<exists>e \<in> set supplied. utf8_encode (rp_value (me_path e)) = None
      then Inl PyUnicodeEncodeError
      else
        let ordered = sort_key entry_key supplied
        in res_bind (check_sizes [] ordered) (\<lambda>_.
           res_bind (check_collisions (sort (map (collision_key U) ordered))) (\<lambda>_.
           if \<exists>e \<in> set ordered. \<not> int_fits (me_size e) then Inl PyValueError
           else
             case utf8_encode (dumps (manifest_json ordered)) of
               None \<Rightarrow> Inl PyUnicodeEncodeError
             | Some canonical \<Rightarrow>
                 (if MAX_MANIFEST_BYTES < length canonical then Inl ManifestMismatchError
                  else res_bind (mk_digest (sha256_hex canonical)) (\<lambda>digest.
                    Inr \<lparr>mf_entries = ordered, mf_canonical = canonical, mf_sha256 = digest,
                         mf_schema_version = 1\<rparr>)))))"

section \<open>Parsing\<close>

text \<open>\<^verbatim>\<open>v == 1\<close>: also the float nearest to a decimal around one, and \<^verbatim>\<open>True\<close>.\<close>

definition equals_one :: "json \<Rightarrow> bool" where
  "equals_one v =
     (case v of
        JInt i \<Rightarrow> i = 1
      | JBool b \<Rightarrow> b
      | JFloat m e \<Rightarrow>
          (if 0 \<le> e then (2 ^ 54 - 1) \<le> 2 ^ 54 * m * 10 ^ nat e \<and> 2 ^ 54 * m * 10 ^ nat e \<le> 2 ^ 54 + 2
           else (2 ^ 54 - 1) * 10 ^ nat (- e) \<le> 2 ^ 54 * m \<and> 2 ^ 54 * m \<le> (2 ^ 54 + 2) * 10 ^ nat (- e))
      | _ \<Rightarrow> False)"

definition entry_fields :: "json \<Rightarrow> (ustr \<times> int \<times> ustr) res" where
  "entry_fields item =
     (case item of
        JObj d \<Rightarrow>
          (if \<not> has_keys [''relative_path'', ''size_bytes'', ''sha256''] d
           then Inl ManifestMismatchError
           else
             (case (field ''relative_path'' d, field ''size_bytes'' d, field ''sha256'' d) of
                (JStr p, JInt n, JStr s) \<Rightarrow> Inr (p, n, s)
              | _ \<Rightarrow> Inl ManifestMismatchError))
      | _ \<Rightarrow> Inl ManifestMismatchError)"

definition parse_entry :: "unicode \<Rightarrow> ustr \<times> int \<times> ustr \<Rightarrow> manifest_entry res" where
  "parse_entry U f =
     (case f of (p, n, s) \<Rightarrow>
        res_bind (mk_relative_path U p) (\<lambda>path.
        res_bind (mk_digest s) (\<lambda>digest. mk_manifest_entry path n digest)))"

definition from_payload :: "unicode \<Rightarrow> bytes \<Rightarrow> json \<Rightarrow> manifest res" where
  "from_payload U data payload =
     (case payload of
        JObj d \<Rightarrow>
          (if \<not> has_keys [''schema_version'', ''entries''] d then Inl ManifestMismatchError
           else
             (case field ''entries'' d of
                JArr items \<Rightarrow>
                  (if \<not> equals_one (field ''schema_version'' d) then Inl ManifestMismatchError
                   else
                     res_bind (res_map entry_fields items) (\<lambda>raw.
                     res_bind (res_map (parse_entry U) raw) (\<lambda>entries.
                     res_bind (build U entries) (\<lambda>rebuilt.
                       if mf_canonical rebuilt \<noteq> data then Inl ManifestMismatchError
                       else Inr rebuilt))))
              | _ \<Rightarrow> Inl ManifestMismatchError))
      | _ \<Rightarrow> Inl ManifestMismatchError)"

definition from_canonical_bytes :: "unicode \<Rightarrow> bytes \<Rightarrow> manifest res" where
  "from_canonical_bytes U data =
     (if MAX_MANIFEST_BYTES < length data then Inl ManifestMismatchError
      else
        case utf8_decode data of
          None \<Rightarrow> Inl ManifestMismatchError
        | Some s \<Rightarrow>
            (case loads plain_hook s of
               Inl e \<Rightarrow> (if e = PyJSONDecodeError then Inl ManifestMismatchError else Inl e)
             | Inr payload \<Rightarrow> from_payload U data payload))"

section \<open>Order independence\<close>

text \<open>The size check fails exactly when two entries of one digest differ in size.\<close>

definition sizes_agree :: "manifest_entry set \<Rightarrow> bool" where
  "sizes_agree S \<longleftrightarrow> (\<forall>e \<in> S. \<forall>f \<in> S. me_sha e = me_sha f \<longrightarrow> me_size e = me_size f)"

definition sizes_known :: "(sha256_digest \<times> int) list \<Rightarrow> manifest_entry set \<Rightarrow> bool" where
  "sizes_known d S \<longleftrightarrow> (\<forall>e \<in> S. \<forall>n. map_of d (me_sha e) = Some n \<longrightarrow> n = me_size e)"

lemma sizes_agree_insert:
  "sizes_agree (insert e S) \<longleftrightarrow>
     sizes_agree S \<and> (\<forall>f \<in> S. me_sha f = me_sha e \<longrightarrow> me_size f = me_size e)"
  unfolding sizes_agree_def by (metis insert_iff)

lemma sizes_known_insert:
  "sizes_known d (insert e S) \<longleftrightarrow>
     sizes_known d S \<and> (\<forall>n. map_of d (me_sha e) = Some n \<longrightarrow> n = me_size e)"
  unfolding sizes_known_def by auto

lemma sizes_known_Cons:
  "map_of d s = None \<Longrightarrow> sizes_known ((s, n) # d) S \<longleftrightarrow>
     sizes_known d S \<and> (\<forall>f \<in> S. me_sha f = s \<longrightarrow> me_size f = n)"
  unfolding sizes_known_def by auto

lemma check_sizes_iff:
  "check_sizes d es =
     (if sizes_known d (set es) \<and> sizes_agree (set es) then Inr () else Inl ContentConflictError)"
proof (induction es arbitrary: d)
  case Nil
  show ?case by (simp add: sizes_agree_def sizes_known_def)
next
  case (Cons e es)
  show ?case
  proof (cases "map_of d (me_sha e)")
    case None
    then show ?thesis
      using Cons.IH by (simp add: sizes_agree_insert sizes_known_insert sizes_known_Cons)
  next
    case (Some n)
    have "sizes_known d (set es) \<Longrightarrow> n = me_size e \<Longrightarrow>
        \<forall>f \<in> set es. me_sha f = me_sha e \<longrightarrow> me_size f = me_size e"
      using Some by (auto simp: sizes_known_def)
    then have "n = me_size e \<Longrightarrow>
        (sizes_known d (set (e # es)) \<and> sizes_agree (set (e # es)))
          = (sizes_known d (set es) \<and> sizes_agree (set es))"
      using Some by (auto simp: sizes_agree_insert sizes_known_insert)
    moreover have "n \<noteq> me_size e \<Longrightarrow> \<not> sizes_known d (set (e # es))"
      using Some by (simp add: sizes_known_insert)
    ultimately show ?thesis using Cons.IH [of d] Some by (cases "n = me_size e") simp_all
  qed
qed

lemma check_sizes_start:
  "check_sizes [] es = (if sizes_agree (set es) then Inr () else Inl ContentConflictError)"
  by (simp add: check_sizes_iff sizes_known_def)

lemma check_collisions_distinct:
  "sorted ks \<Longrightarrow> check_collisions ks = Inr () \<Longrightarrow> distinct ks"
proof (induction ks rule: check_collisions.induct)
  case (1 p c ks)
  then have d: "distinct (c # ks)" and "p \<noteq> c" "p \<le> c"
    by (auto simp: collides_def split: if_splits)
  moreover have "p \<notin> set ks" using 1(2) \<open>p \<noteq> c\<close> by auto
  ultimately show ?case by auto
qed auto

lemma check_collisions_result: "check_collisions ks = Inr () \<or> check_collisions ks = Inl PathCollisionError"
  by (induction ks rule: check_collisions.induct) auto

lemma sort_mset_eq: "mset xs = mset ys \<Longrightarrow> sort xs = sort ys"
  by (metis sorted_list_of_multiset_mset)

lemma entry_key_Some:
  "utf8_encode (rp_value (me_path e)) \<noteq> None \<Longrightarrow>
     utf8_encode (rp_value (me_path e)) = Some (entry_key e)"
  by (auto simp: entry_key_def)

lemma entry_key_path:
  assumes "utf8_encode (rp_value (me_path e)) \<noteq> None" "utf8_encode (rp_value (me_path f)) \<noteq> None"
    and "entry_key e = entry_key f"
  shows "me_path e = me_path f"
  using utf8_encode_inj [of "rp_value (me_path e)" "entry_key e" "rp_value (me_path f)"]
    entry_key_Some [OF assms(1)] entry_key_Some [OF assms(2)] assms(3)
  by (simp add: relative_path.expand)

lemma distinct_map_mset:
  "mset xs = mset ys \<Longrightarrow> distinct (map f xs) = distinct (map f ys)"
  by (metis mset_map mset_eq_imp_distinct_iff)

text \<open>Paths that pass the collision check are distinct, so their sort has one result.\<close>

lemma distinct_keys_inj:
  assumes "\<forall>e \<in> set es. utf8_encode (rp_value (me_path e)) \<noteq> None"
    and "distinct (map (collision_key U) es)"
  shows "distinct (map entry_key es)"
proof -
  have "inj_on entry_key (set es)"
  proof (rule inj_onI)
    fix e f assume e: "e \<in> set es" and f: "f \<in> set es" and k: "entry_key e = entry_key f"
    then have "collision_key U e = collision_key U f"
      using assms(1) entry_key_path [of e f] by (simp add: collision_key_def)
    with e f assms(2) show "e = f" by (auto simp: distinct_map dest: inj_onD)
  qed
  with assms(2) show ?thesis by (simp add: distinct_map)
qed

lemma sorted_collision_keys:
  assumes "mset xs = mset ys"
  shows "sort (map (collision_key U) (sort_key entry_key xs))
       = sort (map (collision_key U) (sort_key entry_key ys))"
  by (rule sort_mset_eq) (simp add: assms)

text \<open>
  C4: A manifest depends on the set of files, not on the order a scan found them in: building
  from any permutation of the entries gives the same manifest, byte for byte, or the same
  error.
\<close>

theorem build_order_independent:
  assumes "mset xs = mset ys"
  shows "build U xs = build U ys"
proof (cases "\<exists>e \<in> set xs. utf8_encode (rp_value (me_path e)) = None")
  case True
  then show ?thesis
    using assms mset_eq_setD [OF assms] mset_eq_length [OF assms] by (simp add: build_def)
next
  case False
  let ?kx = "sort (map (collision_key U) (sort_key entry_key xs))"
  have same: "set xs = set ys" "length xs = length ys"
    using assms by (auto dest: mset_eq_setD mset_eq_length)
  have keys: "sort (map (collision_key U) (sort_key entry_key ys)) = ?kx"
    using sorted_collision_keys [OF assms [symmetric]] .
  show ?thesis
  proof (cases "check_collisions ?kx = Inr ()")
    case True
    then have "distinct ?kx" by (intro check_collisions_distinct) simp
    then have "distinct (map (collision_key U) (sort_key entry_key xs))" by simp
    then have "distinct (map entry_key (sort_key entry_key xs))"
      using False by (intro distinct_keys_inj) auto
    then have "inj_on entry_key (set xs)" by (simp add: distinct_map)
    with assms have "sort_key entry_key xs = sort_key entry_key ys" by (rule sort_key_eq_sort_key)
    then show ?thesis unfolding build_def same by (simp only:)
  next
    case bad: False
    then have "check_collisions ?kx = Inl PathCollisionError" using check_collisions_result by blast
    moreover have "(\<exists>e \<in> set ys. utf8_encode (rp_value (me_path e)) = None) = False"
      using False same by simp
    ultimately show ?thesis
      unfolding build_def same Let_def check_sizes_start keys by (simp add: same del: not_None_eq)
  qed
qed


lemma perm_example:
  "mset [e, f] = mset [f, e]" for e f :: manifest_entry
  by simp

theorem build_order_independent_witness:
  "build ascii_unicode
     [\<lparr>me_path = RelativePath (lit ''a''), me_size = 1, me_sha = content_digest [1]\<rparr>,
      \<lparr>me_path = RelativePath (lit ''b''), me_size = 2, me_sha = content_digest [2]\<rparr>]
   = build ascii_unicode
     [\<lparr>me_path = RelativePath (lit ''b''), me_size = 2, me_sha = content_digest [2]\<rparr>,
      \<lparr>me_path = RelativePath (lit ''a''), me_size = 1, me_sha = content_digest [1]\<rparr>]"
  by (rule build_order_independent) simp

section \<open>What a built manifest is\<close>

definition wf_entry :: "unicode \<Rightarrow> manifest_entry \<Rightarrow> bool" where
  "wf_entry U e \<longleftrightarrow> wf_path U (me_path e) \<and> 0 \<le> me_size e \<and> wf_digest (me_sha e)"

definition built :: "unicode \<Rightarrow> manifest \<Rightarrow> bool" where
  "built U m \<longleftrightarrow>
     length (mf_entries m) \<le> MAX_MANIFEST_ENTRIES
     \<and> (\<forall>e \<in> set (mf_entries m). utf8_encode (rp_value (me_path e)) \<noteq> None \<and> int_fits (me_size e))
     \<and> sorted (map entry_key (mf_entries m)) \<and> distinct (map me_path (mf_entries m))
     \<and> distinct (map (collision_key U) (mf_entries m))
     \<and> check_collisions (sort (map (collision_key U) (mf_entries m))) = Inr ()
     \<and> sizes_agree (set (mf_entries m))
     \<and> utf8_encode (dumps (manifest_json (mf_entries m))) = Some (mf_canonical m)
     \<and> length (mf_canonical m) \<le> MAX_MANIFEST_BYTES
     \<and> mf_sha256 m = content_digest (mf_canonical m)
     \<and> mf_schema_version m = 1"

lemma distinct_paths:
  assumes "distinct (map (collision_key U) es)"
  shows "distinct (map me_path es)"
proof -
  have "inj_on me_path (set es)"
    using assms by (auto simp: distinct_map inj_on_def collision_key_def)
  with assms show ?thesis by (simp add: distinct_map)
qed

lemma build_Inr:
  assumes "build U es = Inr m"
  shows "built U m" and "mf_entries m = sort_key entry_key es"
proof -
  define o' where "o' = sort_key entry_key es"
  from assms obtain c where
    len: "length es \<le> MAX_MANIFEST_ENTRIES"
    and enc: "\<forall>e \<in> set es. utf8_encode (rp_value (me_path e)) \<noteq> None"
    and sizes: "check_sizes [] o' = Inr ()"
    and col: "check_collisions (sort (map (collision_key U) o')) = Inr ()"
    and fits: "\<forall>e \<in> set o'. int_fits (me_size e)"
    and c: "utf8_encode (dumps (manifest_json o')) = Some c" "length c \<le> MAX_MANIFEST_BYTES"
    and m: "m = \<lparr>mf_entries = o', mf_canonical = c, mf_sha256 = content_digest c,
                 mf_schema_version = 1\<rparr>"
    by (auto simp: build_def Let_def o'_def res_bind_eq_Inr not_less
        split: if_splits option.splits)
  have set: "set o' = set es" "length o' = length es" by (simp_all add: o'_def)
  have "sizes_agree (set o')" using sizes by (simp add: check_sizes_start split: if_splits)
  moreover have dk: "distinct (map (collision_key U) o')"
    using check_collisions_distinct [OF _ col] by simp
  moreover have "sorted (map entry_key o')" by (simp add: o'_def)
  ultimately show "built U m"
    using len enc col fits c distinct_paths [OF dk] by (simp add: built_def m set)
  show "mf_entries m = sort_key entry_key es" by (simp add: m o'_def)
qed

lemma built_build: "built U m \<Longrightarrow> build U (mf_entries m) = Inr m"
proof -
  assume b: "built U m"
  then have "sort_key entry_key (mf_entries m) = mf_entries m"
    by (simp add: built_def sort_key_id_if_sorted)
  with b show ?thesis
    by (simp add: built_def build_def Let_def check_sizes_start)
qed

lemma entry_json_fields:
  "entry_fields (entry_json e) = Inr (rp_value (me_path e), me_size e, digest_value (me_sha e))"
  by (simp add: entry_fields_def entry_json_def has_keys_def field_def insert_commute)

lemma parse_entry_wf:
  "wf_entry U e \<Longrightarrow> parse_entry U (rp_value (me_path e), me_size e, digest_value (me_sha e)) = Inr e"
  by (simp add: wf_entry_def parse_entry_def wf_path_def mk_digest_wf mk_manifest_entry_def)

lemma manifest_json_writable:
  "\<forall>e \<in> set es. int_fits (me_size e) \<Longrightarrow> writable (manifest_json es)"
  by (auto simp: manifest_json_def entry_json_def int_fits_def max_int_digits_def nat_str.simps)

lemma parse_entries:
  "res_map entry_fields (map entry_json es)
     = Inr (map (\<lambda>e. (rp_value (me_path e), me_size e, digest_value (me_sha e))) es)"
  "\<forall>e \<in> set es. wf_entry U e \<Longrightarrow>
     res_map (parse_entry U) (map (\<lambda>e. (rp_value (me_path e), me_size e, digest_value (me_sha e))) es)
       = Inr es"
  by (induction es) (simp_all add: entry_json_fields parse_entry_wf)

lemma from_payload_manifest_json:
  assumes "built U m" and "\<forall>e \<in> set (mf_entries m). wf_entry U e"
  shows "from_payload U (mf_canonical m) (manifest_json (mf_entries m)) = Inr m"
  using parse_entries(1) [of "mf_entries m"] parse_entries(2) [OF assms(2)] built_build [OF assms(1)]
  by (simp add: from_payload_def manifest_json_def has_keys_def field_def equals_one_def)


lemma from_canonical_built:
  assumes b: "built U m" and wf: "\<forall>e \<in> set (mf_entries m). wf_entry U e"
  shows "from_canonical_bytes U (mf_canonical m) = Inr m"
proof -
  from b have w: "writable (manifest_json (mf_entries m))"
    by (intro manifest_json_writable) (simp add: built_def)
  from b have "utf8_decode (mf_canonical m) = Some (dumps (manifest_json (mf_entries m)))"
    by (intro utf8_roundtrip) (simp add: built_def)
  moreover have "loads plain_hook (dumps (manifest_json (mf_entries m)))
      = Inr (manifest_json (mf_entries m))"
    by (rule loads_dumps [OF w]) simp
  ultimately show ?thesis
    using b from_payload_manifest_json [OF b wf] by (simp add: from_canonical_bytes_def built_def)
qed

text \<open>
  C3: Parsing inverts building: the canonical bytes of every manifest built from validated
  entries are read back as that very manifest.
\<close>

theorem manifest_roundtrip:
  assumes "build U es = Inr m" and "\<forall>e \<in> set es. wf_entry U e"
  shows "from_canonical_bytes U (mf_canonical m) = Inr m"
  using build_Inr [OF assms(1)] assms(2) by (intro from_canonical_built) auto

text \<open>A file \<^verbatim>\<open>a\<close>, a file \<^verbatim>\<open>a.b\<close>, and a file \<^verbatim>\<open>a/c\<close> below the first.\<close>

definition sample_entries :: "manifest_entry list" where
  "sample_entries =
     [\<lparr>me_path = RelativePath (lit ''a''), me_size = 1, me_sha = Sha256Digest
         (lit ''0000000000000000000000000000000000000000000000000000000000000000'')\<rparr>,
      \<lparr>me_path = RelativePath (lit ''a.b''), me_size = 2, me_sha = Sha256Digest
         (lit ''1111111111111111111111111111111111111111111111111111111111111111'')\<rparr>,
      \<lparr>me_path = RelativePath (lit ''a/c''), me_size = 3, me_sha = Sha256Digest
         (lit ''2222222222222222222222222222222222222222222222222222222222222222'')\<rparr>]"

lemma sample_wf: "\<forall>e \<in> set sample_entries. wf_entry ascii_unicode e"
  by (simp add: sample_entries_def wf_entry_def wf_path_def mk_relative_path_def Let_def
      ascii_unicode_def utf8_encode_def utf8_char_def starts_with_def drive_qualified_def
      bad_segment_def dot_segments_def bad_char_def is_Cc_def is_Cs_def limit_defs
      wf_digest_def mk_digest_def)

lemma sample_sorted: "sort_key entry_key sample_entries = sample_entries"
  by (simp add: sample_entries_def entry_key_def utf8_encode_def utf8_char_def)

lemma sample_collisions:
  "check_collisions (sort (map (collision_key ascii_unicode) sample_entries)) = Inr ()"
  by (simp add: sample_entries_def collision_key_def ascii_unicode_def ascii_lower_def
      collides_def starts_with_def)

lemma sample_sizes: "sizes_agree (set sample_entries)"
  by (simp add: sample_entries_def sizes_agree_def)

lemma sample_encodes:
  "\<forall>e \<in> set sample_entries. utf8_encode (rp_value (me_path e)) \<noteq> None \<and> int_fits (me_size e)"
  by (simp add: sample_entries_def utf8_encode_def utf8_char_def int_fits_def nat_str.simps
      max_int_digits_def)

lemma sample_ascii: "\<forall>c \<in> set (dumps (manifest_json sample_entries)). c < 0x80"
  by (simp add: sample_entries_def manifest_json_def entry_json_def dumps_str_def esc_char_def
      int_str_def nat_str.simps)

lemma sample_length: "length (dumps (manifest_json sample_entries)) \<le> MAX_MANIFEST_BYTES"
  by (simp add: sample_entries_def manifest_json_def entry_json_def dumps_str_def esc_char_def
      int_str_def nat_str.simps limit_defs)

definition sample_manifest :: manifest where
  "sample_manifest =
     (let c = map of_nat (dumps (manifest_json sample_entries))
      in \<lparr>mf_entries = sample_entries, mf_canonical = c, mf_sha256 = content_digest c,
          mf_schema_version = 1\<rparr>)"

lemma sample_built: "build ascii_unicode sample_entries = Inr sample_manifest"
proof -
  have "length sample_entries \<le> MAX_MANIFEST_ENTRIES" by (simp add: sample_entries_def limit_defs)
  then show ?thesis
    using sample_encodes sample_length
    by (auto simp: build_def sample_sorted sample_collisions check_sizes_start sample_sizes
        sample_manifest_def Let_def utf8_encode_ascii [OF sample_ascii])
qed

lemma sample_parses:
  "from_canonical_bytes ascii_unicode (mf_canonical sample_manifest) = Inr sample_manifest"
  using build_Inr [OF sample_built] sample_wf by (intro from_canonical_built) auto

theorem manifest_roundtrip_witness:
  "from_canonical_bytes ascii_unicode (mf_canonical sample_manifest) = Inr sample_manifest"
  by (rule manifest_roundtrip [OF sample_built sample_wf])

section \<open>What a parsed manifest is\<close>

lemma parse_entry_Inr:
  assumes "unicode_laws U" and "parse_entry U f = Inr e"
  shows "wf_entry U e"
  using assms mk_relative_path_wf [OF assms(1)]
  by (cases f) (auto simp: parse_entry_def res_bind_eq_Inr mk_manifest_entry_def wf_entry_def
      mk_digest_Inr split: if_splits)

lemma from_payload_Inr:
  assumes "unicode_laws U" and "from_payload U data payload = Inr m"
  shows "mf_canonical m = data \<and> built U m \<and> (\<forall>e \<in> set (mf_entries m). wf_entry U e)"
proof -
  from assms(2) obtain raw es where
    es: "res_map (parse_entry U) raw = Inr es" and b: "build U es = Inr m"
    and c: "mf_canonical m = data"
    by (auto simp: from_payload_def res_bind_eq_Inr split: json.splits if_splits)
  have "\<forall>e \<in> set es. wf_entry U e"
    using res_map_all [OF es] parse_entry_Inr [OF assms(1)] by blast
  with b c build_Inr [OF b] show ?thesis by simp
qed

text \<open>
  C2: A manifest the parser accepts is canonical and valid: it reproduces exactly the bytes
  received and their SHA-256, its entries are validated, ordered by the UTF-8 bytes of
  distinct paths that also stay distinct when case is folded, and equal digests have equal
  sizes.
\<close>

theorem accepted_manifest_canonical:
  assumes "unicode_laws U" and "from_canonical_bytes U data = Inr m"
  shows "mf_canonical m = data \<and> mf_sha256 m = content_digest data
     \<and> (\<forall>e \<in> set (mf_entries m). wf_entry U e)
     \<and> sorted (map entry_key (mf_entries m)) \<and> distinct (map me_path (mf_entries m))
     \<and> distinct (map (collision_key U) (mf_entries m)) \<and> sizes_agree (set (mf_entries m))"
proof -
  from assms(2) obtain payload where "from_payload U data payload = Inr m"
    by (auto simp: from_canonical_bytes_def split: if_splits option.splits sum.splits)
  from from_payload_Inr [OF assms(1) this] show ?thesis by (simp add: built_def)
qed

theorem accepted_manifest_canonical_witness:
  "mf_sha256 sample_manifest = content_digest (mf_canonical sample_manifest)"
  using accepted_manifest_canonical [of ascii_unicode "mf_canonical sample_manifest" sample_manifest]
    sample_parses by simp

section \<open>Colliding paths\<close>

lemma prefix_between:
  "p \<le> c \<Longrightarrow> c \<le> p @ u \<Longrightarrow> \<exists>t. c = p @ t \<and> t \<le> (u :: ustr)"
proof (induction p arbitrary: c)
  case (Cons a p)
  then obtain c' where "c = a # c'" "p \<le> c'" "c' \<le> p @ u"
    by (cases c) auto
  with Cons.IH show ?case by auto
qed simp

lemma check_collisions_nth:
  "check_collisions ks = Inr () \<Longrightarrow> Suc i < length ks \<Longrightarrow> \<not> collides (ks ! i) (ks ! Suc i)"
proof (induction ks arbitrary: i rule: check_collisions.induct)
  case (1 p c ks)
  then show ?case by (cases i) (auto split: if_splits)
qed auto

lemma missed_collision:
  assumes "sorted ks" and "check_collisions ks = Inr ()" and "p \<in> set ks" and "p @ 47 # r \<in> set ks"
  shows "\<exists>c t. p @ c # t \<in> set ks \<and> c < 47"
proof -
  obtain i j where i: "i < length ks" "ks ! i = p" and j: "j < length ks" "ks ! j = p @ 47 # r"
    using assms(3,4) by (auto simp: in_set_conv_nth)
  have "p \<le> p @ 47 # r" "p \<noteq> p @ 47 # r" by (induction p) auto
  then have "i < j"
    using assms(1) i j by (metis antisym linorder_neqE_nat nat_less_le sorted_nth_mono)
  then have n: "Suc i < length ks" using j by simp
  let ?c = "ks ! Suc i"
  have "p \<le> ?c" "?c \<le> p @ 47 # r"
    using assms(1) i j \<open>i < j\<close> n by (metis Suc_leI le_SucI le_refl sorted_nth_mono)+
  then obtain t where t: "?c = p @ t" "t \<le> 47 # r" using prefix_between by blast
  moreover have no: "\<not> collides p ?c" using check_collisions_nth [OF assms(2) n] i by simp
  ultimately obtain x t' where x: "t = x # t'" by (cases t) (auto simp: collides_def)
  moreover have "x \<noteq> 47" using no t x by (auto simp: collides_def starts_with_def)
  ultimately have "x < 47" using t(2) by auto
  then show ?thesis using t x n by (metis nth_mem)
qed

text \<open>
  Which file/ancestor collisions \<^verbatim>\<open>Manifest.build\<close> can miss: if a built manifest holds a
  file and another file below a directory of the same name (case folded), then it also
  holds a file whose name continues the first with a character before the slash, such as
  \<^verbatim>\<open>a.b\<close> between \<^verbatim>\<open>a\<close> and \<^verbatim>\<open>a/c\<close>. Without such a file every ancestor collision is refused.
\<close>

theorem ancestor_collision_gap:
  assumes "build U es = Inr m" and "e \<in> set es" and "f \<in> set es"
    and "collision_key U f = collision_key U e @ lit ''/'' @ r"
  shows "\<exists>g \<in> set es. \<exists>c t. collision_key U g = collision_key U e @ c # t \<and> c < 47"
proof -
  from build_Inr [OF assms(1)] have b: "built U m" and s: "set (mf_entries m) = set es" by simp_all
  let ?ks = "sort (map (collision_key U) (mf_entries m))"
  have "\<exists>c t. collision_key U e @ c # t \<in> set ?ks \<and> c < 47"
  proof (rule missed_collision)
    show "check_collisions ?ks = Inr ()" using b by (simp add: built_def)
    show "collision_key U e \<in> set ?ks" using assms(2) s by simp
    show "collision_key U e @ 47 # r \<in> set ?ks"
      using assms(3) s imageI [of f "set es" "collision_key U"] by (simp add: assms(4))
  qed simp
  then obtain c t where ct: "collision_key U e @ c # t \<in> set ?ks" "c < 47" by blast
  then obtain g where "g \<in> set es" "collision_key U g = collision_key U e @ c # t" using s by auto
  with ct(2) show ?thesis by blast
qed

theorem ancestor_collision_gap_witness:
  "\<exists>g \<in> set sample_entries. \<exists>c t. collision_key ascii_unicode g = lit ''a'' @ c # t \<and> c < 47"
proof -
  have "collision_key ascii_unicode (sample_entries ! 2)
      = collision_key ascii_unicode (sample_entries ! 0) @ lit ''/'' @ lit ''c''"
    by (simp add: sample_entries_def collision_key_def ascii_unicode_def ascii_lower_def)
  moreover have "collision_key ascii_unicode (sample_entries ! 0) = lit ''a''"
    by (simp add: sample_entries_def collision_key_def ascii_unicode_def ascii_lower_def)
  moreover have "sample_entries ! 0 \<in> set sample_entries" "sample_entries ! 2 \<in> set sample_entries"
    by (simp_all add: sample_entries_def)
  ultimately show ?thesis using ancestor_collision_gap [OF sample_built] by metis
qed

text \<open>
  \<^verbatim>\<open>Manifest.build\<close> accepts a file \<^verbatim>\<open>a\<close> together with a file \<^verbatim>\<open>a/c\<close>, which no directory tree
  can hold, because only neighbours in the sorted order are compared and \<^verbatim>\<open>a.b\<close> stands
  between them; the parser accepts the result too.
\<close>

theorem ancestor_collision_accepted:
  "build ascii_unicode sample_entries = Inr sample_manifest
   \<and> (\<exists>e \<in> set (mf_entries sample_manifest). \<exists>f \<in> set (mf_entries sample_manifest).
        starts_with (rp_value (me_path e) @ lit ''/'') (rp_value (me_path f)))"
  using sample_built
  by (simp add: sample_manifest_def Let_def) (simp add: sample_entries_def starts_with_def)

section \<open>Totals\<close>

lemma sizes_agreeD:
  "sizes_agree S \<Longrightarrow> e \<in> S \<Longrightarrow> f \<in> S \<Longrightarrow> me_sha e = me_sha f \<Longrightarrow> me_size e = me_size f"
  unfolding sizes_agree_def by blast

lemma digest_dict_lookup:
  "sizes_agree (set es) \<Longrightarrow> e \<in> set es \<Longrightarrow> digest_dict es (me_sha e) = Some (me_size e)"
proof (induction es rule: rev_induct)
  case (snoc x xs)
  show ?case
  proof (cases "me_sha e = me_sha x")
    case True
    then have "me_size x = me_size e"
      using sizes_agreeD [OF snoc.prems(1), of x e] snoc.prems(2) by simp
    with True show ?thesis by (simp add: digest_dict_def)
  next
    case False
    then have "e \<in> set xs" using snoc.prems(2) by auto
    moreover have "sizes_agree (set xs)"
      using snoc.prems(1) by (simp add: sizes_agree_insert)
    ultimately have "digest_dict xs (me_sha e) = Some (me_size e)" using snoc.IH by simp
    with False show ?thesis by (simp add: digest_dict_def)
  qed
qed simp

text \<open>
  The deduplicated totals of a manifest are those of its set of contents: the count is
  the number of distinct digests, and the bytes are the sum, over the distinct digests, of
  the one size every entry of that digest has.
\<close>

theorem unique_totals:
  assumes "build U es = Inr m" and "\<And>e. e \<in> set es \<Longrightarrow> size_of (me_sha e) = me_size e"
  shows "unique_blob_count m = int (card (me_sha ` set es))
     \<and> unique_blob_bytes m = (\<Sum>d \<in> me_sha ` set es. size_of d)"
proof -
  from build_Inr [OF assms(1)] have b: "sizes_agree (set (mf_entries m))"
    and s: "set (mf_entries m) = set es" by (simp_all add: built_def)
  have "the (digest_dict (mf_entries m) d) = size_of d" if d: "d \<in> me_sha ` set es" for d
  proof -
    from d obtain e where e: "e \<in> set (mf_entries m)" "d = me_sha e" using s by auto
    then have "digest_dict (mf_entries m) d = Some (me_size e)"
      using digest_dict_lookup [OF b] by simp
    then show ?thesis using e s assms(2) by simp
  qed
  then have "unique_blob_bytes m
      = sum_list (map size_of (remdups (map me_sha (mf_entries m))))"
    unfolding unique_blob_bytes_def using s by (intro arg_cong [of _ _ sum_list] map_cong) auto
  also have "\<dots> = (\<Sum>d \<in> me_sha ` set es. size_of d)"
    using s by (simp add: sum_list_distinct_conv_sum_set)
  finally show ?thesis using s by (simp add: unique_blob_count_def)
qed

theorem unique_totals_witness:
  "unique_blob_count sample_manifest = 3"
proof -
  let ?s = "\<lambda>d. (if hd (digest_value d) = 48 then 1 else if hd (digest_value d) = 49 then 2 else 3)"
  have "\<forall>e \<in> set sample_entries. ?s (me_sha e) = me_size e"
    by (simp add: sample_entries_def)
  then have "\<And>e. e \<in> set sample_entries \<Longrightarrow> ?s (me_sha e) = me_size e" by (rule bspec)
  from conjunct1 [OF unique_totals [OF sample_built this]]
  have "unique_blob_count sample_manifest = int (card (me_sha ` set sample_entries))" .
  also have "card (me_sha ` set sample_entries) = 3" by (simp add: sample_entries_def)
  finally show ?thesis by simp
qed

end
