(* ===== verification/PartPlan.thy ===== *)
theory PartPlan
  imports Identifiers Json Lifecycle "HOL-Library.Multiset"
begin

text \<open>
  The pure values of \<^verbatim>\<open>robolake/domain/multipart.py\<close>: the part size algorithm, the boundary
  plan of a blob, the checksum-complete part plan with its canonical JSON codec, and the
  receipts of uploaded parts with their Base64 checksums. The model's integers are Python's;
  that a value is exactly an \<^verbatim>\<open>int\<close> is its type. The lemmas show that planning succeeds for
  every admissible size, covers the blob exactly once, is the only plan the validation
  accepts, and that both codecs are inverse to their encoders.
\<close>

section \<open>Identifiers of a multipart session\<close>

text \<open>Generations and lease epochs are positive.\<close>

definition mk_generation :: "int \<Rightarrow> int res" where
  "mk_generation v = (if v \<le> 0 then Inl PyValueError else Inr v)"

definition mk_admission_epoch :: "int \<Rightarrow> int res" where
  "mk_admission_epoch v = (if v \<le> 0 then Inl PyValueError else Inr v)"

definition mk_completion_epoch :: "int \<Rightarrow> int res" where
  "mk_completion_epoch v = (if v \<le> 0 then Inl PyValueError else Inr v)"

section \<open>Boundary plans\<close>

record multipart_part =
  mp_number :: int
  mp_offset :: int
  mp_size :: int

definition mk_multipart_part :: "int \<Rightarrow> int \<Rightarrow> int \<Rightarrow> multipart_part res" where
  "mk_multipart_part number offset nbytes =
     (if \<not> (1 \<le> number \<and> number \<le> MAX_PARTS) then Inl ManifestMismatchError
      else if offset < 0 \<or> nbytes \<le> 0 then Inl ManifestMismatchError
      else Inr \<lparr>mp_number = number, mp_offset = offset, mp_size = nbytes\<rparr>)"

definition ceil_div :: "int \<Rightarrow> int \<Rightarrow> int" where
  "ceil_div dividend divisor = (dividend + divisor - 1) div divisor"

text \<open>
  The doubling loop of \<^verbatim>\<open>_select_part_size\<close>. It starts from a positive size, so the guard on
  the part size always holds; it makes the recursion well-founded on all integers.
\<close>

function select_loop :: "int \<Rightarrow> int \<Rightarrow> int res" where
  "select_loop nbytes part_size =
     (if 0 < part_size \<and> MAX_PARTS < ceil_div nbytes part_size then
        (if MAX_PART_BYTES < part_size * 2 then Inl UnsupportedFileSizeError
         else select_loop nbytes (part_size * 2))
      else Inr part_size)"
  by auto
termination
  by (relation "measure (\<lambda>(nbytes, part_size). nat (MAX_PART_BYTES + 1 - part_size))") auto

declare select_loop.simps [simp del]

definition select_part_size :: "int \<Rightarrow> int res" where
  "select_part_size nbytes = select_loop nbytes BASE_PART_BYTES"

definition select_multipart_part_size :: "int \<Rightarrow> int res" where
  "select_multipart_part_size nbytes =
     (if \<not> (MAX_SINGLE_PUT_BYTES < nbytes \<and> nbytes \<le> MAX_MULTIPART_BLOB_BYTES)
      then Inl UnsupportedFileSizeError
      else select_part_size nbytes)"

text \<open>What the range validation sees of a part: its number, offset and size.\<close>

type_synonym part_range = "int \<times> int \<times> int"

fun range_loop :: "int \<Rightarrow> int \<Rightarrow> int \<Rightarrow> int \<Rightarrow> part_range list \<Rightarrow> int res" where
  "range_loop part_size part_total expected cursor [] = Inr cursor"
| "range_loop part_size part_total expected cursor ((number, offset, nbytes) # ps) =
     (if number \<noteq> expected \<or> offset \<noteq> cursor then Inl ManifestMismatchError
      else if part_size < nbytes then Inl ManifestMismatchError
      else if expected < part_total \<and> nbytes \<noteq> part_size then Inl ManifestMismatchError
      else range_loop part_size part_total (expected + 1) (cursor + nbytes) ps)"

definition validate_ranges :: "int \<Rightarrow> int \<Rightarrow> part_range list \<Rightarrow> unit res" where
  "validate_ranges blob_size part_size parts =
     (if parts = [] \<or> MAX_PARTS < int (length parts) then Inl ManifestMismatchError
      else res_bind (range_loop part_size (int (length parts)) 1 0 parts) (\<lambda>cursor.
        if cursor \<noteq> blob_size then Inl ManifestMismatchError else Inr ()))"

record multipart_plan =
  mpl_blob_size :: int
  mpl_part_size :: int
  mpl_parts :: "multipart_part list"

definition part_range :: "multipart_part \<Rightarrow> part_range" where
  "part_range p = (mp_number p, mp_offset p, mp_size p)"

definition mk_multipart_plan :: "int \<Rightarrow> int \<Rightarrow> multipart_part list \<Rightarrow> multipart_plan res" where
  "mk_multipart_plan blob_size part_size parts =
     (if blob_size \<le> 0 \<or> MAX_MULTIPART_BLOB_BYTES < blob_size then Inl ManifestMismatchError
      else if \<not> (BASE_PART_BYTES \<le> part_size \<and> part_size \<le> MAX_PART_BYTES)
      then Inl ManifestMismatchError
      else res_bind (select_part_size blob_size) (\<lambda>selected.
        if part_size \<noteq> selected then Inl ManifestMismatchError
        else res_bind (validate_ranges blob_size part_size (map part_range parts)) (\<lambda>_.
          Inr \<lparr>mpl_blob_size = blob_size, mpl_part_size = part_size, mpl_parts = parts\<rparr>)))"

definition plan_part_boundaries :: "int \<Rightarrow> multipart_plan res" where
  "plan_part_boundaries nbytes =
     (if \<not> (0 < nbytes \<and> nbytes \<le> MAX_MULTIPART_BLOB_BYTES) then Inl UnsupportedFileSizeError
      else res_bind (select_part_size nbytes) (\<lambda>part_size.
        res_bind
          (res_map (\<lambda>n. mk_multipart_part n ((n - 1) * part_size)
                          (min part_size (nbytes - (n - 1) * part_size)))
             [1..ceil_div nbytes part_size])
          (\<lambda>parts. mk_multipart_plan nbytes part_size parts)))"

definition plan_multipart :: "int \<Rightarrow> multipart_plan res" where
  "plan_multipart nbytes =
     res_bind (select_multipart_part_size nbytes) (\<lambda>_. plan_part_boundaries nbytes)"

section \<open>Part plans\<close>

record part_definition =
  pd_number :: int
  pd_offset :: int
  pd_size :: int
  pd_sha :: sha256_digest

definition mk_part_definition :: "int \<Rightarrow> int \<Rightarrow> int \<Rightarrow> sha256_digest \<Rightarrow> part_definition res" where
  "mk_part_definition number offset nbytes sha =
     res_bind (mk_multipart_part number offset nbytes) (\<lambda>_.
       Inr \<lparr>pd_number = number, pd_offset = offset, pd_size = nbytes, pd_sha = sha\<rparr>)"

record part_plan =
  pp_schema_version :: int
  pp_blob_size :: int
  pp_part_size :: int
  pp_parts :: "part_definition list"

definition definition_range :: "part_definition \<Rightarrow> part_range" where
  "definition_range p = (pd_number p, pd_offset p, pd_size p)"

definition mk_part_plan :: "int \<Rightarrow> int \<Rightarrow> int \<Rightarrow> part_definition list \<Rightarrow> part_plan res" where
  "mk_part_plan schema blob_size part_size parts =
     (if schema \<noteq> PART_PLAN_SCHEMA_VERSION then Inl ManifestMismatchError
      else if \<not> (MAX_SINGLE_PUT_BYTES < blob_size \<and> blob_size \<le> MAX_MULTIPART_BLOB_BYTES)
      then Inl ManifestMismatchError
      else res_bind (select_multipart_part_size blob_size) (\<lambda>selected.
        if part_size \<noteq> selected then Inl ManifestMismatchError
        else res_bind (validate_ranges blob_size part_size (map definition_range parts)) (\<lambda>_.
          Inr \<lparr>pp_schema_version = schema, pp_blob_size = blob_size, pp_part_size = part_size,
               pp_parts = parts\<rparr>)))"

definition build_part_plan :: "int \<Rightarrow> int \<Rightarrow> int \<Rightarrow> part_definition list \<Rightarrow> part_plan res" where
  "build_part_plan schema blob_size part_size parts =
     mk_part_plan schema blob_size part_size (sort_key pd_number parts)"

definition part_count :: "part_plan \<Rightarrow> int" where
  "part_count plan = int (length (pp_parts plan))"

section \<open>The part plan codec\<close>

definition part_json :: "part_definition \<Rightarrow> json" where
  "part_json p =
     JObj [(lit ''part_number'', JInt (pd_number p)), (lit ''offset_bytes'', JInt (pd_offset p)),
           (lit ''size_bytes'', JInt (pd_size p)), (lit ''sha256'', JStr (digest_value (pd_sha p)))]"

definition part_plan_json :: "part_plan \<Rightarrow> json" where
  "part_plan_json plan =
     JObj [(lit ''schema_version'', JInt (pp_schema_version plan)),
           (lit ''blob_size_bytes'', JInt (pp_blob_size plan)),
           (lit ''part_size_bytes'', JInt (pp_part_size plan)),
           (lit ''part_count'', JInt (part_count plan)),
           (lit ''parts'', JArr (map part_json (pp_parts plan)))]"

text \<open>The text is ASCII for every validated plan, so that encoding it cannot fail.\<close>

definition canonical_part_plan_bytes :: "part_plan \<Rightarrow> bytes res" where
  "canonical_part_plan_bytes plan = of_option PyUnicodeEncodeError (utf8_encode (dumps (part_plan_json plan)))"

definition part_plan_sha256 :: "part_plan \<Rightarrow> sha256_digest res" where
  "part_plan_sha256 plan =
     res_bind (canonical_part_plan_bytes plan) (\<lambda>b. mk_digest (sha256_hex b))"

fun reject_duplicates :: "(ustr \<times> json) list \<Rightarrow> (ustr \<times> json) list \<Rightarrow> json res" where
  "reject_duplicates result [] = Inr (JObj result)"
| "reject_duplicates result ((k, v) # ps) =
     (if k \<in> set (map fst result) then Inl ManifestMismatchError
      else reject_duplicates (result @ [(k, v)]) ps)"

definition unique_keys_hook :: pairs_hook where
  "unique_keys_hook = reject_duplicates []"

definition parse_part :: "json \<Rightarrow> part_definition res" where
  "parse_part item =
     (case item of
        JObj d \<Rightarrow>
          (if \<not> has_keys [''part_number'', ''offset_bytes'', ''size_bytes'', ''sha256''] d
           then Inl ManifestMismatchError
           else
             (case (field ''part_number'' d, field ''offset_bytes'' d,
                    field ''size_bytes'' d, field ''sha256'' d) of
                (JInt n, JInt off, JInt sz, JStr s) \<Rightarrow>
                  (case mk_digest s of
                     Inl e \<Rightarrow> Inl ManifestMismatchError
                   | Inr digest \<Rightarrow> mk_part_definition n off sz digest)
              | _ \<Rightarrow> Inl ManifestMismatchError))
      | _ \<Rightarrow> Inl ManifestMismatchError)"

definition parse_plan_payload :: "bytes \<Rightarrow> json \<Rightarrow> part_plan res" where
  "parse_plan_payload data payload =
     (case payload of
        JObj d \<Rightarrow>
          (if \<not> has_keys [''schema_version'', ''blob_size_bytes'', ''part_size_bytes'',
                           ''part_count'', ''parts''] d
           then Inl ManifestMismatchError
           else
             (case (field ''schema_version'' d, field ''blob_size_bytes'' d,
                    field ''part_size_bytes'' d, field ''part_count'' d,
                    field ''parts'' d) of
                (JInt schema, JInt blob_size, JInt part_size, JInt supplied_count, JArr items) \<Rightarrow>
                  res_bind (res_map parse_part items) (\<lambda>parts.
                  res_bind (build_part_plan schema blob_size part_size parts) (\<lambda>plan.
                    if supplied_count \<noteq> part_count plan then Inl ManifestMismatchError
                    else res_bind (canonical_part_plan_bytes plan) (\<lambda>canonical.
                      if canonical \<noteq> data then Inl ManifestMismatchError else Inr plan)))
              | _ \<Rightarrow> Inl ManifestMismatchError))
      | _ \<Rightarrow> Inl ManifestMismatchError)"

definition parse_canonical_part_plan :: "bytes \<Rightarrow> part_plan res" where
  "parse_canonical_part_plan data =
     (case utf8_decode data of
        None \<Rightarrow> Inl ManifestMismatchError
      | Some s \<Rightarrow>
          (case loads unique_keys_hook s of
             Inl e \<Rightarrow> (if e = PyJSONDecodeError then Inl ManifestMismatchError else Inl e)
           | Inr payload \<Rightarrow> parse_plan_payload data payload))"

section \<open>Checksums and receipts\<close>

definition sha256_digest_to_base64 :: "sha256_digest \<Rightarrow> ustr" where
  "sha256_digest_to_base64 d = b64_encode (digest_raw d)"

definition sha256_base64_to_digest :: "ustr \<Rightarrow> sha256_digest res" where
  "sha256_base64_to_digest value =
     (if \<exists>c \<in> set value. 128 \<le> c then Inl PartChecksumRejectedError
      else
        case b64_decode value of
          None \<Rightarrow> Inl PartChecksumRejectedError
        | Some raw \<Rightarrow>
            (if length raw \<noteq> 32 \<or> b64_encode raw \<noteq> value then Inl PartChecksumRejectedError
             else mk_digest (hex_encode raw)))"

record completed_part_receipt =
  cpr_number :: int
  cpr_etag :: ustr
  cpr_checksum :: ustr

definition mk_receipt :: "int \<Rightarrow> ustr \<Rightarrow> ustr \<Rightarrow> completed_part_receipt res" where
  "mk_receipt number etag checksum =
     (if \<not> (1 \<le> number \<and> number \<le> MAX_PARTS) then Inl ContentConflictError
      else if etag = [] then Inl ContentConflictError
      else res_bind (sha256_base64_to_digest checksum) (\<lambda>_.
        Inr \<lparr>cpr_number = number, cpr_etag = etag, cpr_checksum = checksum\<rparr>))"

definition validate_receipt :: "completed_part_receipt \<Rightarrow> sha256_digest \<Rightarrow> completed_part_receipt res" where
  "validate_receipt r expected =
     res_bind (sha256_base64_to_digest (cpr_checksum r)) (\<lambda>d.
       if d \<noteq> expected then Inl PartChecksumRejectedError else Inr r)"

definition receipt_from_upload_response ::
    "int \<Rightarrow> ustr \<Rightarrow> ustr \<Rightarrow> sha256_digest \<Rightarrow> completed_part_receipt res" where
  "receipt_from_upload_response number etag checksum expected =
     res_bind (mk_receipt number etag checksum) (\<lambda>r. validate_receipt r expected)"

section \<open>The part size\<close>

lemma ceil_div_le: "0 < p \<Longrightarrow> ceil_div n p \<le> m \<longleftrightarrow> n \<le> m * p"
proof -
  assume p: "0 < p"
  define q r where "q = (n + p - 1) div p" and "r = (n + p - 1) mod p"
  have e: "n + p - 1 = p * q + r" "0 \<le> r" "r < p"
    using p by (simp_all add: q_def r_def)
  have "q \<le> m \<Longrightarrow> p * q \<le> m * p" and "m + 1 \<le> q \<Longrightarrow> m * p + p \<le> p * q"
    using p mult_left_mono [of q m p] mult_left_mono [of "m + 1" q p] by (simp_all add: algebra_simps)
  then show ?thesis
    unfolding ceil_div_def q_def [symmetric] using e by linarith
qed

lemma ceil_div_eq:
  assumes "0 < p" and "(c - 1) * p < n" and "n \<le> c * p"
  shows "ceil_div n p = c"
  using ceil_div_le [OF assms(1), of n c] ceil_div_le [OF assms(1), of n "c - 1"] assms(2,3) by linarith

lemma ceil_div_pos: "0 < p \<Longrightarrow> 0 < n \<Longrightarrow> 1 \<le> ceil_div n p"
  using ceil_div_le [of p n 0] by simp

lemma ceil_div_lower: "0 < p \<Longrightarrow> (ceil_div n p - 1) * p < n"
  using ceil_div_le [of p n "ceil_div n p - 1"] by simp

lemma ceil_div_upper: "0 < p \<Longrightarrow> n \<le> ceil_div n p * p"
  using ceil_div_le [of p n "ceil_div n p"] by simp

lemma select_loop_step:
  "0 < p \<Longrightarrow> n \<le> MAX_PARTS * p \<Longrightarrow> select_loop n p = Inr p"
  "0 < p \<Longrightarrow> MAX_PARTS * p < n \<Longrightarrow> p * 2 \<le> MAX_PART_BYTES \<Longrightarrow> select_loop n p = select_loop n (p * 2)"
  using ceil_div_le [of p n MAX_PARTS] by (simp_all add: select_loop.simps [of n p])

definition protocol_part_size :: "int \<Rightarrow> int" where
  "protocol_part_size n =
     (if n \<le> MAX_PARTS * BASE_PART_BYTES then BASE_PART_BYTES
      else if n \<le> MAX_PARTS * (BASE_PART_BYTES * 2) then BASE_PART_BYTES * 2
      else if n \<le> MAX_PARTS * (BASE_PART_BYTES * 4) then BASE_PART_BYTES * 4
      else BASE_PART_BYTES * 8)"

lemma select_part_size_closed:
  "n \<le> MAX_MULTIPART_BLOB_BYTES \<Longrightarrow> select_part_size n = Inr (protocol_part_size n)"
  using select_loop_step [of BASE_PART_BYTES n] select_loop_step [of "BASE_PART_BYTES * 2" n]
    select_loop_step [of "BASE_PART_BYTES * 4" n] select_loop_step [of "BASE_PART_BYTES * 8" n]
  by (simp add: select_part_size_def protocol_part_size_def limit_defs)

lemma protocol_part_size_bounds:
  "BASE_PART_BYTES \<le> protocol_part_size n" "protocol_part_size n \<le> MAX_PART_BYTES"
  "n \<le> MAX_MULTIPART_BLOB_BYTES \<Longrightarrow> n \<le> MAX_PARTS * protocol_part_size n"
  by (simp_all add: protocol_part_size_def limit_defs)

lemma protocol_part_size_pos [simp]: "0 < protocol_part_size n"
  using protocol_part_size_bounds(1) [of n] by (simp add: limit_defs)

text \<open>
  C9: The part size loop answers for every admissible blob size, after at most three
  doublings: the result is the smallest power-of-two multiple of 64 MiB that needs at most
  10,000 parts, and it stays below the provider's limit of 5 GiB.
\<close>

theorem select_part_size_minimal:
  assumes "0 < n" and "n \<le> MAX_MULTIPART_BLOB_BYTES"
  shows "\<exists>k \<le> 3. select_part_size n = Inr (BASE_PART_BYTES * 2 ^ k)
     \<and> ceil_div n (BASE_PART_BYTES * 2 ^ k) \<le> MAX_PARTS
     \<and> (\<forall>j < k. MAX_PARTS < ceil_div n (BASE_PART_BYTES * 2 ^ j))
     \<and> BASE_PART_BYTES * 2 ^ k \<le> MAX_PART_BYTES"
proof -
  have B: "0 < BASE_PART_BYTES * 2 ^ j" for j by (simp add: limit_defs)
  define k :: nat where "k = (if n \<le> MAX_PARTS * BASE_PART_BYTES then 0
      else if n \<le> MAX_PARTS * (BASE_PART_BYTES * 2) then 1
      else if n \<le> MAX_PARTS * (BASE_PART_BYTES * 4) then 2 else 3)"
  have k: "k \<le> 3" "protocol_part_size n = BASE_PART_BYTES * 2 ^ k"
    by (simp_all add: k_def protocol_part_size_def)
  have "MAX_PARTS * (BASE_PART_BYTES * 2 ^ j) < n" if "j < k" for j
  proof -
    from that k(1) consider "j = 0" | "j = 1" | "j = 2" by linarith
    then show ?thesis using that by cases (auto simp: k_def limit_defs split: if_splits)
  qed
  then have "MAX_PARTS < ceil_div n (BASE_PART_BYTES * 2 ^ j)" if "j < k" for j
    using that ceil_div_le [OF B, of n j MAX_PARTS] by (simp add: not_le [symmetric])
  moreover have "ceil_div n (BASE_PART_BYTES * 2 ^ k) \<le> MAX_PARTS"
    using protocol_part_size_bounds(3) [OF assms(2)] ceil_div_le [OF B] k(2) by metis
  ultimately show ?thesis
    using k select_part_size_closed [OF assms(2)] protocol_part_size_bounds(2) [of n] by auto
qed

theorem select_part_size_minimal_witness:
  "\<exists>k \<le> 3. select_part_size 5000000000000 = Inr (BASE_PART_BYTES * 2 ^ k)"
  using select_part_size_minimal [of 5000000000000] by (auto simp: limit_defs)

section \<open>Ranges\<close>

definition range_at :: "int \<Rightarrow> int \<Rightarrow> int \<Rightarrow> part_range" where
  "range_at n p i = (i, (i - 1) * p, min p (n - (i - 1) * p))"

definition ranges :: "int \<Rightarrow> int \<Rightarrow> part_range list" where
  "ranges n p = map (range_at n p) [1..ceil_div n p]"

lemma range_loop_from:
  assumes p: "0 < p" and c: "(c - 1) * p < n" "n \<le> c * p"
  shows "i \<le> c \<Longrightarrow> range_loop p c i ((i - 1) * p) (map (range_at n p) [i..c]) = Inr n"
proof (induction "nat (c - i)" arbitrary: i)
  case 0
  then have "i = c" by simp
  moreover have "n - (c - 1) * p \<le> p" using c by (simp add: algebra_simps)
  ultimately show ?case by (simp add: range_at_def)
next
  case (Suc k)
  then have i: "i < c" and k: "k = nat (c - (i + 1))" by linarith+
  have "i * p \<le> (c - 1) * p" using i p by (intro mult_right_mono) auto
  then have full: "p \<le> n - (i - 1) * p" using c by (simp add: algebra_simps)
  have "range_loop p c (i + 1) ((i + 1 - 1) * p) (map (range_at n p) [i + 1..c]) = Inr n"
    using Suc(1) [OF k] i by simp
  moreover have "(i - 1) * p + p = (i + 1 - 1) * p" by (simp add: algebra_simps)
  moreover have "[i..c] = i # [i + 1..c]" using i by (simp add: upto_rec1)
  ultimately show ?case using full i by (simp add: range_at_def min_def)
qed

lemma length_ranges: "int (length (ranges n p)) = max 0 (ceil_div n p)"
  by (simp add: ranges_def)

lemma validate_ranges_ok:
  assumes "0 < p" and "0 < n" and "n \<le> MAX_PARTS * p"
  shows "validate_ranges n p (ranges n p) = Inr ()"
proof -
  have c: "1 \<le> ceil_div n p" "ceil_div n p \<le> MAX_PARTS"
    using assms ceil_div_pos ceil_div_le by auto
  then have "range_loop p (ceil_div n p) 1 ((1 - 1) * p) (ranges n p) = Inr n"
    unfolding ranges_def
    by (intro range_loop_from assms ceil_div_lower ceil_div_upper) auto
  moreover have "ranges n p \<noteq> []" using c by (simp add: ranges_def)
  ultimately show ?thesis using c by (simp add: validate_ranges_def length_ranges)
qed

lemma range_loop_unique:
  assumes p: "0 < p"
  shows "range_loop p c i ((i - 1) * p) rs = Inr n \<Longrightarrow> int (length rs) = c - i + 1 \<Longrightarrow>
     rs \<noteq> [] \<Longrightarrow> \<forall>(num, off, sz) \<in> set rs. 0 < sz \<Longrightarrow>
     rs = map (range_at n p) [i..c] \<and> (c - 1) * p < n \<and> n \<le> c * p"
proof (induction rs arbitrary: i)
  case (Cons r rs)
  obtain num off sz where r: "r = (num, off, sz)" by (cases r)
  from Cons.prems r have eq: "num = i" "off = (i - 1) * p" "sz \<le> p" "i < c \<longrightarrow> sz = p" "0 < sz"
    and rest: "range_loop p c (i + 1) ((i - 1) * p + sz) rs = Inr n"
    by (auto split: if_splits)
  show ?case
  proof (cases "rs = []")
    case True
    with Cons.prems have "i = c" by simp
    moreover have "n = (i - 1) * p + sz" using rest True by simp
    ultimately show ?thesis using eq True r by (auto simp: range_at_def algebra_simps)
  next
    case False
    then have i: "i < c" using Cons.prems(2) by (cases rs) auto
    then have "(i - 1) * p + sz = (i + 1 - 1) * p" using eq by (simp add: algebra_simps)
    then have IH: "rs = map (range_at n p) [i + 1..c] \<and> (c - 1) * p < n \<and> n \<le> c * p"
      using Cons.IH [of "i + 1"] rest Cons.prems False by simp
    have "i * p \<le> (c - 1) * p" using i p by (intro mult_right_mono) auto
    then have "p \<le> n - (i - 1) * p" using IH by (simp add: algebra_simps)
    then have "r = range_at n p i" using r eq i by (simp add: range_at_def)
    moreover have "[i..c] = i # [i + 1..c]" using i by (simp add: upto_rec1)
    ultimately show ?thesis using IH by simp
  qed
qed simp

lemma validate_ranges_unique:
  assumes "0 < p" and "validate_ranges n p rs = Inr ()" and "\<forall>(num, off, sz) \<in> set rs. 0 < sz"
  shows "rs = ranges n p"
proof -
  from assms(2) have ne: "rs \<noteq> []" and l: "range_loop p (int (length rs)) 1 ((1 - 1) * p) rs = Inr n"
    by (auto simp: validate_ranges_def res_bind_eq_Inr split: if_splits)
  have "rs = map (range_at n p) [1..int (length rs)] \<and> (int (length rs) - 1) * p < n
      \<and> n \<le> int (length rs) * p"
    using range_loop_unique [OF assms(1) l _ ne assms(3)] by simp
  then show ?thesis using ceil_div_eq [OF assms(1)] by (metis ranges_def)
qed


section \<open>Boundary plans\<close>

definition plan_of :: "int \<Rightarrow> multipart_plan" where
  "plan_of n =
     \<lparr>mpl_blob_size = n, mpl_part_size = protocol_part_size n,
      mpl_parts = map (\<lambda>(num, off, sz). \<lparr>mp_number = num, mp_offset = off, mp_size = sz\<rparr>)
                    (ranges n (protocol_part_size n))\<rparr>"

lemma range_at_valid:
  assumes "0 < p" and "n \<le> MAX_PARTS * p" and "1 \<le> i" and "i \<le> ceil_div n p"
  shows "mk_multipart_part i ((i - 1) * p) (min p (n - (i - 1) * p))
    = Inr \<lparr>mp_number = i, mp_offset = (i - 1) * p, mp_size = min p (n - (i - 1) * p)\<rparr>"
    and "0 < min p (n - (i - 1) * p)"
proof -
  have "(i - 1) * p \<le> (ceil_div n p - 1) * p" using assms by (intro mult_right_mono) auto
  then have off: "(i - 1) * p < n" using ceil_div_lower [OF assms(1), of n] by linarith
  have i: "i \<le> MAX_PARTS" using assms ceil_div_le [OF assms(1), of n MAX_PARTS] by linarith
  have nonneg: "0 \<le> (i - 1) * p" using assms by (intro mult_nonneg_nonneg) auto
  have part: "mk_multipart_part i k (min p (n - k))
      = Inr \<lparr>mp_number = i, mp_offset = k, mp_size = min p (n - k)\<rparr>"
    if "0 \<le> k" "k < n" for k
    using that i assms(1,3) by (simp add: mk_multipart_part_def)
  show "mk_multipart_part i ((i - 1) * p) (min p (n - (i - 1) * p))
    = Inr \<lparr>mp_number = i, mp_offset = (i - 1) * p, mp_size = min p (n - (i - 1) * p)\<rparr>"
    by (rule part [OF nonneg off])
  show "0 < min p (n - (i - 1) * p)" using assms(1) off by simp
qed

lemma plan_part_boundaries_ok:
  assumes n: "0 < n" "n \<le> MAX_MULTIPART_BLOB_BYTES"
  shows "plan_part_boundaries n = Inr (plan_of n)"
proof -
  let ?p = "protocol_part_size n"
  let ?parts = "mpl_parts (plan_of n)"
  have p: "0 < ?p" "n \<le> MAX_PARTS * ?p" using protocol_part_size_bounds(3) n by simp_all
  have "res_map (\<lambda>i. mk_multipart_part i ((i - 1) * ?p) (min ?p (n - (i - 1) * ?p)))
      [1..ceil_div n ?p] = Inr (map (\<lambda>i. \<lparr>mp_number = i, mp_offset = (i - 1) * ?p,
         mp_size = min ?p (n - (i - 1) * ?p)\<rparr>) [1..ceil_div n ?p])"
    by (rule res_map_all_Inr) (use range_at_valid(1) [OF p] in simp)
  moreover have "map (\<lambda>i. \<lparr>mp_number = i, mp_offset = (i - 1) * ?p,
         mp_size = min ?p (n - (i - 1) * ?p)\<rparr>) [1..ceil_div n ?p] = ?parts"
    by (simp add: plan_of_def ranges_def range_at_def)
  moreover have "map part_range ?parts = ranges n ?p"
    by (simp add: plan_of_def comp_def part_range_def case_prod_unfold)
  moreover have "validate_ranges n ?p (ranges n ?p) = Inr ()" by (rule validate_ranges_ok [OF p(1) n(1) p(2)])
  ultimately show ?thesis
    using n protocol_part_size_bounds [of n]
    by (simp add: plan_part_boundaries_def select_part_size_closed mk_multipart_plan_def)
       (simp add: plan_of_def)
qed

lemma ranges_cover:
  assumes p: "0 < p" and b: "0 \<le> b" "b < n"
  shows "\<exists>!i. 1 \<le> i \<and> i \<le> ceil_div n p
     \<and> (i - 1) * p \<le> b \<and> b < (i - 1) * p + min p (n - (i - 1) * p)"
proof (rule ex1I)
  let ?i = "b div p + 1"
  have m: "b div p * p \<le> b" "b < b div p * p + p"
    using div_mult_mod_eq [of b p] pos_mod_sign [OF p, of b] pos_mod_bound [OF p, of b]
    by linarith+
  have "b div p < ceil_div n p"
  proof (rule ccontr)
    assume "\<not> b div p < ceil_div n p"
    then have "ceil_div n p * p \<le> b div p * p" using p by (intro mult_right_mono) auto
    with m(1) b ceil_div_upper [OF p, of n] show False by linarith
  qed
  then show "1 \<le> ?i \<and> ?i \<le> ceil_div n p \<and> (?i - 1) * p \<le> b
      \<and> b < (?i - 1) * p + min p (n - (?i - 1) * p)"
    using m b p by (auto simp: min_def pos_imp_zdiv_nonneg_iff)
  fix i assume i: "1 \<le> i \<and> i \<le> ceil_div n p
     \<and> (i - 1) * p \<le> b \<and> b < (i - 1) * p + min p (n - (i - 1) * p)"
  then have "(i - 1) * p \<le> b" "b < i * p" by (auto simp: algebra_simps)
  then have "b div p = i - 1"
    by (intro int_div_pos_eq [of _ _ _ "b - (i - 1) * p"]) (auto simp: algebra_simps)
  then show "i = ?i" by simp
qed


text \<open>
  C8: Every blob size up to the protocol maximum has a boundary plan, and its parts tile the
  blob: each byte of the blob lies in exactly one part.
\<close>

theorem boundary_plan_covers_once:
  assumes "0 < n" and "n \<le> MAX_MULTIPART_BLOB_BYTES"
  shows "\<exists>plan. plan_part_boundaries n = Inr plan
     \<and> mpl_blob_size plan = n
     \<and> (\<forall>b. 0 \<le> b \<and> b < n \<longrightarrow>
          (\<exists>!part. part \<in> set (mpl_parts plan)
             \<and> mp_offset part \<le> b \<and> b < mp_offset part + mp_size part))"
proof (intro exI conjI allI impI)
  let ?p = "protocol_part_size n"
  let ?part = "\<lambda>i. \<lparr>mp_number = i, mp_offset = (i - 1) * ?p, mp_size = min ?p (n - (i - 1) * ?p)\<rparr>"
  show "plan_part_boundaries n = Inr (plan_of n)" using assms by (rule plan_part_boundaries_ok)
  show "mpl_blob_size (plan_of n) = n" by (simp add: plan_of_def)
  have parts: "set (mpl_parts (plan_of n)) = ?part ` {1..ceil_div n ?p}"
    by (auto simp: plan_of_def ranges_def range_at_def image_iff)
  fix b assume "0 \<le> b \<and> b < n"
  then obtain i where i: "1 \<le> i" "i \<le> ceil_div n ?p" "(i - 1) * ?p \<le> b"
      "b < (i - 1) * ?p + min ?p (n - (i - 1) * ?p)"
    and uniq: "\<And>j. 1 \<le> j \<and> j \<le> ceil_div n ?p \<and> (j - 1) * ?p \<le> b
        \<and> b < (j - 1) * ?p + min ?p (n - (j - 1) * ?p) \<Longrightarrow> j = i"
    using ranges_cover [of ?p b n] by (auto elim!: ex1E)
  show "\<exists>!part. part \<in> set (mpl_parts (plan_of n))
      \<and> mp_offset part \<le> b \<and> b < mp_offset part + mp_size part"
  proof (rule ex1I)
    show "?part i \<in> set (mpl_parts (plan_of n))
      \<and> mp_offset (?part i) \<le> b \<and> b < mp_offset (?part i) + mp_size (?part i)"
      unfolding parts using i by (intro conjI imageI) simp_all
    fix part assume a: "part \<in> set (mpl_parts (plan_of n))
      \<and> mp_offset part \<le> b \<and> b < mp_offset part + mp_size part"
    then obtain j where j: "part = ?part j" "1 \<le> j" "j \<le> ceil_div n ?p" by (auto simp: parts)
    then have "j = i" using a by (intro uniq) simp
    then show "part = ?part i" using j by simp
  qed
qed

theorem boundary_plan_covers_once_witness:
  "\<exists>plan. plan_part_boundaries 5000000001 = Inr plan \<and> mpl_blob_size plan = 5000000001"
  using boundary_plan_covers_once [of 5000000001] by (auto simp: limit_defs)

section \<open>Part plans\<close>

lemma mk_part_plan_Inr:
  assumes "mk_part_plan schema n p parts = Inr plan"
  shows "plan = \<lparr>pp_schema_version = 1, pp_blob_size = n, pp_part_size = protocol_part_size n,
                 pp_parts = parts\<rparr>"
    and "schema = 1" and "p = protocol_part_size n"
    and "MAX_SINGLE_PUT_BYTES < n" and "n \<le> MAX_MULTIPART_BLOB_BYTES"
    and "validate_ranges n p (map definition_range parts) = Inr ()"
  using assms
  by (auto simp: mk_part_plan_def res_bind_eq_Inr select_multipart_part_size_def
      select_part_size_closed PART_PLAN_SCHEMA_VERSION_def split: if_splits)

lemma validate_length:
  "validate_ranges n p rs = Inr () \<Longrightarrow> int (length rs) \<le> MAX_PARTS"
  by (auto simp: validate_ranges_def split: if_splits)

lemma range_loop_error: "range_loop p c i k rs = Inl e \<Longrightarrow> e = ManifestMismatchError"
  by (induction p c i k rs rule: range_loop.induct) (auto split: if_splits)

lemma mk_part_plan_error: "mk_part_plan schema n p parts = Inl e \<Longrightarrow> e = ManifestMismatchError"
  by (auto simp: mk_part_plan_def select_multipart_part_size_def select_part_size_closed validate_ranges_def
      res_bind_eq_Inl dest: range_loop_error split: if_splits)

text \<open>The planner's answer with the ranges of some definitions as its parts.\<close>

definition boundaries_of :: "int \<Rightarrow> int \<Rightarrow> part_definition list \<Rightarrow> multipart_plan" where
  "boundaries_of n p parts =
     \<lparr>mpl_blob_size = n, mpl_part_size = p,
      mpl_parts = map (\<lambda>d. \<lparr>mp_number = pd_number d, mp_offset = pd_offset d, mp_size = pd_size d\<rparr>) parts\<rparr>"

lemma boundaries_plan_of:
  "boundaries_of n p parts = plan_of n
     \<longleftrightarrow> p = protocol_part_size n \<and> map definition_range parts = ranges n (protocol_part_size n)"
proof -
  have "map (\<lambda>d. \<lparr>mp_number = pd_number d, mp_offset = pd_offset d, mp_size = pd_size d\<rparr>) parts
      = map (\<lambda>(num, off, sz). \<lparr>mp_number = num, mp_offset = off, mp_size = sz\<rparr>) (map definition_range parts)"
    by (simp add: definition_range_def comp_def)
  moreover have "inj (\<lambda>(num, off, sz). \<lparr>mp_number = num, mp_offset = off, mp_size = sz\<rparr>)"
    by (auto simp: inj_def)
  ultimately show ?thesis
    by (auto simp: boundaries_of_def plan_of_def simp del: map_map dest!: map_injective)
qed

text \<open>
  C7: The validation of a part plan is the planner run backwards: of parts of positive size it accepts
  exactly those whose numbers, offsets and sizes the planner computes for a multipart blob of that
  size, with the planner's part size and the current schema version, and it takes them as they are;
  everything else is refused with \<^verbatim>\<open>ManifestMismatchError\<close>. So two accepted plans of one blob differ
  at most in the expected digests.
\<close>

theorem part_plan_ranges_determined:
  assumes "\<forall>d \<in> set parts. 0 < pd_size d"
  shows "(mk_part_plan schema n p parts = Inr plan \<longleftrightarrow>
       schema = PART_PLAN_SCHEMA_VERSION
       \<and> plan_multipart n
          = Inr \<lparr>mpl_blob_size = n, mpl_part_size = p,
                 mpl_parts = map (\<lambda>d. \<lparr>mp_number = pd_number d, mp_offset = pd_offset d,
                                       mp_size = pd_size d\<rparr>) parts\<rparr>
       \<and> plan = \<lparr>pp_schema_version = schema, pp_blob_size = n, pp_part_size = p, pp_parts = parts\<rparr>)
     \<and> (\<forall>e. mk_part_plan schema n p parts = Inl e \<longrightarrow> e = ManifestMismatchError)"
  unfolding boundaries_of_def [symmetric]
proof (intro conjI iffI)
  assume "mk_part_plan schema n p parts = Inr plan"
  note ok = mk_part_plan_Inr [OF this]
  have "map definition_range parts = ranges n (protocol_part_size n)"
    by (rule validate_ranges_unique) (use ok assms in \<open>auto simp: definition_range_def\<close>)
  then have "boundaries_of n p parts = plan_of n" using ok(3) by (simp add: boundaries_plan_of)
  moreover have "plan_multipart n = Inr (plan_of n)"
    using ok(4,5) plan_part_boundaries_ok [of n]
    by (simp add: plan_multipart_def select_multipart_part_size_def select_part_size_closed limit_defs)
  ultimately show "schema = PART_PLAN_SCHEMA_VERSION" "plan_multipart n = Inr (boundaries_of n p parts)"
      "plan = \<lparr>pp_schema_version = schema, pp_blob_size = n, pp_part_size = p, pp_parts = parts\<rparr>"
    using ok(1-3) by (simp_all add: PART_PLAN_SCHEMA_VERSION_def)
next
  assume a: "schema = PART_PLAN_SCHEMA_VERSION \<and> plan_multipart n = Inr (boundaries_of n p parts)
    \<and> plan = \<lparr>pp_schema_version = schema, pp_blob_size = n, pp_part_size = p, pp_parts = parts\<rparr>"
  then have n: "MAX_SINGLE_PUT_BYTES < n" "n \<le> MAX_MULTIPART_BLOB_BYTES"
    by (auto simp: plan_multipart_def select_multipart_part_size_def split: if_splits)
  then have "0 < n" by (simp add: limit_defs)
  then have "boundaries_of n p parts = plan_of n"
    using a n plan_part_boundaries_ok [of n] by (auto simp: plan_multipart_def res_bind_eq_Inr)
  then have "p = protocol_part_size n" "map definition_range parts = ranges n (protocol_part_size n)"
    by (simp_all add: boundaries_plan_of)
  moreover have "validate_ranges n (protocol_part_size n) (ranges n (protocol_part_size n)) = Inr ()"
    using protocol_part_size_bounds(3) n(2) \<open>0 < n\<close> by (intro validate_ranges_ok) simp_all
  ultimately show "mk_part_plan schema n p parts = Inr plan"
    using a n by (simp add: mk_part_plan_def select_multipart_part_size_def select_part_size_closed)
qed (use mk_part_plan_error in blast)

definition sample_definitions :: "part_definition list" where
  "sample_definitions =
     map (\<lambda>(num, off, sz). \<lparr>pd_number = num, pd_offset = off, pd_size = sz,
                              pd_sha = content_digest []\<rparr>)
       (ranges 5000000001 (protocol_part_size 5000000001))"

definition sample_plan :: part_plan where
  "sample_plan =
     \<lparr>pp_schema_version = 1, pp_blob_size = 5000000001,
      pp_part_size = protocol_part_size 5000000001, pp_parts = sample_definitions\<rparr>"

lemma sample_ranges: "map definition_range sample_definitions
    = ranges 5000000001 (protocol_part_size 5000000001)"
  by (simp add: sample_definitions_def definition_range_def comp_def case_prod_unfold)

lemma sample_plan_ok:
  "mk_part_plan 1 5000000001 (protocol_part_size 5000000001) sample_definitions = Inr sample_plan"
proof -
  have "validate_ranges 5000000001 (protocol_part_size 5000000001)
      (ranges 5000000001 (protocol_part_size 5000000001)) = Inr ()"
    by (rule validate_ranges_ok) (simp_all add: protocol_part_size_def limit_defs)
  then show ?thesis
    by (simp add: mk_part_plan_def select_multipart_part_size_def select_part_size_closed
        sample_ranges sample_plan_def limit_defs)
qed

lemma ranges_positive:
  "0 < n \<Longrightarrow> n \<le> MAX_MULTIPART_BLOB_BYTES \<Longrightarrow> p = protocol_part_size n \<Longrightarrow>
     (num, off, sz) \<in> set (ranges n p) \<Longrightarrow> mk_multipart_part num off sz
       = Inr \<lparr>mp_number = num, mp_offset = off, mp_size = sz\<rparr> \<and> 0 < sz"
  using range_at_valid [of p n num] protocol_part_size_bounds(3) [of n]
  by (auto simp: ranges_def range_at_def)

theorem part_plan_ranges_determined_witness:
  "\<exists>plan. plan_multipart 5000000001 = Inr plan \<and> mpl_part_size plan = protocol_part_size 5000000001
     \<and> mk_part_plan 2 5000000001 (protocol_part_size 5000000001) sample_definitions = Inl ManifestMismatchError"
proof -
  have pos: "\<forall>d \<in> set sample_definitions. 0 < pd_size d"
    using ranges_positive [of 5000000001]
    by (auto simp: sample_definitions_def limit_defs)
  note exact = part_plan_ranges_determined [OF pos, of _ 5000000001 "protocol_part_size 5000000001"]
  have "mk_part_plan 2 5000000001 (protocol_part_size 5000000001) sample_definitions \<noteq> Inr plan" for plan
    using exact [of 2 plan] by (simp add: PART_PLAN_SCHEMA_VERSION_def)
  then have "mk_part_plan 2 5000000001 (protocol_part_size 5000000001) sample_definitions = Inl ManifestMismatchError"
    using exact [of 2] by (cases "mk_part_plan 2 5000000001 (protocol_part_size 5000000001) sample_definitions") auto
  then show ?thesis using exact [of 1 sample_plan] sample_plan_ok by auto
qed

section \<open>The codec\<close>

lemma reject_duplicates_distinct:
  "distinct (map fst (r @ ms)) \<Longrightarrow> reject_duplicates r ms = Inr (JObj (r @ ms))"
proof (induction ms arbitrary: r)
  case (Cons m ms)
  then show ?case using Cons.IH [of "r @ [m]"] by (cases m) auto
qed simp

lemma unique_keys_hook_keeps [simp]: "keeps_dicts unique_keys_hook"
  by (simp add: keeps_dicts_def unique_keys_hook_def reject_duplicates_distinct)

definition wf_plan :: "part_plan \<Rightarrow> bool" where
  "wf_plan plan \<longleftrightarrow>
     mk_part_plan (pp_schema_version plan) (pp_blob_size plan) (pp_part_size plan) (pp_parts plan)
       = Inr plan
     \<and> (\<forall>d \<in> set (pp_parts plan). 0 < pd_size d \<and> wf_digest (pd_sha d))"

lemma wf_plan_ranges:
  assumes "wf_plan plan"
  shows "map definition_range (pp_parts plan) = ranges (pp_blob_size plan) (pp_part_size plan)"
    and "0 < pp_blob_size plan" and "pp_blob_size plan \<le> MAX_MULTIPART_BLOB_BYTES"
    and "pp_part_size plan = protocol_part_size (pp_blob_size plan)"
    and "pp_schema_version plan = 1"
    and "int (length (pp_parts plan)) \<le> MAX_PARTS"
proof -
  from assms have mk: "mk_part_plan (pp_schema_version plan) (pp_blob_size plan) (pp_part_size plan)
      (pp_parts plan) = Inr plan" by (simp add: wf_plan_def)
  note ok = mk_part_plan_Inr [OF mk]
  show "map definition_range (pp_parts plan) = ranges (pp_blob_size plan) (pp_part_size plan)"
    by (rule validate_ranges_unique)
       (use ok assms in \<open>auto simp: definition_range_def wf_plan_def\<close>)
  show "0 < pp_blob_size plan" "pp_blob_size plan \<le> MAX_MULTIPART_BLOB_BYTES"
    "pp_part_size plan = protocol_part_size (pp_blob_size plan)" "pp_schema_version plan = 1"
    using ok by (simp_all add: limit_defs)
  show "int (length (pp_parts plan)) \<le> MAX_PARTS" using validate_length [OF ok(6)] by simp
qed

lemma small_int_fits: "0 \<le> i \<Longrightarrow> i \<le> MAX_MULTIPART_BLOB_BYTES \<Longrightarrow> int_fits i"
proof -
  have len: "n < 10 ^ k \<Longrightarrow> 0 < k \<Longrightarrow> length (nat_str n) \<le> k" for n k :: nat
  proof (induction k arbitrary: n)
    case (Suc k)
    show ?case
    proof (cases "n < 10")
      case True
      then show ?thesis by (simp add: nat_str.simps [of n])
    next
      case False
      then have "0 < k" using Suc.prems by (cases k) auto
      moreover have "n div 10 < 10 ^ k" using Suc.prems by (simp add: div_less_iff_less_mult mult.commute)
      ultimately show ?thesis using Suc.IH [of "n div 10"] False by (simp add: nat_str.simps [of n])
    qed
  qed simp
  assume "0 \<le> i" "i \<le> MAX_MULTIPART_BLOB_BYTES"
  then have "nat \<bar>i\<bar> < 10 ^ 13" by (simp add: limit_defs)
  from len [OF this] show "int_fits i" by (simp add: int_fits_def max_int_digits_def)
qed

lemma ranges_bounds:
  assumes "0 < p" "(num, off, sz) \<in> set (ranges n p)" "n \<le> MAX_PARTS * p"
  shows "0 \<le> num" "num \<le> MAX_PARTS" "0 \<le> off" "off \<le> n" "0 < sz" "sz \<le> n"
proof -
  from assms(2) have i: "1 \<le> num" "num \<le> ceil_div n p" "off = (num - 1) * p"
    "sz = min p (n - (num - 1) * p)" by (auto simp: ranges_def range_at_def)
  have "(num - 1) * p \<le> (ceil_div n p - 1) * p" using i assms(1) by (intro mult_right_mono) auto
  then have lt: "off < n" using ceil_div_lower [OF assms(1), of n] i(3) by linarith
  have "0 \<le> (num - 1) * p" using i assms(1) by (intro mult_nonneg_nonneg) auto
  then have off: "0 \<le> off" using i(3) by simp
  have sz: "sz = min p (n - off)" using i by simp
  show "0 \<le> off" "off \<le> n" "0 < sz" "sz \<le> n" using off lt assms(1) by (simp_all add: sz)
  show "0 \<le> num" "num \<le> MAX_PARTS"
    using i ceil_div_le [OF assms(1), of n MAX_PARTS] assms(3) by linarith+
qed

lemma part_plan_writable:
  assumes "wf_plan plan"
  shows "writable (part_plan_json plan)"
proof -
  note r = wf_plan_ranges [OF assms]
  have pb: "pp_blob_size plan \<le> MAX_PARTS * pp_part_size plan" "0 < pp_part_size plan"
    using r protocol_part_size_bounds(3) by simp_all
  have "writable (part_json d)" if "d \<in> set (pp_parts plan)" for d
  proof -
    from that have "definition_range d \<in> set (ranges (pp_blob_size plan) (pp_part_size plan))"
      using r(1) by (metis image_eqI list.set_map)
    then have "(pd_number d, pd_offset d, pd_size d) \<in> set (ranges (pp_blob_size plan) (pp_part_size plan))"
      by (simp add: definition_range_def)
    from ranges_bounds [OF pb(2) this pb(1)] show ?thesis
      using r(3) by (simp add: part_json_def small_int_fits limit_defs)
  qed
  moreover have "0 \<le> part_count plan" "part_count plan \<le> MAX_MULTIPART_BLOB_BYTES"
    using r(6) by (simp_all add: part_count_def limit_defs)
  moreover have "pp_part_size plan \<le> MAX_MULTIPART_BLOB_BYTES"
    using r(4) protocol_part_size_bounds(2) [of "pp_blob_size plan"] by (simp add: limit_defs)
  ultimately show ?thesis
    using r pb by (auto simp: part_plan_json_def small_int_fits limit_defs)
qed


text \<open>Text made of ASCII strings is ASCII.\<close>

definition ascii :: "ustr \<Rightarrow> bool" where
  "ascii s \<longleftrightarrow> (\<forall>c \<in> set s. c < 128)"

lemma ascii_simps [simp]:
  "ascii []" "ascii (c # s) \<longleftrightarrow> c < 128 \<and> ascii s" "ascii (s @ t) \<longleftrightarrow> ascii s \<and> ascii t"
  by (auto simp: ascii_def)

fun json_ascii :: "json \<Rightarrow> bool" where
  "json_ascii (JStr s) = ascii s"
| "json_ascii (JArr vs) = (\<forall>v \<in> set vs. json_ascii v)"
| "json_ascii (JObj ms) = (\<forall>m \<in> set ms. ascii (fst m) \<and> json_ascii (snd m))"
| "json_ascii (JFloat m e) = False"
| "json_ascii JNonFinite = False"
| "json_ascii v = True"

lemma esc_char_ascii: "c < 128 \<Longrightarrow> ascii (esc_char c)"
proof -
  have "n < 16 \<Longrightarrow> hex_char n < 128" for n by (simp add: hex_char_def)
  moreover have "c < 128 \<Longrightarrow> c div 16 < 16" by linarith
  ultimately show "c < 128 \<Longrightarrow> ascii (esc_char c)" by (simp add: esc_char_def)
qed

lemma dumps_str_ascii: "ascii s \<Longrightarrow> ascii (dumps_str s)"
proof -
  assume "ascii s"
  then have "ascii (concat (map esc_char s))" by (induction s) (simp_all add: esc_char_ascii)
  then show ?thesis by (simp add: dumps_str_def)
qed

lemma digits_ascii: "(\<And>c. c \<in> set s \<Longrightarrow> is_digit c) \<Longrightarrow> ascii s"
  unfolding ascii_def is_digit_def by fastforce

lemma int_str_ascii: "ascii (int_str i)"
  using digits_ascii [OF nat_str_digits] by (simp add: int_str_def)

lemma dumps_ascii:
  shows "json_ascii j \<Longrightarrow> ascii (dumps j)"
    and "\<forall>v \<in> set vs. json_ascii v \<Longrightarrow> ascii (dumps_items vs)"
    and "\<forall>m \<in> set ms. ascii (fst m) \<and> json_ascii (snd m) \<Longrightarrow> ascii (dumps_members ms)"
  by (induction j and vs and ms rule: dumps_dumps_items_dumps_members.induct)
     (simp_all add: dumps_str_ascii int_str_ascii)

lemma digest_ascii: "wf_digest d \<Longrightarrow> ascii (digest_value d)"
  unfolding wf_digest_iff ascii_def by (auto simp: hex_val_def split: if_splits dest: bspec)

lemma part_plan_ascii: "wf_plan plan \<Longrightarrow> json_ascii (part_plan_json plan)"
  by (auto simp: part_plan_json_def part_json_def wf_plan_def digest_ascii)

lemma canonical_part_plan_ok:
  assumes "wf_plan plan"
  shows "\<exists>b. canonical_part_plan_bytes plan = Inr b \<and> utf8_decode b = Some (dumps (part_plan_json plan))"
proof -
  have "\<forall>c \<in> set (dumps (part_plan_json plan)). c < 0x80"
    using dumps_ascii(1) [OF part_plan_ascii [OF assms]] by (simp add: ascii_def)
  then obtain b where "utf8_encode (dumps (part_plan_json plan)) = Some b"
    using utf8_encode_ascii by blast
  then show ?thesis using utf8_roundtrip by (simp add: canonical_part_plan_bytes_def)
qed

lemma parse_part_json:
  assumes "mk_multipart_part (pd_number d) (pd_offset d) (pd_size d) = Inr part"
    and "wf_digest (pd_sha d)"
  shows "parse_part (part_json d) = Inr d"
  using assms
  by (simp add: parse_part_def part_json_def has_keys_def field_def mk_digest_wf
      mk_part_definition_def)

lemma parse_parts:
  "(\<And>d. d \<in> set ds \<Longrightarrow> parse_part (part_json d) = Inr d) \<Longrightarrow>
     res_map parse_part (map part_json ds) = Inr ds"
  by (induction ds) simp_all

lemma wf_plan_sorted: "wf_plan plan \<Longrightarrow> sort_key pd_number (pp_parts plan) = pp_parts plan"
proof -
  assume "wf_plan plan"
  then have "map pd_number (pp_parts plan) = [1..ceil_div (pp_blob_size plan) (pp_part_size plan)]"
    using wf_plan_ranges(1) [of plan]
    by (auto simp: ranges_def definition_range_def range_at_def list_eq_iff_nth_eq)
  then show ?thesis by (intro sort_key_id_if_sorted) simp
qed

lemma parse_canonical:
  assumes wf: "wf_plan plan" and b: "canonical_part_plan_bytes plan = Inr b"
  shows "parse_canonical_part_plan b = Inr plan"
proof -
  note r = wf_plan_ranges [OF wf]
  have dec: "utf8_decode b = Some (dumps (part_plan_json plan))"
    using canonical_part_plan_ok [OF wf] b by auto
  have load: "loads unique_keys_hook (dumps (part_plan_json plan)) = Inr (part_plan_json plan)"
    by (rule loads_dumps [OF part_plan_writable [OF wf]]) simp
  have "parse_part (part_json d) = Inr d" if d: "d \<in> set (pp_parts plan)" for d
  proof (rule parse_part_json)
    from d have "definition_range d \<in> set (ranges (pp_blob_size plan) (pp_part_size plan))"
      using r(1) by (metis image_eqI list.set_map)
    then show "mk_multipart_part (pd_number d) (pd_offset d) (pd_size d)
        = Inr \<lparr>mp_number = pd_number d, mp_offset = pd_offset d, mp_size = pd_size d\<rparr>"
      using ranges_positive [OF r(2,3,4)] by (simp add: definition_range_def)
    show "wf_digest (pd_sha d)" using wf d by (simp add: wf_plan_def)
  qed
  then have "res_map parse_part (map part_json (pp_parts plan)) = Inr (pp_parts plan)"
    by (rule parse_parts)
  moreover have "build_part_plan (pp_schema_version plan) (pp_blob_size plan) (pp_part_size plan)
      (pp_parts plan) = Inr plan"
    using wf by (simp add: build_part_plan_def wf_plan_sorted) (simp add: wf_plan_def)
  ultimately have "parse_plan_payload b (part_plan_json plan) = Inr plan"
    using b by (simp add: parse_plan_payload_def part_plan_json_def has_keys_def field_def)
  then show ?thesis by (simp add: parse_canonical_part_plan_def dec load)
qed


text \<open>
  C5: The part plan codec loses nothing: every validated plan encodes, and parsing its bytes
  returns the plan.
\<close>

theorem part_plan_roundtrip:
  assumes "wf_plan plan"
  shows "\<exists>b. canonical_part_plan_bytes plan = Inr b \<and> parse_canonical_part_plan b = Inr plan"
  using canonical_part_plan_ok [OF assms] parse_canonical [OF assms] by blast

lemma sample_plan_wf: "wf_plan sample_plan"
proof -
  have "\<forall>d \<in> set sample_definitions. 0 < pd_size d \<and> wf_digest (pd_sha d)"
    using ranges_positive [of 5000000001]
    by (auto simp: sample_definitions_def limit_defs)
  then show ?thesis using sample_plan_ok by (simp add: wf_plan_def sample_plan_def)
qed

theorem part_plan_roundtrip_witness:
  "\<exists>b. canonical_part_plan_bytes sample_plan = Inr b \<and> parse_canonical_part_plan b = Inr sample_plan"
  by (rule part_plan_roundtrip [OF sample_plan_wf])

lemma mk_part_definition_Inr:
  "mk_part_definition num off sz sha = Inr d \<Longrightarrow>
     d = \<lparr>pd_number = num, pd_offset = off, pd_size = sz, pd_sha = sha\<rparr> \<and> 0 < sz"
  by (auto simp: mk_part_definition_def mk_multipart_part_def res_bind_eq_Inr split: if_splits)

lemma parse_part_Inr: "parse_part item = Inr d \<Longrightarrow> 0 < pd_size d \<and> wf_digest (pd_sha d)"
  by (auto simp: parse_part_def mk_digest_Inr split: json.splits if_splits sum.splits
      dest!: mk_part_definition_Inr)

lemma parse_plan_payload_Inr:
  assumes "parse_plan_payload data payload = Inr plan"
  shows "canonical_part_plan_bytes plan = Inr data \<and> wf_plan plan"
proof -
  from assms obtain items ds schema n p where
    ds: "res_map parse_part items = Inr ds" and mk: "mk_part_plan schema n p (sort_key pd_number ds) = Inr plan"
    and c: "canonical_part_plan_bytes plan = Inr data"
    by (auto simp: parse_plan_payload_def build_part_plan_def res_bind_eq_Inr
        split: json.splits if_splits)
  have "\<forall>d \<in> set ds. 0 < pd_size d \<and> wf_digest (pd_sha d)"
    by (rule res_map_all [OF ds parse_part_Inr])
  with c mk show ?thesis using mk_part_plan_Inr [OF mk] by (simp add: wf_plan_def)
qed

text \<open>
  C6: A part plan the parser accepts is canonical: it encodes to exactly the bytes received,
  so equal plan digests mean equal bytes were frozen, and it is valid, with positive ranges
  and well-formed digests.
\<close>

theorem accepted_part_plan_canonical:
  assumes "parse_canonical_part_plan data = Inr plan"
  shows "canonical_part_plan_bytes plan = Inr data \<and> wf_plan plan
     \<and> part_plan_sha256 plan = Inr (content_digest data)"
proof -
  from assms obtain payload where "parse_plan_payload data payload = Inr plan"
    by (auto simp: parse_canonical_part_plan_def split: option.splits sum.splits if_splits)
  from parse_plan_payload_Inr [OF this] show ?thesis by (simp add: part_plan_sha256_def)
qed

theorem accepted_part_plan_canonical_witness:
  "\<exists>b. canonical_part_plan_bytes sample_plan = Inr b
     \<and> part_plan_sha256 sample_plan = Inr (content_digest b)"
proof -
  obtain b where "canonical_part_plan_bytes sample_plan = Inr b"
    "parse_canonical_part_plan b = Inr sample_plan"
    using canonical_part_plan_ok [OF sample_plan_wf] parse_canonical [OF sample_plan_wf] by blast
  with accepted_part_plan_canonical [of b sample_plan] show ?thesis by blast
qed

section \<open>Checksums\<close>

lemma checksum_decoded:
  "sha256_base64_to_digest v = Inr d \<longleftrightarrow> wf_digest d \<and> sha256_digest_to_base64 d = v"
proof
  assume a: "wf_digest d \<and> sha256_digest_to_base64 d = v"
  then have v: "v = b64_encode (digest_raw d)" by (simp add: sha256_digest_to_base64_def)
  then have "\<forall>c \<in> set v. c < 128" using b64_encode_chars by fastforce
  moreover have "mk_digest (hex_encode (digest_raw d)) = Inr d"
    using a digest_hex(2) [of d] by (simp add: mk_digest_wf)
  ultimately show "sha256_base64_to_digest v = Inr d"
    using a digest_hex(3) [of d] v by (auto simp: sha256_base64_to_digest_def not_le)
next
  assume "sha256_base64_to_digest v = Inr d"
  then obtain raw where raw: "length raw = 32" "b64_encode raw = v" "mk_digest (hex_encode raw) = Inr d"
    by (auto simp: sha256_base64_to_digest_def split: if_splits option.splits)
  then have "d = Sha256Digest (hex_encode raw)" "wf_digest d" using mk_digest_Inr by blast+
  then show "wf_digest d \<and> sha256_digest_to_base64 d = v"
    using raw(2) by (auto simp: sha256_digest_to_base64_def)
qed

lemma checksum_refused: "sha256_base64_to_digest v = Inl e \<Longrightarrow> e = PartChecksumRejectedError"
  using hex_digest_wf by (auto simp: sha256_base64_to_digest_def split: if_splits option.splits)

text \<open>
  The Base64 form of a digest is read back, and a checksum the provider returns is
  accepted only when it is the canonical Base64 of a digest: decoding is the partial inverse
  of encoding, every other text is refused with one error.
\<close>

theorem base64_digest_inverse:
  "(wf_digest d \<and> sha256_digest_to_base64 d = v) = (sha256_base64_to_digest v = Inr d)
   \<and> (\<forall>e. sha256_base64_to_digest v = Inl e \<longrightarrow> e = PartChecksumRejectedError)"
  using checksum_decoded checksum_refused by auto

theorem base64_digest_inverse_witness:
  "sha256_base64_to_digest (sha256_digest_to_base64 (content_digest [])) = Inr (content_digest [])"
  using base64_digest_inverse [of "content_digest []" "sha256_digest_to_base64 (content_digest [])"]
  by simp

lemma receipt_Inr:
  assumes "receipt_from_upload_response num etag chk expected = Inr r"
  shows "r = \<lparr>cpr_number = num, cpr_etag = etag, cpr_checksum = chk\<rparr>"
    and "1 \<le> num" "num \<le> MAX_PARTS" "etag \<noteq> []" "sha256_base64_to_digest chk = Inr expected"
  using assms
  by (auto simp: receipt_from_upload_response_def mk_receipt_def validate_receipt_def
      res_bind_eq_Inr split: if_splits)

end
