(* ===== verification/Records.thy ===== *)
theory Records
  imports PartPlan Idempotency
begin

text \<open>
  The immutable records of \<^verbatim>\<open>robolake/domain/records.py\<close> and the validation their constructors
  do. A Python \<^verbatim>\<open>datetime\<close> is an instant (microseconds) with or without a time zone; only the
  records that check \<^verbatim>\<open>tzinfo\<close> keep the distinction. Nothing here reads the clock.
\<close>

section \<open>Registry records\<close>

datatype datetime = Aware (instant: int) | Naive (instant: int)

definition require_aware :: "datetime \<Rightarrow> unit res" where
  "require_aware t = (case t of Aware _ \<Rightarrow> Inr () | Naive _ \<Rightarrow> Inl ContentConflictError)"

record dataset_record =
  dsr_id :: uuid
  dsr_name :: dataset_name

record blob_record =
  blr_id :: uuid
  blr_sha :: sha256_digest
  blr_size :: int
  blr_object_key :: ustr
  blr_state :: blob_state
  blr_failure_code :: "failure_code option"

record upload_session_record =
  usr_id :: uuid
  usr_blob_id :: uuid
  usr_initiating_version_id :: uuid
  usr_state :: session_state
  usr_etag :: "ustr option"

record version_record =
  vsr_id :: uuid
  vsr_dataset_id :: uuid
  vsr_dataset_name :: dataset_name
  vsr_number :: int
  vsr_manifest_sha :: sha256_digest
  vsr_state :: version_state
  vsr_file_count :: int
  vsr_logical_bytes :: int
  vsr_unique_blob_count :: int
  vsr_unique_blob_bytes :: int
  vsr_failure_code :: "failure_code option"
  vsr_failure_detail :: "ustr option"

definition version_reference :: "version_record \<Rightarrow> dataset_reference" where
  "version_reference v = \<lparr>dr_dataset = vsr_dataset_name v, dr_version_number = vsr_number v\<rparr>"

definition version_is_empty :: "version_record \<Rightarrow> bool" where
  "version_is_empty v = (vsr_file_count v = 0)"

section \<open>Status of a version\<close>

record snapshot_status =
  sns_file_count :: int
  sns_logical_bytes :: int
  sns_ready_file_count :: int
  sns_ready_logical_bytes :: int

definition mk_snapshot_status :: "int \<Rightarrow> int \<Rightarrow> int \<Rightarrow> int \<Rightarrow> snapshot_status res" where
  "mk_snapshot_status files logical ready_files ready_logical =
     (if \<exists>v \<in> {files, logical, ready_files, ready_logical}. v < 0 then Inl ContentConflictError
      else if files < ready_files \<or> logical < ready_logical then Inl ContentConflictError
      else Inr \<lparr>sns_file_count = files, sns_logical_bytes = logical,
                sns_ready_file_count = ready_files, sns_ready_logical_bytes = ready_logical\<rparr>)"

record content_status =
  cns_unique_count :: int
  cns_unique_bytes :: int
  cns_available_count :: int
  cns_available_bytes :: int

definition mk_content_status :: "int \<Rightarrow> int \<Rightarrow> int \<Rightarrow> int \<Rightarrow> content_status res" where
  "mk_content_status blobs nbytes available_blobs available_bytes =
     (if \<exists>v \<in> {blobs, nbytes, available_blobs, available_bytes}. v < 0 then Inl ContentConflictError
      else if blobs < available_blobs \<or> nbytes < available_bytes then Inl ContentConflictError
      else Inr \<lparr>cns_unique_count = blobs, cns_unique_bytes = nbytes,
                cns_available_count = available_blobs, cns_available_bytes = available_bytes\<rparr>)"

record version_status =
  vst_version :: version_record
  vst_snapshot :: snapshot_status
  vst_content :: content_status
  vst_blocking :: "failure_code option"

definition status_next_action :: "version_status \<Rightarrow> next_action" where
  "status_next_action s =
     (if vst_blocking s = Some FC_STORED_OBJECT_MISMATCH then NA_CONTACT_OPERATOR
      else if vsr_state (vst_version s) = V_READY then NA_NONE
      else if vsr_state (vst_version s) = V_VERIFYING then NA_RETRY_STATUS
      else NA_RETRY_PUSH)"

section \<open>Multipart records\<close>

record multipart_session_record =
  msr_id :: uuid
  msr_blob_id :: uuid
  msr_initiating_version_id :: uuid
  msr_generation :: int
  msr_state :: multipart_state
  msr_part_plan :: part_plan
  msr_provider_upload_id :: "ustr option"
  msr_completion_phase :: "completion_phase option"
  msr_failure_code :: "multipart_failure option"

record upload_part_record =
  upr_session_id :: uuid
  upr_definition :: part_definition
  upr_state :: part_state
  upr_receipt :: "completed_part_receipt option"

record provider_part =
  ppo_number :: int
  ppo_size :: int
  ppo_etag :: ustr
  ppo_checksum :: ustr

definition mk_provider_part :: "int \<Rightarrow> int \<Rightarrow> ustr \<Rightarrow> ustr \<Rightarrow> provider_part res" where
  "mk_provider_part number nbytes etag checksum =
     (if number \<le> 0 \<or> nbytes \<le> 0 \<or> etag = [] then Inl ContentConflictError
      else res_bind (sha256_base64_to_digest checksum) (\<lambda>_.
        Inr \<lparr>ppo_number = number, ppo_size = nbytes, ppo_etag = etag, ppo_checksum = checksum\<rparr>))"

record reconciliation_result =
  prr_attribution :: part_attribution
  prr_part_count :: int
  prr_part_bytes :: int

definition mk_reconciliation :: "part_attribution \<Rightarrow> int \<Rightarrow> int \<Rightarrow> reconciliation_result res" where
  "mk_reconciliation a n b =
     (if n < 0 \<or> b < 0 then Inl ContentConflictError
      else Inr \<lparr>prr_attribution = a, prr_part_count = n, prr_part_bytes = b\<rparr>)"

text \<open>The result strings of a provider completion; any other string is \<open>OTHER_RESULT\<close>.\<close>

datatype completion_result =
    AMBIGUOUS | CONFLICT_409 | EMBEDDED_ERROR | NO_SUCH_UPLOAD | OTHER_RESULT ustr

record partial_evidence =
  pce_reason :: recovery_reason
  pce_absence_at :: datetime
  pce_reconciled_at :: datetime
  pce_parts :: "provider_part list"
  pce_result :: "completion_result option"

definition allowed_results :: "recovery_reason \<Rightarrow> completion_result option list" where
  "allowed_results r =
     (case r of
        RR_PARTS_READY \<Rightarrow> [None, Some AMBIGUOUS, Some EMBEDDED_ERROR]
      | RR_PARTS_PARTIAL \<Rightarrow> [None, Some AMBIGUOUS, Some EMBEDDED_ERROR]
      | RR_CONDITIONAL_409 \<Rightarrow> [None, Some CONFLICT_409]
      | RR_MULTIPART_SESSION_NOT_FOUND \<Rightarrow> [None, Some NO_SUCH_UPLOAD])"

definition invalidating :: "recovery_reason \<Rightarrow> bool" where
  "invalidating r = (r \<in> {RR_CONDITIONAL_409, RR_MULTIPART_SESSION_NOT_FOUND})"

definition mk_partial_evidence ::
    "recovery_reason \<Rightarrow> datetime \<Rightarrow> datetime \<Rightarrow> provider_part list \<Rightarrow> completion_result option
       \<Rightarrow> partial_evidence res" where
  "mk_partial_evidence reason absence reconciled parts result =
     res_bind (require_aware absence) (\<lambda>_.
     res_bind (require_aware reconciled) (\<lambda>_.
       if result \<notin> set (allowed_results reason) then Inl ContentConflictError
       else if invalidating reason \<and> parts \<noteq> [] then Inl ContentConflictError
       else Inr \<lparr>pce_reason = reason, pce_absence_at = absence, pce_reconciled_at = reconciled,
                 pce_parts = parts, pce_result = result\<rparr>))"

definition persisted_completion_result :: "partial_evidence \<Rightarrow> completion_result" where
  "persisted_completion_result e =
     (case pce_result e of
        Some r \<Rightarrow> r
      | None \<Rightarrow>
          (if pce_reason e = RR_CONDITIONAL_409 then CONFLICT_409
           else if pce_reason e = RR_MULTIPART_SESSION_NOT_FOUND then NO_SUCH_UPLOAD
           else AMBIGUOUS))"

record hashed_plan =
  hmp_plan :: part_plan
  hmp_sha :: sha256_digest

definition mk_hashed_plan :: "part_plan \<Rightarrow> sha256_digest \<Rightarrow> hashed_plan res" where
  "mk_hashed_plan plan sha =
     res_bind (part_plan_sha256 plan) (\<lambda>actual.
       if actual \<noteq> sha then Inl ContentConflictError
       else Inr \<lparr>hmp_plan = plan, hmp_sha = sha\<rparr>)"

definition hashed_plan_from :: "part_plan \<Rightarrow> hashed_plan res" where
  "hashed_plan_from plan = res_bind (part_plan_sha256 plan) (\<lambda>sha. mk_hashed_plan plan sha)"

record multipart_context =
  mpc_session :: multipart_session_record
  mpc_blob :: blob_record
  mpc_parts :: "upload_part_record list"

record recovery_outcome =
  rco_action :: recovery_action
  rco_context :: multipart_context

section \<open>Leases, completion and evidence\<close>

record admission_record =
  adr_session_id :: uuid
  adr_invocation_id :: uuid
  adr_owner_id :: uuid
  adr_epoch :: int
  adr_expires_at :: datetime
  adr_renewed_at :: datetime

definition mk_admission_record ::
    "uuid \<Rightarrow> uuid \<Rightarrow> uuid \<Rightarrow> int \<Rightarrow> datetime \<Rightarrow> datetime \<Rightarrow> admission_record res" where
  "mk_admission_record s i w e expires renewed =
     res_bind (mk_admission_epoch e) (\<lambda>epoch.
     res_bind (require_aware expires) (\<lambda>_.
     res_bind (require_aware renewed) (\<lambda>_.
       Inr \<lparr>adr_session_id = s, adr_invocation_id = i, adr_owner_id = w, adr_epoch = epoch,
            adr_expires_at = expires, adr_renewed_at = renewed\<rparr>)))"

record completion_record =
  cor_session_id :: uuid
  cor_owner_id :: uuid
  cor_epoch :: int
  cor_expires_at :: datetime
  cor_heartbeat_at :: datetime

definition mk_completion_record ::
    "uuid \<Rightarrow> uuid \<Rightarrow> int \<Rightarrow> datetime \<Rightarrow> datetime \<Rightarrow> completion_record res" where
  "mk_completion_record s w e expires heartbeat =
     res_bind (mk_completion_epoch e) (\<lambda>epoch.
     res_bind (require_aware expires) (\<lambda>_.
     res_bind (require_aware heartbeat) (\<lambda>_.
       Inr \<lparr>cor_session_id = s, cor_owner_id = w, cor_epoch = epoch,
            cor_expires_at = expires, cor_heartbeat_at = heartbeat\<rparr>)))"

record accepted_completion =
  acp_request_id :: uuid
  acp_session_id :: uuid
  acp_http_status :: int

record completion_claim =
  ccl_session_id :: uuid
  ccl_lease :: completion_record
  ccl_phase :: completion_phase

record verification_evidence =
  vev_method :: verification_method
  vev_sha :: sha256_digest
  vev_size :: int
  vev_read :: int
  vev_completed_at :: datetime
  vev_verifier :: ustr

definition mk_verification_evidence ::
    "verification_method \<Rightarrow> sha256_digest \<Rightarrow> int \<Rightarrow> int \<Rightarrow> datetime \<Rightarrow> ustr
       \<Rightarrow> verification_evidence res" where
  "mk_verification_evidence m sha nbytes nread completed verifier =
     res_bind (require_aware completed) (\<lambda>_.
       if nbytes < 0 \<or> nread < 0 then Inl ContentConflictError
       else if verifier = [] \<or> 128 < length verifier then Inl ContentConflictError
       else Inr \<lparr>vev_method = m, vev_sha = sha, vev_size = nbytes, vev_read = nread,
                 vev_completed_at = completed, vev_verifier = verifier\<rparr>)"

definition validate_evidence ::
    "verification_evidence \<Rightarrow> sha256_digest \<Rightarrow> int \<Rightarrow> verification_evidence res" where
  "validate_evidence e digest nbytes =
     (if vev_method e \<noteq> FULL_STREAM_SHA256 then Inl ContentConflictError
      else if vev_sha e \<noteq> digest \<or> vev_size e \<noteq> nbytes \<or> vev_read e \<noteq> nbytes
      then Inl ContentConflictError
      else Inr e)"

lemma validate_evidence_Inr:
  "validate_evidence e digest nbytes = Inr x \<longleftrightarrow>
     x = e \<and> vev_sha e = digest \<and> vev_size e = nbytes \<and> vev_read e = nbytes"
  by (cases "vev_method e") (auto simp: validate_evidence_def)

lemma require_aware_Inr [simp]: "require_aware t = Inr u \<longleftrightarrow> (\<exists>i. t = Aware i)"
  by (cases t) (auto simp: require_aware_def)

end
