(* ===== verification/Rows.thy ===== *)
theory Rows
  imports Records
begin

text \<open>
  The rows of the registry database, one record per mapped class of
  \<^verbatim>\<open>robolake/infrastructure/models.py\<close>, with the columns the migrations create, and the
  comparisons of SQL. Enumerated text columns, whose CHECK lists their values, have the enum as
  their type; a nullable column is an option; an instant is an integer of microseconds.
\<close>

section \<open>SQL comparisons\<close>

text \<open>
  A comparison with NULL is unknown. A guard \<^verbatim>\<open>IF c THEN RAISE\<close> fires when \<open>c\<close> is surely true;
  a CHECK passes when its condition is not surely false. Both readings distribute over AND and
  OR, and the negation of a condition is surely true when the condition may not hold.
  \<^verbatim>\<open>a IS DISTINCT FROM b\<close> is plain inequality of options.
\<close>

definition surely :: "('a \<Rightarrow> bool) \<Rightarrow> 'a option \<Rightarrow> bool" where
  "surely p x = (case x of None \<Rightarrow> False | Some v \<Rightarrow> p v)"

definition perhaps :: "('a \<Rightarrow> bool) \<Rightarrow> 'a option \<Rightarrow> bool" where
  "perhaps p x = (case x of None \<Rightarrow> True | Some v \<Rightarrow> p v)"

definition perhaps_equal :: "'a option \<Rightarrow> 'a option \<Rightarrow> bool" where
  "perhaps_equal x y = (x = None \<or> y = None \<or> x = y)"

lemma surely_simps [simp]: "surely p None = False" "surely p (Some v) = p v"
  by (simp_all add: surely_def)

lemma perhaps_simps [simp]: "perhaps p None = True" "perhaps p (Some v) = p v"
  by (simp_all add: perhaps_def)

lemma perhaps_equal_simps [simp]: "perhaps_equal (Some a) (Some b) = (a = b)"
  by (simp add: perhaps_equal_def)

text \<open>The ranges of \<^verbatim>\<open>integer\<close> and \<^verbatim>\<open>bigint\<close> columns.\<close>

definition int4 :: "int \<Rightarrow> bool" where
  "int4 n = (- (2 ^ 31) \<le> n \<and> n < 2 ^ 31)"

definition int8 :: "int \<Rightarrow> bool" where
  "int8 n = (- (2 ^ 63) \<le> n \<and> n < 2 ^ 63)"

text \<open>The pattern \<^verbatim>\<open>^[0-9a-f]{64}$\<close>, \<^verbatim>\<open>octet_length\<close> and the column widths.\<close>

definition sha_text :: "ustr \<Rightarrow> bool" where
  "sha_text s = (length s = 64 \<and> (\<forall>c \<in> set s. hex_val c \<noteq> None))"

definition octets_at_most :: "nat \<Rightarrow> ustr \<Rightarrow> bool" where
  "octets_at_most n s = (case utf8_encode s of None \<Rightarrow> False | Some b \<Rightarrow> length b \<le> n)"

definition varchar :: "nat \<Rightarrow> ustr \<Rightarrow> bool" where
  "varchar n s = (length s \<le> n)"

lemma sha_text_wf: "sha_text s \<longleftrightarrow> wf_digest (Sha256Digest s)"
  by (simp add: sha_text_def wf_digest_iff)

lemma sha_text_parse: "sha_text s \<Longrightarrow> mk_digest s = Inr (Sha256Digest s)"
  using mk_digest_wf [of "Sha256Digest s"] by (simp add: sha_text_wf)

lemma parse_sha_text: "mk_digest s = Inr d \<Longrightarrow> sha_text s \<and> d = Sha256Digest s"
  by (auto simp: sha_text_wf mk_digest_Inr)

section \<open>Rows\<close>

record dataset_row =
  ds_id :: uuid
  ds_name :: ustr
  ds_created_at :: int

record version_row =
  dv_id :: uuid
  dv_dataset_id :: uuid
  dv_number :: int
  dv_schema_version :: int
  dv_manifest_bytes :: bytes
  dv_manifest_sha :: ustr
  dv_state :: version_state
  dv_file_count :: int
  dv_logical_bytes :: int
  dv_unique_blob_count :: int
  dv_unique_blob_bytes :: int
  dv_failure_code :: "failure_code option"
  dv_failure_detail :: "ustr option"
  dv_created_at :: int
  dv_sealed_at :: "int option"
  dv_verifying_at :: "int option"
  dv_ready_at :: "int option"

record blob_row =
  bl_id :: uuid
  bl_sha :: ustr
  bl_size :: int
  bl_object_key :: ustr
  bl_state :: blob_state
  bl_failure_code :: "failure_code option"
  bl_failure_detail :: "ustr option"
  bl_created_at :: int
  bl_verified_at :: "int option"

record entry_row =
  de_version_id :: uuid
  de_ordinal :: int
  de_path :: ustr
  de_blob_id :: uuid

datatype upload_strategy = SINGLE_PUT | MULTIPART

text \<open>
  The states of both strategies share one column, so a single-PUT session uses four of the
  multipart states.
\<close>

record session_row =
  us_id :: uuid
  us_blob_id :: uuid
  us_version_id :: uuid
  us_strategy :: upload_strategy
  us_state :: multipart_state
  us_etag :: "ustr option"
  us_generation :: "int option"
  us_provider_id :: "ustr option"
  us_part_size :: "int option"
  us_part_count :: "int option"
  us_plan_schema :: "int option"
  us_plan_sha :: "ustr option"
  us_initiation_started_at :: "int option"
  us_initiation_ambiguous_at :: "int option"
  us_completion_requested_at :: "int option"
  us_completion_reason :: "completion_reason option"
  us_completion_phase :: "completion_phase option"
  us_completion_attempted_at :: "int option"
  us_completion_result :: "completion_result option"
  us_reconciled_at :: "int option"
  us_absence_at :: "int option"
  us_invalidated_at :: "int option"
  us_verification_method :: "verification_method option"
  us_observed_sha :: "ustr option"
  us_observed_size :: "int option"
  us_read_bytes :: "int option"
  us_verification_started_at :: "int option"
  us_verification_completed_at :: "int option"
  us_verifier :: "ustr option"
  us_abort_requested_at :: "int option"
  us_failure_code :: "multipart_failure option"
  us_failure_detail :: "ustr option"
  us_created_at :: int
  us_last_activity_at :: int
  us_completed_at :: "int option"

text \<open>The values of \<^verbatim>\<open>last_error_code\<close> the code writes.\<close>

datatype part_error =
    PART_NOT_PRESENT | PART_SIZE_MISMATCH | PART_CHECKSUM_REJECTED
  | PART_RECEIPT_MISSING | PART_RECEIPT_MISMATCH

record part_row =
  up_session_id :: uuid
  up_number :: int
  up_offset :: int
  up_size :: int
  up_sha :: ustr
  up_state :: part_state
  up_response_etag :: "ustr option"
  up_response_checksum :: "ustr option"
  up_received_at :: "int option"
  up_listed_etag :: "ustr option"
  up_listed_checksum :: "ustr option"
  up_listed_size :: "int option"
  up_listed_at :: "int option"
  up_issued_at :: "int option"
  up_expires_at :: "int option"
  up_issue_count :: int
  up_uploaded_at :: "int option"
  up_verified_at :: "int option"
  up_error :: "part_error option"
  up_created_at :: int

record admission_row =
  al_session_id :: uuid
  al_invocation_id :: uuid
  al_owner_id :: uuid
  al_epoch :: int
  al_acquired_at :: int
  al_renewed_at :: int
  al_expires_at :: int

record completion_row =
  cl_session_id :: uuid
  cl_owner_id :: uuid
  cl_epoch :: int
  cl_acquired_at :: int
  cl_renewed_at :: int
  cl_expires_at :: int

text \<open>
  The scopes of idempotency records and the JSON documents stored with them, as values: the
  identifiers and instants the code writes into each document and reads back.
\<close>

datatype idem_scope =
    DATASET_CREATE | VERSION_REGISTER | UPLOAD_SESSION_CREATE
  | MULTIPART_SESSION_RESOLVE | MULTIPART_ADMISSION_ACQUIRE | MULTIPART_COMPLETION_ACCEPT

datatype resource_type = RT_DATASET | RT_DATASET_VERSION | RT_UPLOAD_SESSION

datatype response =
    RespDataset uuid ustr
  | RespVersion uuid uuid int
  | RespUpload uuid
  | RespMultipart uuid
  | RespAdmission uuid uuid uuid int datetime datetime
  | RespCompletion uuid multipart_state

record idem_row =
  ik_scope :: idem_scope
  ik_key :: ustr
  ik_request_sha :: ustr
  ik_resource_type :: "resource_type option"
  ik_resource_id :: "uuid option"
  ik_http_status :: "int option"
  ik_response :: "response option"
  ik_created_at :: int

text \<open>
  A database: its tables and the queue of deferred constraint triggers, which is empty between
  transactions.
\<close>

datatype deferred = RequireSealed uuid | RequirePublication uuid

record db =
  db_datasets :: "dataset_row list"
  db_versions :: "version_row list"
  db_blobs :: "blob_row list"
  db_entries :: "entry_row list"
  db_sessions :: "session_row list"
  db_parts :: "part_row list"
  db_admissions :: "admission_row list"
  db_completions :: "completion_row list"
  db_idem :: "idem_row list"
  db_deferred :: "deferred list"

definition empty_db :: db where
  "empty_db = \<lparr>db_datasets = [], db_versions = [], db_blobs = [], db_entries = [],
     db_sessions = [], db_parts = [], db_admissions = [], db_completions = [], db_idem = [],
     db_deferred = []\<rparr>"

definition get_dataset :: "db \<Rightarrow> uuid \<Rightarrow> dataset_row option" where
  "get_dataset d i = tab_get ds_id i (db_datasets d)"

definition get_version :: "db \<Rightarrow> uuid \<Rightarrow> version_row option" where
  "get_version d i = tab_get dv_id i (db_versions d)"

definition get_blob :: "db \<Rightarrow> uuid \<Rightarrow> blob_row option" where
  "get_blob d i = tab_get bl_id i (db_blobs d)"

definition get_session :: "db \<Rightarrow> uuid \<Rightarrow> session_row option" where
  "get_session d i = tab_get us_id i (db_sessions d)"

definition get_admission :: "db \<Rightarrow> uuid \<Rightarrow> admission_row option" where
  "get_admission d i = tab_get al_session_id i (db_admissions d)"

definition get_completion :: "db \<Rightarrow> uuid \<Rightarrow> completion_row option" where
  "get_completion d i = tab_get cl_session_id i (db_completions d)"

definition part_key :: "part_row \<Rightarrow> uuid \<times> int" where
  "part_key p = (up_session_id p, up_number p)"

definition get_part :: "db \<Rightarrow> uuid \<Rightarrow> int \<Rightarrow> part_row option" where
  "get_part d s n = tab_get part_key (s, n) (db_parts d)"

definition idem_key :: "idem_row \<Rightarrow> idem_scope \<times> ustr" where
  "idem_key r = (ik_scope r, ik_key r)"

definition get_idem :: "db \<Rightarrow> idem_scope \<Rightarrow> ustr \<Rightarrow> idem_row option" where
  "get_idem d s k = tab_get idem_key (s, k) (db_idem d)"

text \<open>The rows of one version, session or blob.\<close>

definition entries_of :: "db \<Rightarrow> uuid \<Rightarrow> entry_row list" where
  "entries_of d v = filter (\<lambda>e. de_version_id e = v) (db_entries d)"

definition parts_of :: "db \<Rightarrow> uuid \<Rightarrow> part_row list" where
  "parts_of d s = filter (\<lambda>p. up_session_id p = s) (db_parts d)"

definition sessions_of :: "db \<Rightarrow> uuid \<Rightarrow> session_row list" where
  "sessions_of d b = filter (\<lambda>s. us_blob_id s = b) (db_sessions d)"

text \<open>The entries joined with their blobs.\<close>

definition joined :: "db \<Rightarrow> uuid \<Rightarrow> (entry_row \<times> blob_row) list" where
  "joined d v =
     concat (map (\<lambda>e. case get_blob d (de_blob_id e) of None \<Rightarrow> [] | Some b \<Rightarrow> [(e, b)])
               (entries_of d v))"

lemmas get_defs = get_dataset_def get_version_def get_blob_def get_session_def get_admission_def
  get_completion_def get_part_def get_idem_def

lemma get_id:
  "get_dataset d i = Some x1 \<Longrightarrow> ds_id x1 = i \<and> x1 \<in> set (db_datasets d)"
  "get_version d i = Some x2 \<Longrightarrow> dv_id x2 = i \<and> x2 \<in> set (db_versions d)"
  "get_blob d i = Some x3 \<Longrightarrow> bl_id x3 = i \<and> x3 \<in> set (db_blobs d)"
  "get_session d i = Some x4 \<Longrightarrow> us_id x4 = i \<and> x4 \<in> set (db_sessions d)"
  "get_admission d i = Some x5 \<Longrightarrow> al_session_id x5 = i \<and> x5 \<in> set (db_admissions d)"
  "get_completion d i = Some x6 \<Longrightarrow> cl_session_id x6 = i \<and> x6 \<in> set (db_completions d)"
  "get_part d i n = Some x7 \<Longrightarrow> up_session_id x7 = i \<and> up_number x7 = n \<and> x7 \<in> set (db_parts d)"
  "get_idem d s k = Some x8 \<Longrightarrow> ik_scope x8 = s \<and> ik_key x8 = k \<and> x8 \<in> set (db_idem d)"
  by (auto simp: get_defs part_key_def idem_key_def dest: tab_get_Some)

lemma joined_mem:
  "(e, b) \<in> set (joined d v) \<longleftrightarrow>
     e \<in> set (db_entries d) \<and> de_version_id e = v \<and> get_blob d (de_blob_id e) = Some b"
  by (auto simp: joined_def entries_of_def split: option.splits)

end
