(* ===== verification/Schema.thy ===== *)
theory Schema
  imports Rows
begin

text \<open>
  What PostgreSQL enforces: the CHECK, UNIQUE and FOREIGN KEY constraints, the row triggers and
  the deferred constraint triggers of the two schema migrations, as functions that say which
  statement is accepted, and the statements themselves. A refused statement is
  \<open>DatabaseError\<close>. The clock of the database is the function \<open>clk\<close>: its value at \<open>i\<close> is the \<open>i\<close>-th
  reading of \<^verbatim>\<open>clock_timestamp()\<close> in the transaction.
\<close>

section \<open>Column checks of the M1 tables\<close>

definition check_dataset :: "dataset_row \<Rightarrow> bool" where
  "check_dataset r = (ds_name r \<noteq> [] \<and> octets_at_most 255 (ds_name r))"

definition check_version :: "version_row \<Rightarrow> bool" where
  "check_version r =
     (0 < dv_number r \<and> int8 (dv_number r)
      \<and> dv_schema_version r = 1
      \<and> sha_text (dv_manifest_sha r)
      \<and> 0 \<le> dv_file_count r \<and> int8 (dv_file_count r)
      \<and> 0 \<le> dv_logical_bytes r \<and> int8 (dv_logical_bytes r)
      \<and> 0 \<le> dv_unique_blob_count r \<and> int8 (dv_unique_blob_count r)
      \<and> 0 \<le> dv_unique_blob_bytes r \<and> int8 (dv_unique_blob_bytes r)
      \<and> perhaps (varchar 512) (dv_failure_detail r))"

definition key_of_sha :: "ustr \<Rightarrow> ustr" where
  "key_of_sha s =
     lit ''blobs/sha256/'' @ take 2 s @ lit ''/'' @ take 2 (drop 2 s) @ lit ''/'' @ s"

definition check_blob :: "blob_row \<Rightarrow> bool" where
  "check_blob r =
     (sha_text (bl_sha r)
      \<and> 0 \<le> bl_size r \<and> int8 (bl_size r)
      \<and> bl_object_key r = key_of_sha (bl_sha r)
      \<and> perhaps (varchar 512) (bl_failure_detail r))"

definition check_entry :: "entry_row \<Rightarrow> bool" where
  "check_entry r =
     (0 \<le> de_ordinal r \<and> int8 (de_ordinal r)
      \<and> de_path r \<noteq> [] \<and> octets_at_most 1024 (de_path r))"

definition check_idem :: "idem_row \<Rightarrow> bool" where
  "check_idem r =
     (varchar 255 (ik_key r) \<and> sha_text (ik_request_sha r) \<and> perhaps int4 (ik_http_status r))"

section \<open>Triggers of the M1 tables\<close>

definition version_edge :: "version_state \<Rightarrow> version_state \<Rightarrow> bool" where
  "version_edge old new =
     (old = V_DRAFT \<and> new \<in> {V_UPLOADING, V_VERIFYING}
      \<or> old = V_UPLOADING \<and> new = V_VERIFYING
      \<or> old = V_VERIFYING \<and> new \<in> {V_READY, V_FAILED}
      \<or> old = V_FAILED \<and> new = V_UPLOADING)"

definition blob_edge :: "blob_state \<Rightarrow> blob_state \<Rightarrow> bool" where
  "blob_edge old new =
     (old = B_PENDING \<and> new = B_UPLOADING
      \<or> old = B_UPLOADING \<and> new = B_VERIFYING
      \<or> old = B_VERIFYING \<and> new \<in> {B_AVAILABLE, B_FAILED}
      \<or> old = B_FAILED \<and> new = B_UPLOADING)"

text \<open>\<^verbatim>\<open>robolake_guard_dataset_version\<close>: the totals of the entries, joined with their blobs.\<close>

definition ordinals_ok :: "db \<Rightarrow> version_row \<Rightarrow> bool" where
  "ordinals_ok d r =
     (let ords = map de_ordinal (entries_of d (dv_id r)); n = int (length ords)
      in n = dv_file_count r
         \<and> (0 < n \<longrightarrow> Min (set ords) = 0 \<and> Max (set ords) = n - 1))"

definition summaries_ok :: "db \<Rightarrow> version_row \<Rightarrow> bool" where
  "summaries_ok d r =
     (let bs = map snd (joined d (dv_id r));
          ub = remdups (map (\<lambda>b. (bl_id b, bl_size b)) bs)
      in sum_list (map bl_size bs) = dv_logical_bytes r
         \<and> int (length ub) = dv_unique_blob_count r
         \<and> sum_list (map snd ub) = dv_unique_blob_bytes r)"

definition sealed_columns ::
    "version_row \<Rightarrow> uuid \<times> int \<times> int \<times> bytes \<times> ustr \<times> int \<times> int \<times> int \<times> int \<times> int option" where
  "sealed_columns r =
     (dv_dataset_id r, dv_number r, dv_schema_version r, dv_manifest_bytes r, dv_manifest_sha r,
      dv_file_count r, dv_logical_bytes r, dv_unique_blob_count r, dv_unique_blob_bytes r,
      dv_sealed_at r)"

definition guard_dataset_version :: "db \<Rightarrow> version_row \<Rightarrow> version_row \<Rightarrow> bool" where
  "guard_dataset_version d old new =
     (\<not> (dv_state old = V_READY \<and> new \<noteq> old)
      \<and> \<not> (dv_sealed_at old \<noteq> None \<and> sealed_columns new \<noteq> sealed_columns old)
      \<and> (dv_sealed_at old = None \<and> dv_sealed_at new \<noteq> None \<longrightarrow> ordinals_ok d new \<and> summaries_ok d new)
      \<and> (dv_state new \<noteq> dv_state old \<longrightarrow> version_edge (dv_state old) (dv_state new)))"

definition guard_blob :: "blob_row \<Rightarrow> blob_row \<Rightarrow> bool" where
  "guard_blob old new =
     ((bl_sha new, bl_size new, bl_object_key new) = (bl_sha old, bl_size old, bl_object_key old)
      \<and> \<not> (bl_state old = B_AVAILABLE \<and> new \<noteq> old)
      \<and> (bl_state new \<noteq> bl_state old \<longrightarrow> blob_edge (bl_state old) (bl_state new)))"

text \<open>\<^verbatim>\<open>robolake_guard_dataset_entry\<close>, for the insertions the store does.\<close>

definition guard_dataset_entry :: "db \<Rightarrow> entry_row \<Rightarrow> bool" where
  "guard_dataset_entry d r =
     (case get_version d (de_version_id r) of
        None \<Rightarrow> True
      | Some v \<Rightarrow> dv_sealed_at v = None)"

text \<open>\<^verbatim>\<open>robolake_require_sealed_version\<close>, a deferred constraint trigger.\<close>

definition require_sealed_version :: "db \<Rightarrow> uuid \<Rightarrow> bool" where
  "require_sealed_version d i =
     (\<not> (\<exists>v \<in> set (db_versions d). dv_id v = i \<and> dv_sealed_at v = None))"

section \<open>Checks of the multipart tables\<close>

definition check_multipart_plan :: "session_row \<Rightarrow> bool" where
  "check_multipart_plan r =
     (us_strategy r = SINGLE_PUT \<and> us_generation r = None \<and> us_provider_id r = None
        \<and> us_part_size r = None \<and> us_part_count r = None \<and> us_plan_schema r = None
        \<and> us_plan_sha r = None
      \<or> us_strategy r = MULTIPART \<and> perhaps (\<lambda>g. 0 < g) (us_generation r)
        \<and> perhaps (\<lambda>n. 67108864 \<le> n \<and> n \<le> 5368709120) (us_part_size r)
        \<and> perhaps (\<lambda>n. 1 \<le> n \<and> n \<le> 10000) (us_part_count r)
        \<and> perhaps (\<lambda>n. n = 1) (us_plan_schema r)
        \<and> perhaps sha_text (us_plan_sha r))"

definition check_provider_id :: "session_row \<Rightarrow> bool" where
  "check_provider_id r =
     (us_strategy r = SINGLE_PUT
      \<or> us_state r \<in> {M_CREATED, M_INITIATING, M_CANCELLED} \<and> us_provider_id r = None
      \<or> us_state r \<in> {M_IN_PROGRESS, M_COMPLETING, M_COMPLETED, M_ABORTING, M_ABORTED}
        \<and> us_provider_id r \<noteq> None \<and> perhaps (\<lambda>p. p \<noteq> []) (us_provider_id r)
      \<or> us_state r = M_FAILED)"

definition check_completion_values :: "session_row \<Rightarrow> bool" where
  "check_completion_values r =
     perhaps (\<lambda>c. c \<in> {AMBIGUOUS, CONFLICT_409, EMBEDDED_ERROR, NO_SUCH_UPLOAD})
       (us_completion_result r)"

definition check_verification_evidence :: "session_row \<Rightarrow> bool" where
  "check_verification_evidence r =
     (us_verification_method r = None \<and> us_observed_sha r = None \<and> us_observed_size r = None
        \<and> us_read_bytes r = None \<and> us_verification_completed_at r = None \<and> us_verifier r = None
      \<or> perhaps (\<lambda>m. m = FULL_STREAM_SHA256) (us_verification_method r)
        \<and> perhaps sha_text (us_observed_sha r)
        \<and> perhaps (\<lambda>n. 0 \<le> n) (us_observed_size r) \<and> perhaps (\<lambda>n. 0 \<le> n) (us_read_bytes r)
        \<and> us_verification_completed_at r \<noteq> None
        \<and> us_verifier r \<noteq> None \<and> perhaps (\<lambda>v. v \<noteq> []) (us_verifier r))"

text \<open>The widths of the integer and text columns of a session.\<close>

definition session_widths :: "session_row \<Rightarrow> bool" where
  "session_widths r =
     (perhaps int4 (us_generation r) \<and> perhaps int8 (us_part_size r)
      \<and> perhaps int4 (us_part_count r) \<and> perhaps int8 (us_observed_size r)
      \<and> perhaps int8 (us_read_bytes r) \<and> perhaps (varchar 128) (us_verifier r)
      \<and> perhaps (varchar 512) (us_failure_detail r))"

definition check_session :: "session_row \<Rightarrow> bool" where
  "check_session r =
     (check_multipart_plan r \<and> check_provider_id r \<and> check_completion_values r
      \<and> check_verification_evidence r \<and> session_widths r)"

definition base64_text :: "ustr \<Rightarrow> bool" where
  "base64_text s =
     (length s = 44 \<and> s ! 43 = 61
      \<and> (\<forall>c \<in> set (take 43 s). 65 \<le> c \<and> c \<le> 90 \<or> 97 \<le> c \<and> c \<le> 122 \<or> is_digit c \<or> c = 43 \<or> c = 47))"

definition check_part :: "part_row \<Rightarrow> bool" where
  "check_part r =
     (1 \<le> up_number r \<and> up_number r \<le> 10000
      \<and> 0 \<le> up_offset r \<and> int8 (up_offset r) \<and> 0 < up_size r \<and> int8 (up_size r)
      \<and> sha_text (up_sha r)
      \<and> 0 \<le> up_issue_count r \<and> int4 (up_issue_count r)
      \<and> (up_expires_at r = None \<or> up_issued_at r \<noteq> None)
      \<and> (up_expires_at r = None \<or> up_issued_at r = None \<or> the (up_issued_at r) \<le> the (up_expires_at r))
      \<and> (up_state r = P_PENDING
         \<or> up_response_etag r \<noteq> None \<and> perhaps (\<lambda>e. e \<noteq> []) (up_response_etag r)
           \<and> perhaps base64_text (up_response_checksum r)
           \<and> up_received_at r \<noteq> None \<and> up_uploaded_at r \<noteq> None)
      \<and> (up_state r \<noteq> P_VERIFIED
         \<or> perhaps_equal (up_listed_etag r) (up_response_etag r)
           \<and> perhaps_equal (up_listed_checksum r) (up_response_checksum r)
           \<and> perhaps_equal (up_listed_size r) (Some (up_size r)) \<and> up_listed_at r \<noteq> None
           \<and> up_verified_at r \<noteq> None))"

definition check_admission :: "admission_row \<Rightarrow> bool" where
  "check_admission r =
     (0 < al_epoch r \<and> int8 (al_epoch r)
      \<and> al_acquired_at r \<le> al_renewed_at r \<and> al_renewed_at r \<le> al_expires_at r)"

definition check_completion :: "completion_row \<Rightarrow> bool" where
  "check_completion r =
     (0 < cl_epoch r \<and> int8 (cl_epoch r)
      \<and> cl_acquired_at r \<le> cl_renewed_at r \<and> cl_renewed_at r \<le> cl_expires_at r)"

section \<open>The frozen plan in SQL\<close>

text \<open>\<^verbatim>\<open>robolake_expected_multipart_part_size\<close>.\<close>

function sql_part_size_loop :: "int \<Rightarrow> int \<Rightarrow> int res" where
  "sql_part_size_loop blob_size selected =
     (if 0 < selected \<and> 10000 < (blob_size + selected - 1) div selected then
        (if 5368709120 < selected * 2 then Inl DatabaseError
         else sql_part_size_loop blob_size (selected * 2))
      else Inr selected)"
  by auto
termination
  by (relation "measure (\<lambda>(blob_size, selected). nat (5368709121 - selected))") auto

declare sql_part_size_loop.simps [simp del]

definition expected_multipart_part_size :: "int \<Rightarrow> int res" where
  "expected_multipart_part_size blob_size =
     (if blob_size \<le> 5000000000 \<or> 5000000000000 < blob_size then Inl DatabaseError
      else sql_part_size_loop blob_size 67108864)"

text \<open>The text \<^verbatim>\<open>robolake_validate_multipart_plan\<close> hashes, from the rows in the order of their number.\<close>

definition sql_part_text :: "part_row \<Rightarrow> ustr" where
  "sql_part_text p =
     lit ''{\"part_number\":'' @ int_str (up_number p) @
     lit '',\"offset_bytes\":'' @ int_str (up_offset p) @
     lit '',\"size_bytes\":'' @ int_str (up_size p) @
     lit '',\"sha256\":\"'' @ up_sha p @ lit ''\"}''"

definition sql_plan_text :: "int \<Rightarrow> int \<Rightarrow> int \<Rightarrow> int \<Rightarrow> part_row list \<Rightarrow> ustr" where
  "sql_plan_text schema blob_size part_size planned parts =
     lit ''{\"schema_version\":'' @ int_str schema @
     lit '',\"blob_size_bytes\":'' @ int_str blob_size @
     lit '',\"part_size_bytes\":'' @ int_str part_size @
     lit '',\"part_count\":'' @ int_str planned @
     lit '',\"parts\":['' @ join_with 44 (map sql_part_text (sort_key up_number parts)) @ lit '']}''"

definition sql_ranges_ok :: "int \<Rightarrow> int \<Rightarrow> int \<Rightarrow> part_row list \<Rightarrow> bool" where
  "sql_ranges_ok blob_size part_size planned parts =
     (int (length parts) = planned \<and> sum_list (map up_size parts) = blob_size
      \<and> parts \<noteq> [] \<and> Min (up_number ` set parts) = 1 \<and> Max (up_number ` set parts) = planned
      \<and> (\<forall>p \<in> set parts.
           \<not> (up_number p < 1 \<or> planned < up_number p
              \<or> up_offset p \<noteq> (up_number p - 1) * part_size
              \<or> up_number p < planned \<and> up_size p \<noteq> part_size
              \<or> up_number p = planned \<and> up_size p \<noteq> blob_size - up_offset p)))"

text \<open>
  \<^verbatim>\<open>robolake_validate_multipart_plan\<close> returns at once unless the session exists and is multipart.
  The five plan columns of a multipart session are never NULL in the rows the store inserts; the
  function is modelled for those and refuses a row without them.
\<close>

definition validate_multipart_plan :: "db \<Rightarrow> uuid \<Rightarrow> bool" where
  "validate_multipart_plan d target =
     (case get_session d target of
        None \<Rightarrow> True
      | Some s \<Rightarrow>
          us_strategy s \<noteq> MULTIPART
          \<or> (case (get_blob d (us_blob_id s), us_part_size s, us_part_count s,
                   us_plan_schema s, us_plan_sha s) of
               (Some b, Some part_size, Some planned, Some schema, Some plan_sha) \<Rightarrow>
                 expected_multipart_part_size (bl_size b) = Inr part_size
                 \<and> planned = (bl_size b + part_size - 1) div part_size
                 \<and> sql_ranges_ok (bl_size b) part_size planned (parts_of d target)
                 \<and> (case utf8_encode (sql_plan_text schema (bl_size b) part_size planned
                                          (parts_of d target)) of
                      None \<Rightarrow> False
                    | Some canonical \<Rightarrow> sha256_hex canonical = plan_sha)
             | _ \<Rightarrow> False))"

section \<open>Triggers of the multipart tables\<close>

text \<open>\<^verbatim>\<open>encode(decode(sha256, 'hex'), 'base64')\<close>.\<close>

definition sql_checksum :: "ustr \<Rightarrow> ustr option" where
  "sql_checksum sha = map_option b64_encode (hex_decode sha)"

text \<open>
  \<^verbatim>\<open>robolake_guard_upload_part\<close>: on insertion \<open>old\<close> is \<open>None\<close>. A checksum equal to the expected
  one is canonical base64, so the second comparison the trigger makes adds nothing.
\<close>

definition part_identity :: "part_row \<Rightarrow> uuid \<times> int \<times> int \<times> int \<times> ustr" where
  "part_identity p = (up_session_id p, up_number p, up_offset p, up_size p, up_sha p)"

definition part_receipt_columns :: "part_row \<Rightarrow> ustr option \<times> ustr option \<times> int option" where
  "part_receipt_columns p = (up_response_etag p, up_response_checksum p, up_received_at p)"

definition part_edge :: "part_state \<Rightarrow> part_state \<Rightarrow> bool" where
  "part_edge old new =
     (old = P_PENDING \<and> new = P_UPLOADED
      \<or> old = P_UPLOADED \<and> new \<in> {P_VERIFIED, P_PENDING}
      \<or> old = P_VERIFIED \<and> new = P_PENDING)"

definition guard_part_insert :: "session_row \<Rightarrow> part_row \<Rightarrow> bool" where
  "guard_part_insert parent new =
     (\<not> (us_state parent \<noteq> M_CREATED \<or> surely (\<lambda>n. n < up_number new) (us_part_count parent)))"

definition guard_part_update :: "session_row \<Rightarrow> part_row \<Rightarrow> part_row \<Rightarrow> bool" where
  "guard_part_update parent old new =
     (part_identity new = part_identity old
      \<and> \<not> (us_state parent \<in> {M_COMPLETED, M_ABORTED, M_CANCELLED, M_FAILED} \<and> new \<noteq> old)
      \<and> (up_state new \<noteq> up_state old \<longrightarrow> part_edge (up_state old) (up_state new))
      \<and> \<not> (up_state old \<in> {P_UPLOADED, P_VERIFIED} \<and> up_state new \<noteq> P_PENDING
           \<and> part_receipt_columns new \<noteq> part_receipt_columns old)
      \<and> \<not> (up_state old \<in> {P_UPLOADED, P_VERIFIED} \<and> up_state new = P_PENDING
           \<and> us_reconciled_at parent = None))"

definition guard_upload_part :: "db \<Rightarrow> part_row option \<Rightarrow> part_row \<Rightarrow> bool" where
  "guard_upload_part d old new =
     (case get_session d (up_session_id new) of
        None \<Rightarrow> False
      | Some parent \<Rightarrow>
          us_strategy parent = MULTIPART
          \<and> (case old of None \<Rightarrow> guard_part_insert parent new
             | Some prior \<Rightarrow> guard_part_update parent prior new)
          \<and> (up_response_checksum new = None \<or> up_response_checksum new = sql_checksum (up_sha new))
          \<and> (up_listed_checksum new = None \<or> up_listed_checksum new = sql_checksum (up_sha new)))"

text \<open>\<^verbatim>\<open>robolake_guard_upload_session\<close>, branch by branch.\<close>

definition session_identity :: "session_row \<Rightarrow> uuid \<times> uuid \<times> upload_strategy" where
  "session_identity s = (us_blob_id s, us_version_id s, us_strategy s)"

definition single_put_edge :: "multipart_state \<Rightarrow> multipart_state \<Rightarrow> bool" where
  "single_put_edge old new =
     (old = M_CREATED \<and> new = M_IN_PROGRESS
      \<or> old = M_IN_PROGRESS \<and> new \<in> {M_COMPLETED, M_FAILED})"

definition guard_single_put :: "session_row \<Rightarrow> session_row \<Rightarrow> bool" where
  "guard_single_put old new =
     (\<not> (us_state old \<in> {M_COMPLETED, M_FAILED} \<and> new \<noteq> old)
      \<and> (us_state new \<noteq> us_state old \<longrightarrow> single_put_edge (us_state old) (us_state new)))"

definition plan_columns ::
    "session_row \<Rightarrow> int option \<times> int option \<times> int option \<times> int option \<times> ustr option" where
  "plan_columns s = (us_generation s, us_part_size s, us_part_count s, us_plan_schema s, us_plan_sha s)"

definition multipart_edge :: "multipart_state \<Rightarrow> multipart_state \<Rightarrow> bool" where
  "multipart_edge old new =
     (old = M_CREATED \<and> new \<in> {M_INITIATING, M_CANCELLED, M_FAILED}
      \<or> old = M_INITIATING \<and> new \<in> {M_IN_PROGRESS, M_FAILED}
      \<or> old = M_IN_PROGRESS \<and> new \<in> {M_COMPLETING, M_ABORTING, M_FAILED}
      \<or> old = M_COMPLETING \<and> new \<in> {M_IN_PROGRESS, M_COMPLETED, M_FAILED}
      \<or> old = M_ABORTING \<and> new \<in> {M_ABORTED, M_COMPLETING, M_FAILED})"

definition phase_may_advance :: "session_row \<Rightarrow> session_row \<Rightarrow> bool" where
  "phase_may_advance old new =
     (let was = (\<lambda>p. perhaps (\<lambda>q. q = p) (us_completion_phase old));
          becomes = (\<lambda>p. perhaps (\<lambda>q. q = p) (us_completion_phase new))
      in was C_PENDING \<and> becomes C_ASSEMBLING
         \<or> was C_PENDING \<and> becomes C_FINAL_PRESENT
           \<and> perhaps (\<lambda>r. r = CR_FINAL_PRESENT) (us_completion_reason new)
         \<or> was C_ASSEMBLING \<and> becomes C_FINAL_PRESENT
         \<or> was C_ASSEMBLING \<and> becomes C_PENDING
           \<and> us_completion_attempted_at new \<noteq> None
           \<and> perhaps (\<lambda>r. r \<in> {AMBIGUOUS, EMBEDDED_ERROR}) (us_completion_result new)
         \<or> was C_FINAL_PRESENT \<and> becomes C_FINAL_VERIFICATION
         \<or> was C_FINAL_VERIFICATION \<and> becomes C_FINAL_PRESENT)"

definition guard_while_completing :: "session_row \<Rightarrow> session_row \<Rightarrow> bool" where
  "guard_while_completing old new =
     (us_state old = M_COMPLETING \<and> us_state new = M_COMPLETING \<longrightarrow>
        us_completion_reason new = us_completion_reason old
        \<and> (us_completion_phase new \<noteq> us_completion_phase old \<longrightarrow> phase_may_advance old new))"

definition all_parts_verified :: "db \<Rightarrow> uuid \<Rightarrow> bool" where
  "all_parts_verified d s = (\<forall>p \<in> set (parts_of d s). up_state p = P_VERIFIED)"

definition guard_initiation :: "db \<Rightarrow> session_row \<Rightarrow> session_row \<Rightarrow> bool" where
  "guard_initiation d old new =
     ((us_state old = M_CREATED \<and> us_state new = M_INITIATING \<longrightarrow>
         validate_multipart_plan d (us_id new) \<and> us_initiation_started_at new \<noteq> None)
      \<and> \<not> (us_state old = M_INITIATING \<and> us_state new = M_FAILED
           \<and> (surely (\<lambda>c. c \<noteq> MF_INITIATION_AMBIGUOUS) (us_failure_code new)
              \<or> us_initiation_ambiguous_at new = None \<or> us_provider_id new \<noteq> None))
      \<and> \<not> (us_state new = M_FAILED \<and> us_failure_code new = None))"

definition guard_completing :: "db \<Rightarrow> session_row \<Rightarrow> session_row \<Rightarrow> bool" where
  "guard_completing d old new =
     (us_state new = M_COMPLETING \<longrightarrow>
        us_completion_requested_at new \<noteq> None \<and> us_completion_reason new \<noteq> None
        \<and> us_completion_phase new \<noteq> None
        \<and> (us_state old \<noteq> M_COMPLETING \<longrightarrow> us_completion_phase new = Some C_PENDING)
        \<and> (us_completion_reason new = Some CR_PARTS_READY \<longrightarrow> all_parts_verified d (us_id new)))"

definition guard_recovery :: "db \<Rightarrow> session_row \<Rightarrow> session_row \<Rightarrow> bool" where
  "guard_recovery d old new =
     (\<not> (us_state old = M_COMPLETING \<and> us_state new = M_IN_PROGRESS
         \<and> (us_absence_at new = None \<or> us_reconciled_at new = None
            \<or> surely (\<lambda>r. r \<notin> {AMBIGUOUS, EMBEDDED_ERROR}) (us_completion_result new)
            \<or> us_completion_reason old = Some CR_PARTS_READY \<and> all_parts_verified d (us_id new)))
      \<and> \<not> (us_state old = M_COMPLETING \<and> us_state new = M_FAILED
           \<and> us_failure_code new = Some MF_PROVIDER_ATTEMPT_INVALIDATED
           \<and> (us_invalidated_at new = None
              \<or> surely (\<lambda>r. r \<notin> {CONFLICT_409, NO_SUCH_UPLOAD}) (us_completion_result new))))"

definition guard_completed :: "db \<Rightarrow> session_row \<Rightarrow> session_row \<Rightarrow> bool" where
  "guard_completed d old new =
     (us_state new = M_COMPLETED \<longrightarrow>
        (case get_blob d (us_blob_id new) of
           None \<Rightarrow> us_observed_sha new = None \<and> us_observed_size new = None
                     \<and> us_read_bytes new = None
         | Some b \<Rightarrow>
             bl_state b = B_AVAILABLE
             \<and> us_observed_sha new = Some (bl_sha b) \<and> us_observed_size new = Some (bl_size b)
             \<and> us_read_bytes new = Some (bl_size b))
        \<and> perhaps (\<lambda>p. p = C_FINAL_VERIFICATION) (us_completion_phase old)
        \<and> perhaps (\<lambda>p. p = C_FINAL_VERIFICATION) (us_completion_phase new)
        \<and> perhaps (\<lambda>m. m = FULL_STREAM_SHA256) (us_verification_method new)
        \<and> us_verification_completed_at new \<noteq> None)"

definition guard_multipart :: "db \<Rightarrow> session_row \<Rightarrow> session_row \<Rightarrow> bool" where
  "guard_multipart d old new =
     (plan_columns new = plan_columns old
      \<and> \<not> (us_provider_id old \<noteq> None \<and> us_provider_id new \<noteq> us_provider_id old)
      \<and> \<not> (us_state old \<in> {M_COMPLETED, M_ABORTED, M_CANCELLED, M_FAILED} \<and> new \<noteq> old)
      \<and> guard_while_completing old new
      \<and> (us_state new \<noteq> us_state old \<longrightarrow> multipart_edge (us_state old) (us_state new))
      \<and> guard_initiation d old new
      \<and> guard_completing d old new
      \<and> guard_recovery d old new
      \<and> (us_state new = M_ABORTING \<longrightarrow> us_abort_requested_at new \<noteq> None)
      \<and> guard_completed d old new)"

definition guard_upload_session :: "db \<Rightarrow> session_row option \<Rightarrow> session_row \<Rightarrow> bool" where
  "guard_upload_session d old new =
     (case old of
        None \<Rightarrow> us_state new = M_CREATED
      | Some prior \<Rightarrow>
          session_identity new = session_identity prior
          \<and> (if us_strategy prior = SINGLE_PUT then guard_single_put prior new
             else guard_multipart d prior new))"

definition guard_admission_lease :: "int \<Rightarrow> admission_row option \<Rightarrow> admission_row \<Rightarrow> bool" where
  "guard_admission_lease now old new =
     (case old of
        None \<Rightarrow> al_epoch new = 1
      | Some prior \<Rightarrow>
          al_session_id new = al_session_id prior
          \<and> al_epoch prior \<le> al_epoch new \<and> al_renewed_at prior \<le> al_renewed_at new
          \<and> (if al_owner_id new \<noteq> al_owner_id prior \<or> al_invocation_id new \<noteq> al_invocation_id prior
             then al_expires_at prior \<le> now \<and> al_epoch new = al_epoch prior + 1
                  \<and> al_acquired_at prior < al_acquired_at new
             else al_epoch new = al_epoch prior \<and> al_acquired_at new = al_acquired_at prior))"

definition guard_completion_lease :: "int \<Rightarrow> completion_row option \<Rightarrow> completion_row \<Rightarrow> bool" where
  "guard_completion_lease now old new =
     (case old of
        None \<Rightarrow> cl_epoch new = 1
      | Some prior \<Rightarrow>
          cl_session_id new = cl_session_id prior
          \<and> cl_epoch prior \<le> cl_epoch new \<and> cl_renewed_at prior \<le> cl_renewed_at new
          \<and> (if cl_epoch new = cl_epoch prior
             then cl_owner_id new = cl_owner_id prior \<and> cl_acquired_at new = cl_acquired_at prior
                  \<and> now < cl_expires_at prior
             else cl_epoch new = cl_epoch prior + 1
                  \<and> cl_expires_at prior \<le> now \<and> cl_acquired_at prior < cl_acquired_at new))"

text \<open>
  The key pattern of \<^verbatim>\<open>robolake_guard_m2_idempotency\<close>: the text of a UUID of version 1 to 5.
\<close>

definition uuid_key_text :: "ustr \<Rightarrow> bool" where
  "uuid_key_text k =
     (length k = 36
      \<and> (\<forall>i \<in> {8, 13, 18, 23}. k ! i = 45)
      \<and> (\<forall>i \<in> set [0..<36] - {8, 13, 18, 23}. hex_val (k ! i) \<noteq> None)
      \<and> 49 \<le> k ! 14 \<and> k ! 14 \<le> 53
      \<and> k ! 19 \<in> {56, 57, 97, 98})"

definition m2_scopes :: "idem_scope list" where
  "m2_scopes = [MULTIPART_SESSION_RESOLVE, MULTIPART_ADMISSION_ACQUIRE, MULTIPART_COMPLETION_ACCEPT]"

definition guard_m2_idempotency :: "idem_row \<Rightarrow> bool" where
  "guard_m2_idempotency r =
     (ik_scope r \<in> set m2_scopes \<longrightarrow>
        uuid_key_text (ik_key r)
        \<and> perhaps (\<lambda>t. t = RT_UPLOAD_SESSION) (ik_resource_type r)
        \<and> ik_resource_id r \<noteq> None \<and> ik_http_status r \<noteq> None \<and> ik_response r \<noteq> None)"

text \<open>
  \<^verbatim>\<open>robolake_validate_m2_publication\<close>, a deferred constraint trigger of sessions and blobs.
\<close>

definition unfinished :: "multipart_state \<Rightarrow> bool" where
  "unfinished s = (s \<in> {M_CREATED, M_INITIATING, M_IN_PROGRESS, M_COMPLETING, M_ABORTING})"

definition valid_completion :: "blob_row \<Rightarrow> session_row \<Rightarrow> bool" where
  "valid_completion b s =
     (us_state s = M_COMPLETED
      \<and> us_completion_phase s = Some C_FINAL_VERIFICATION
      \<and> us_verification_method s = Some FULL_STREAM_SHA256
      \<and> us_observed_sha s = Some (bl_sha b)
      \<and> us_observed_size s = Some (bl_size b) \<and> us_read_bytes s = Some (bl_size b)
      \<and> us_verification_completed_at s \<noteq> None
      \<and> surely (\<lambda>v. v \<noteq> []) (us_verifier s))"

definition multipart_sessions :: "db \<Rightarrow> uuid \<Rightarrow> session_row list" where
  "multipart_sessions d b = filter (\<lambda>s. us_strategy s = MULTIPART) (sessions_of d b)"

definition publication_states_ok :: "db \<Rightarrow> blob_row \<Rightarrow> bool" where
  "publication_states_ok d b =
     (let ss = multipart_sessions d (bl_id b)
      in ss = []
         \<or> bl_state b \<noteq> B_VERIFYING
           \<and> (bl_state b = B_AVAILABLE \<longrightarrow>
                (\<exists>s \<in> set ss. valid_completion b s) \<and> \<not> (\<exists>s \<in> set ss. unfinished (us_state s)))
           \<and> ((\<exists>s \<in> set ss. us_state s = M_COMPLETED) \<longrightarrow> bl_state b = B_AVAILABLE))"

definition no_invalidated_owner :: "db \<Rightarrow> blob_row \<Rightarrow> int \<Rightarrow> bool" where
  "no_invalidated_owner d b now =
     (\<not> (\<exists>s \<in> set (multipart_sessions d (bl_id b)).
           us_state s = M_FAILED \<and> us_failure_code s = Some MF_PROVIDER_ATTEMPT_INVALIDATED
           \<and> (case get_completion d (us_id s) of None \<Rightarrow> False | Some l \<Rightarrow> now < cl_expires_at l)))"

definition validate_m2_publication :: "db \<Rightarrow> uuid \<Rightarrow> int \<Rightarrow> bool" where
  "validate_m2_publication d target now =
     (case get_blob d target of
        None \<Rightarrow> True
      | Some b \<Rightarrow> publication_states_ok d b \<and> no_invalidated_owner d b now)"

section \<open>Statements\<close>

text \<open>
  An INSERT or UPDATE of one row: it is refused by a taken key, a missing parent, a CHECK, a
  UNIQUE constraint or a trigger, and queues the deferred triggers of its table. An update names
  its row by the primary key. Text values are assumed to be storable (scalar, without NUL).
\<close>

definition insert_dataset :: "dataset_row \<Rightarrow> db \<Rightarrow> db res" where
  "insert_dataset r d =
     (if check_dataset r \<and> ds_id r \<notin> ds_id ` set (db_datasets d)
         \<and> ds_name r \<notin> ds_name ` set (db_datasets d)
      then Inr (d\<lparr>db_datasets := db_datasets d @ [r]\<rparr>) else Inl DatabaseError)"

definition version_clash :: "version_row \<Rightarrow> version_row \<Rightarrow> bool" where
  "version_clash r x =
     (dv_id x \<noteq> dv_id r \<and> dv_dataset_id x = dv_dataset_id r
      \<and> (dv_manifest_sha x = dv_manifest_sha r \<or> dv_number x = dv_number r))"

definition insert_version :: "version_row \<Rightarrow> db \<Rightarrow> db res" where
  "insert_version r d =
     (if check_version r \<and> dv_id r \<notin> dv_id ` set (db_versions d)
         \<and> dv_dataset_id r \<in> ds_id ` set (db_datasets d)
         \<and> \<not> (\<exists>x \<in> set (db_versions d). version_clash r x)
      then Inr (d\<lparr>db_versions := db_versions d @ [r],
                  db_deferred := db_deferred d @ [RequireSealed (dv_id r)]\<rparr>)
      else Inl DatabaseError)"

definition update_version :: "version_row \<Rightarrow> db \<Rightarrow> db res" where
  "update_version r d =
     (case get_version d (dv_id r) of
        None \<Rightarrow> Inl DatabaseError
      | Some old \<Rightarrow>
          (if guard_dataset_version d old r \<and> check_version r
              \<and> dv_dataset_id r \<in> ds_id ` set (db_datasets d)
              \<and> \<not> (\<exists>x \<in> set (db_versions d). version_clash r x)
           then Inr (d\<lparr>db_versions := tab_put dv_id r (db_versions d),
                       db_deferred := db_deferred d @ [RequireSealed (dv_id r)]\<rparr>)
           else Inl DatabaseError))"

definition insert_blob :: "blob_row \<Rightarrow> db \<Rightarrow> db res" where
  "insert_blob r d =
     (if check_blob r \<and> bl_id r \<notin> bl_id ` set (db_blobs d)
         \<and> bl_sha r \<notin> bl_sha ` set (db_blobs d)
         \<and> bl_object_key r \<notin> bl_object_key ` set (db_blobs d)
      then Inr (d\<lparr>db_blobs := db_blobs d @ [r]\<rparr>) else Inl DatabaseError)"

definition update_blob :: "blob_row \<Rightarrow> db \<Rightarrow> db res" where
  "update_blob r d =
     (case get_blob d (bl_id r) of
        None \<Rightarrow> Inl DatabaseError
      | Some old \<Rightarrow>
          (if guard_blob old r \<and> check_blob r
           then Inr (d\<lparr>db_blobs := tab_put bl_id r (db_blobs d),
                       db_deferred := db_deferred d @ [RequirePublication (bl_id r)]\<rparr>)
           else Inl DatabaseError))"

definition insert_entry :: "entry_row \<Rightarrow> db \<Rightarrow> db res" where
  "insert_entry r d =
     (if guard_dataset_entry d r \<and> check_entry r
         \<and> de_version_id r \<in> dv_id ` set (db_versions d) \<and> de_blob_id r \<in> bl_id ` set (db_blobs d)
         \<and> \<not> (\<exists>x \<in> set (db_entries d). de_version_id x = de_version_id r
               \<and> (de_path x = de_path r \<or> de_ordinal x = de_ordinal r))
      then Inr (d\<lparr>db_entries := db_entries d @ [r]\<rparr>) else Inl DatabaseError)"

text \<open>
  The unique constraint on the generation ignores NULL; the partial unique index admits one
  unfinished session per blob.
\<close>

definition session_clash :: "session_row \<Rightarrow> session_row \<Rightarrow> bool" where
  "session_clash r x =
     (us_id x \<noteq> us_id r \<and> us_blob_id x = us_blob_id r
      \<and> (us_generation r \<noteq> None \<and> us_generation x = us_generation r
         \<or> unfinished (us_state r) \<and> unfinished (us_state x)))"

definition insert_session :: "session_row \<Rightarrow> db \<Rightarrow> db res" where
  "insert_session r d =
     (if guard_upload_session d None r \<and> check_session r
         \<and> us_id r \<notin> us_id ` set (db_sessions d)
         \<and> us_blob_id r \<in> bl_id ` set (db_blobs d) \<and> us_version_id r \<in> dv_id ` set (db_versions d)
         \<and> \<not> (\<exists>x \<in> set (db_sessions d). session_clash r x)
      then Inr (d\<lparr>db_sessions := db_sessions d @ [r],
                  db_deferred := db_deferred d @ [RequirePublication (us_blob_id r)]\<rparr>)
      else Inl DatabaseError)"

definition update_session :: "session_row \<Rightarrow> db \<Rightarrow> db res" where
  "update_session r d =
     (case get_session d (us_id r) of
        None \<Rightarrow> Inl DatabaseError
      | Some old \<Rightarrow>
          (if guard_upload_session d (Some old) r \<and> check_session r
              \<and> \<not> (\<exists>x \<in> set (db_sessions d). session_clash r x)
           then Inr (d\<lparr>db_sessions := tab_put us_id r (db_sessions d),
                       db_deferred := db_deferred d @ [RequirePublication (us_blob_id r)]\<rparr>)
           else Inl DatabaseError))"

definition insert_part :: "part_row \<Rightarrow> db \<Rightarrow> db res" where
  "insert_part r d =
     (if guard_upload_part d None r \<and> check_part r \<and> part_key r \<notin> part_key ` set (db_parts d)
         \<and> \<not> (\<exists>x \<in> set (db_parts d). up_session_id x = up_session_id r \<and> up_offset x = up_offset r)
      then Inr (d\<lparr>db_parts := db_parts d @ [r]\<rparr>) else Inl DatabaseError)"

definition update_part :: "part_row \<Rightarrow> db \<Rightarrow> db res" where
  "update_part r d =
     (case tab_get part_key (part_key r) (db_parts d) of
        None \<Rightarrow> Inl DatabaseError
      | Some old \<Rightarrow>
          (if guard_upload_part d (Some old) r \<and> check_part r
           then Inr (d\<lparr>db_parts := tab_put part_key r (db_parts d)\<rparr>)
           else Inl DatabaseError))"

definition insert_admission :: "int \<Rightarrow> admission_row \<Rightarrow> db \<Rightarrow> db res" where
  "insert_admission now r d =
     (if guard_admission_lease now None r \<and> check_admission r
         \<and> al_session_id r \<notin> al_session_id ` set (db_admissions d)
         \<and> al_session_id r \<in> us_id ` set (db_sessions d)
      then Inr (d\<lparr>db_admissions := db_admissions d @ [r]\<rparr>) else Inl DatabaseError)"

definition update_admission :: "int \<Rightarrow> admission_row \<Rightarrow> db \<Rightarrow> db res" where
  "update_admission now r d =
     (case get_admission d (al_session_id r) of
        None \<Rightarrow> Inl DatabaseError
      | Some old \<Rightarrow>
          (if guard_admission_lease now (Some old) r \<and> check_admission r
           then Inr (d\<lparr>db_admissions := tab_put al_session_id r (db_admissions d)\<rparr>)
           else Inl DatabaseError))"

definition insert_completion :: "int \<Rightarrow> completion_row \<Rightarrow> db \<Rightarrow> db res" where
  "insert_completion now r d =
     (if guard_completion_lease now None r \<and> check_completion r
         \<and> cl_session_id r \<notin> cl_session_id ` set (db_completions d)
         \<and> cl_session_id r \<in> us_id ` set (db_sessions d)
      then Inr (d\<lparr>db_completions := db_completions d @ [r]\<rparr>) else Inl DatabaseError)"

definition update_completion :: "int \<Rightarrow> completion_row \<Rightarrow> db \<Rightarrow> db res" where
  "update_completion now r d =
     (case get_completion d (cl_session_id r) of
        None \<Rightarrow> Inl DatabaseError
      | Some old \<Rightarrow>
          (if guard_completion_lease now (Some old) r \<and> check_completion r
           then Inr (d\<lparr>db_completions := tab_put cl_session_id r (db_completions d)\<rparr>)
           else Inl DatabaseError))"

definition insert_idem :: "idem_row \<Rightarrow> db \<Rightarrow> db res" where
  "insert_idem r d =
     (if guard_m2_idempotency r \<and> check_idem r \<and> idem_key r \<notin> idem_key ` set (db_idem d)
      then Inr (d\<lparr>db_idem := db_idem d @ [r]\<rparr>) else Inl DatabaseError)"

text \<open>
  The end of a transaction: every queued constraint trigger must accept, then the queue is
  empty. \<open>now\<close> is the clock reading of the triggers.
\<close>

definition deferred_ok :: "db \<Rightarrow> int \<Rightarrow> deferred \<Rightarrow> bool" where
  "deferred_ok d now t =
     (case t of
        RequireSealed i \<Rightarrow> require_sealed_version d i
      | RequirePublication i \<Rightarrow> validate_m2_publication d i now)"

definition commit :: "int \<Rightarrow> 'a \<Rightarrow> db \<Rightarrow> ('a \<times> db) res" where
  "commit now x d =
     (if \<forall>t \<in> set (db_deferred d). deferred_ok d now t then Inr (x, d\<lparr>db_deferred := []\<rparr>)
      else Inl DatabaseError)"

lemmas statement_defs = insert_dataset_def insert_version_def update_version_def insert_blob_def
  update_blob_def insert_entry_def insert_session_def update_session_def insert_part_def
  update_part_def insert_admission_def update_admission_def insert_completion_def
  update_completion_def insert_idem_def

lemma commit_Inr [res_elims]:
  "commit now x d = Inr (y, d') \<longleftrightarrow>
     y = x \<and> d' = d\<lparr>db_deferred := []\<rparr> \<and> (\<forall>t \<in> set (db_deferred d). deferred_ok d now t)"
  by (auto simp: commit_def)

section \<open>What every statement preserves\<close>

text \<open>
  One statement of the database: \<open>stmt c d d'\<close> holds when the statement \<open>c\<close> is accepted in \<open>d\<close> and
  leaves \<open>d'\<close>. Emptying the queue at the end of a transaction is a step of its own.
\<close>

datatype command =
    InsDataset dataset_row | InsVersion version_row | UpdVersion version_row
  | InsBlob blob_row | UpdBlob blob_row | InsEntry entry_row
  | InsSession session_row | UpdSession session_row | InsPart part_row | UpdPart part_row
  | InsAdmission int admission_row | UpdAdmission int admission_row
  | InsCompletion int completion_row | UpdCompletion int completion_row
  | InsIdem idem_row | Commit int

inductive stmt :: "command \<Rightarrow> db \<Rightarrow> db \<Rightarrow> bool" where
  ins_dataset: "insert_dataset r1 d = Inr d' \<Longrightarrow> stmt (InsDataset r1) d d'"
| ins_version: "insert_version r2 d = Inr d' \<Longrightarrow> stmt (InsVersion r2) d d'"
| upd_version: "update_version r2 d = Inr d' \<Longrightarrow> stmt (UpdVersion r2) d d'"
| ins_blob: "insert_blob r3 d = Inr d' \<Longrightarrow> stmt (InsBlob r3) d d'"
| upd_blob: "update_blob r3 d = Inr d' \<Longrightarrow> stmt (UpdBlob r3) d d'"
| ins_entry: "insert_entry r4 d = Inr d' \<Longrightarrow> stmt (InsEntry r4) d d'"
| ins_session: "insert_session r5 d = Inr d' \<Longrightarrow> stmt (InsSession r5) d d'"
| upd_session: "update_session r5 d = Inr d' \<Longrightarrow> stmt (UpdSession r5) d d'"
| ins_part: "insert_part r6 d = Inr d' \<Longrightarrow> stmt (InsPart r6) d d'"
| upd_part: "update_part r6 d = Inr d' \<Longrightarrow> stmt (UpdPart r6) d d'"
| ins_admission: "insert_admission now r7 d = Inr d' \<Longrightarrow> stmt (InsAdmission now r7) d d'"
| upd_admission: "update_admission now r7 d = Inr d' \<Longrightarrow> stmt (UpdAdmission now r7) d d'"
| ins_completion: "insert_completion now r8 d = Inr d' \<Longrightarrow> stmt (InsCompletion now r8) d d'"
| upd_completion: "update_completion now r8 d = Inr d' \<Longrightarrow> stmt (UpdCompletion now r8) d d'"
| ins_idem: "insert_idem r9 d = Inr d' \<Longrightarrow> stmt (InsIdem r9) d d'"
| end_transaction: "commit now () d = Inr ((), d') \<Longrightarrow> stmt (Commit now) d d'"

inductive_simps stmt_simps:
  "stmt (InsDataset r1) d d'" "stmt (InsVersion r2) d d'" "stmt (UpdVersion r2) d d'"
  "stmt (InsBlob r3) d d'" "stmt (UpdBlob r3) d d'" "stmt (InsEntry r4) d d'"
  "stmt (InsSession r5) d d'" "stmt (UpdSession r5) d d'" "stmt (InsPart r6) d d'"
  "stmt (UpdPart r6) d d'" "stmt (InsAdmission now r7) d d'" "stmt (UpdAdmission now r7) d d'"
  "stmt (InsCompletion now r8) d d'" "stmt (UpdCompletion now r8) d d'" "stmt (InsIdem r9) d d'"
  "stmt (Commit now) d d'"

text \<open>
  A run: statements one after another, all of which satisfy \<open>P\<close>.
\<close>

inductive run :: "(command \<Rightarrow> bool) \<Rightarrow> db \<Rightarrow> db \<Rightarrow> bool" for P where
  run_refl: "run P d d"
| run_step: "run P d d' \<Longrightarrow> stmt c d' d'' \<Longrightarrow> P c \<Longrightarrow> run P d d''"

lemma run_one: "stmt c d d' \<Longrightarrow> P c \<Longrightarrow> run P d d'"
  by (rule run_step [OF run_refl])

lemma run_trans: "run P d' d'' \<Longrightarrow> run P d d' \<Longrightarrow> run P d d''"
  by (induction rule: run.induct) (auto intro: run_step)

lemma run_mono: "run P d d' \<Longrightarrow> (\<And>c. P c \<Longrightarrow> Q c) \<Longrightarrow> run Q d d'"
  by (induction rule: run.induct) (auto intro: run_refl run_step)

lemma run_preserves:
  assumes "\<And>c d d'. I d \<Longrightarrow> stmt c d d' \<Longrightarrow> P c \<Longrightarrow> I d'"
  shows "run P d d' \<Longrightarrow> I d \<Longrightarrow> I d'"
  by (induction rule: run.induct) (auto intro: assms)

text \<open>
  A relation between the states before and after that is reflexive and transitive, and that
  every statement keeps on states satisfying \<open>I\<close>, holds of a run.
\<close>

lemma run_relates:
  assumes "\<And>c d d'. I d \<Longrightarrow> stmt c d d' \<Longrightarrow> P c \<Longrightarrow> I d' \<and> R d d'"
    and "\<And>d. R d d" and "\<And>a b c. R a b \<Longrightarrow> R b c \<Longrightarrow> R a c"
  shows "run P d d' \<Longrightarrow> I d \<Longrightarrow> I d' \<and> R d d'"
proof (induction rule: run.induct)
  case (run_refl d)
  then show ?case using assms(2) by blast
next
  case (run_step d d' c d'')
  then show ?case using assms(1,3) by blast
qed

end
