(* ===== verification/History.thy ===== *)
theory History
  imports Schema
begin

text \<open>
  What holds of every history of accepted statements, whoever sends them: the invariant \<open>wf_db\<close>
  of a single state (keys, unique constraints, column checks, references) and the relation
  \<open>db_evolves\<close> between an earlier and a later state (what is published, sealed, terminal or
  recorded does not change; lease epochs do not go back).
\<close>

section \<open>The invariant of a state\<close>

definition keys_ok :: "db \<Rightarrow> bool" where
  "keys_ok d =
     (distinct (map ds_id (db_datasets d)) \<and> distinct (map dv_id (db_versions d))
      \<and> distinct (map bl_id (db_blobs d)) \<and> distinct (map us_id (db_sessions d))
      \<and> distinct (map part_key (db_parts d)) \<and> distinct (map al_session_id (db_admissions d))
      \<and> distinct (map cl_session_id (db_completions d)) \<and> distinct (map idem_key (db_idem d))
      \<and> distinct (map (\<lambda>e. (de_version_id e, de_path e)) (db_entries d)))"

definition unique_ok :: "db \<Rightarrow> bool" where
  "unique_ok d =
     (distinct (map ds_name (db_datasets d)) \<and> distinct (map bl_sha (db_blobs d))
      \<and> distinct (map (\<lambda>e. (de_version_id e, de_ordinal e)) (db_entries d))
      \<and> (\<forall>r \<in> set (db_versions d). \<forall>x \<in> set (db_versions d). \<not> version_clash r x)
      \<and> (\<forall>r \<in> set (db_sessions d). \<forall>x \<in> set (db_sessions d). \<not> session_clash r x))"

definition checks_ok :: "db \<Rightarrow> bool" where
  "checks_ok d =
     ((\<forall>r \<in> set (db_datasets d). check_dataset r) \<and> (\<forall>r \<in> set (db_versions d). check_version r)
      \<and> (\<forall>r \<in> set (db_blobs d). check_blob r) \<and> (\<forall>r \<in> set (db_entries d). check_entry r)
      \<and> (\<forall>r \<in> set (db_sessions d). check_session r) \<and> (\<forall>r \<in> set (db_parts d). check_part r)
      \<and> (\<forall>r \<in> set (db_admissions d). check_admission r)
      \<and> (\<forall>r \<in> set (db_completions d). check_completion r)
      \<and> (\<forall>r \<in> set (db_idem d). check_idem r))"

definition refs_ok :: "db \<Rightarrow> bool" where
  "refs_ok d =
     ((\<forall>r \<in> set (db_versions d). dv_dataset_id r \<in> ds_id ` set (db_datasets d))
      \<and> (\<forall>r \<in> set (db_entries d). de_version_id r \<in> dv_id ` set (db_versions d)
           \<and> de_blob_id r \<in> bl_id ` set (db_blobs d))
      \<and> (\<forall>r \<in> set (db_sessions d). us_blob_id r \<in> bl_id ` set (db_blobs d)
           \<and> us_version_id r \<in> dv_id ` set (db_versions d))
      \<and> (\<forall>r \<in> set (db_parts d). up_session_id r \<in> us_id ` set (db_sessions d)))"

definition wf_db :: "db \<Rightarrow> bool" where
  "wf_db d = (keys_ok d \<and> unique_ok d \<and> checks_ok d \<and> refs_ok d)"

lemma empty_wf: "wf_db empty_db"
  by (simp add: wf_db_def keys_ok_def unique_ok_def checks_ok_def refs_ok_def empty_db_def)

lemma put_ids [simp]: "key ` set (tab_put key r rows) = key ` set rows"
  by (metis list.set_map tab_put_keys)

lemma put_mem: "x \<in> set (tab_put key r rows) \<Longrightarrow> x = r \<or> x \<in> set rows"
  using set_tab_put_subset by fastforce

lemma put_all: "(\<forall>x \<in> set rows. P x) \<Longrightarrow> P r \<Longrightarrow> \<forall>x \<in> set (tab_put key r rows). P x"
  using set_tab_put_subset by fastforce

text \<open>A column that an update keeps stays as it was.\<close>

lemma put_column:
  "distinct (map key rows) \<Longrightarrow> tab_get key (key r) rows = Some old \<Longrightarrow> f r = f old \<Longrightarrow>
     map f (tab_put key r rows) = map f rows"
proof -
  assume d: "distinct (map key rows)" and g: "tab_get key (key r) rows = Some old" and f: "f r = f old"
  have "x \<in> set rows \<Longrightarrow> key x = key r \<Longrightarrow> x = old" for x
    using tab_get_distinct [OF d, of x] g by simp
  then show ?thesis using f by (auto simp: tab_put_def)
qed

lemma guard_blob_identity: "guard_blob old new \<Longrightarrow> bl_sha new = bl_sha old \<and> bl_size new = bl_size old"
  by (simp add: guard_blob_def)

text \<open>An inserted entry takes a new path and a new ordinal of an unsealed version.\<close>

lemma insert_entry_Inr:
  assumes "insert_entry r d = Inr d'"
  shows "d' = d\<lparr>db_entries := db_entries d @ [r]\<rparr>"
    and "(de_version_id r, de_path r) \<notin> (\<lambda>e. (de_version_id e, de_path e)) ` set (db_entries d)"
    and "(de_version_id r, de_ordinal r) \<notin> (\<lambda>e. (de_version_id e, de_ordinal e)) ` set (db_entries d)"
    and "guard_dataset_entry d r" "check_entry r"
    and "de_version_id r \<in> dv_id ` set (db_versions d)" "de_blob_id r \<in> bl_id ` set (db_blobs d)"
proof -
  have c: "guard_dataset_entry d r \<and> check_entry r
      \<and> de_version_id r \<in> dv_id ` set (db_versions d) \<and> de_blob_id r \<in> bl_id ` set (db_blobs d)
      \<and> \<not> (\<exists>x \<in> set (db_entries d). de_version_id x = de_version_id r
               \<and> (de_path x = de_path r \<or> de_ordinal x = de_ordinal r))"
    and "d' = d\<lparr>db_entries := db_entries d @ [r]\<rparr>"
    using assms unfolding insert_entry_def by (simp_all split: if_splits)
  then show "d' = d\<lparr>db_entries := db_entries d @ [r]\<rparr>" by blast
  have no: "\<And>x. x \<in> set (db_entries d) \<Longrightarrow> de_version_id x = de_version_id r \<Longrightarrow>
      de_path x \<noteq> de_path r \<and> de_ordinal x \<noteq> de_ordinal r"
    using c by blast
  show "(de_version_id r, de_path r) \<notin> (\<lambda>e. (de_version_id e, de_path e)) ` set (db_entries d)"
    using no by force
  show "(de_version_id r, de_ordinal r) \<notin> (\<lambda>e. (de_version_id e, de_ordinal e)) ` set (db_entries d)"
    using no by force
  show "guard_dataset_entry d r" "check_entry r"
    "de_version_id r \<in> dv_id ` set (db_versions d)" "de_blob_id r \<in> bl_id ` set (db_blobs d)"
    using c by simp_all
qed

lemma stmt_keys:
  assumes "stmt c d d'" "keys_ok d"
  shows "keys_ok d'"
  using assms(1)
proof cases
  case (ins_entry r)
  then show ?thesis using assms(2) insert_entry_Inr(1,2) [OF ins_entry(2)] by (simp add: keys_ok_def)
qed (use assms(2) in \<open>auto simp: statement_defs keys_ok_def commit_Inr split: if_splits option.splits\<close>)

lemma clash_sym: "version_clash r x \<longleftrightarrow> version_clash x r" "session_clash s y \<longleftrightarrow> session_clash y s"
  by (auto simp: version_clash_def session_clash_def)

lemma clash_self [simp]: "\<not> version_clash r r" "\<not> session_clash s s"
  by (simp_all add: version_clash_def session_clash_def)

text \<open>A row that clashes with none of the others may join or replace them.\<close>

lemma clash_insert:
  assumes "\<forall>x \<in> S. \<forall>y \<in> S. \<not> C x y" "\<forall>x \<in> S. \<not> C r x" "\<And>x y. C x y \<longleftrightarrow> C y x" "\<not> C r r"
  shows "\<forall>x \<in> insert r S. \<forall>y \<in> insert r S. \<not> C x y"
  using assms by blast

lemma clash_put:
  assumes "\<forall>x \<in> set rows. \<forall>y \<in> set rows. \<not> C x y" "\<forall>x \<in> set rows. \<not> C r x"
    and "\<And>x y. C x y \<longleftrightarrow> C y x" "\<not> C r r"
  shows "\<forall>x \<in> set (tab_put key r rows). \<forall>y \<in> set (tab_put key r rows). \<not> C x y"
  using clash_insert [of "set rows" C r] assms set_tab_put_subset [of key r rows] by blast

lemma stmt_unique:
  assumes "stmt c d d'" "keys_ok d" "unique_ok d"
  shows "unique_ok d'"
  using assms(1)
proof cases
  case (ins_version r)
  then show ?thesis
    using assms(3) clash_insert [of "set (db_versions d)" version_clash r] clash_sym clash_self
    by (auto simp: statement_defs unique_ok_def split: if_splits)
next
  case (upd_version r)
  then show ?thesis
    using assms(3) clash_put [of "db_versions d" version_clash r dv_id] clash_sym clash_self
    by (auto simp: statement_defs unique_ok_def split: if_splits option.splits)
next
  case (ins_session r)
  then show ?thesis
    using assms(3) clash_insert [of "set (db_sessions d)" session_clash r] clash_sym clash_self
    by (auto simp: statement_defs unique_ok_def split: if_splits)
next
  case (upd_session r)
  then show ?thesis
    using assms(3) clash_put [of "db_sessions d" session_clash r us_id] clash_sym clash_self
    by (auto simp: statement_defs unique_ok_def split: if_splits option.splits)
next
  case (upd_blob r)
  then obtain old where "get_blob d (bl_id r) = Some old" "guard_blob old r"
      "d' = d\<lparr>db_blobs := tab_put bl_id r (db_blobs d),
              db_deferred := db_deferred d @ [RequirePublication (bl_id r)]\<rparr>"
    by (auto simp: statement_defs split: if_splits option.splits)
  then show ?thesis
    using assms(2,3) put_column [of bl_id "db_blobs d" r old bl_sha]
    by (simp add: unique_ok_def keys_ok_def get_blob_def guard_blob_identity)
next
  case (ins_entry r)
  then show ?thesis
    using assms(3) insert_entry_Inr(1,3) [OF ins_entry(2)] by (simp add: unique_ok_def)
qed (use assms(3) in \<open>auto simp: statement_defs unique_ok_def commit_Inr split: if_splits option.splits\<close>)

lemma stmt_checks: "stmt c d d' \<Longrightarrow> checks_ok d \<Longrightarrow> checks_ok d'"
  by (erule stmt.cases)
     (auto simp: statement_defs checks_ok_def commit_Inr dest!: put_mem split: if_splits option.splits)

lemma stmt_refs:
  assumes "stmt c d d'" "refs_ok d"
  shows "refs_ok d'"
  using assms(1)
proof cases
  case (ins_entry r)
  then show ?thesis
    using assms(2) insert_entry_Inr(1,6,7) [OF ins_entry(2)] by (simp add: refs_ok_def)
next
  case (upd_session r)
  then obtain old where old: "get_session d (us_id r) = Some old"
      "session_identity r = session_identity old"
      "d' = d\<lparr>db_sessions := tab_put us_id r (db_sessions d),
              db_deferred := db_deferred d @ [RequirePublication (us_blob_id r)]\<rparr>"
    by (auto simp: statement_defs guard_upload_session_def split: if_splits option.splits)
  then have "old \<in> set (db_sessions d)" by (auto dest: get_id)
  then have "us_blob_id r \<in> bl_id ` set (db_blobs d) \<and> us_version_id r \<in> dv_id ` set (db_versions d)"
    using assms(2) old(2) by (simp add: refs_ok_def session_identity_def)
  then show ?thesis
    using assms(2) by (auto simp: old(3) refs_ok_def dest!: put_mem)
next
  case (ins_part r)
  then have r: "get_session d (up_session_id r) \<noteq> None" "d' = d\<lparr>db_parts := db_parts d @ [r]\<rparr>"
    by (auto simp: statement_defs guard_upload_part_def split: if_splits option.splits)
  then have "up_session_id r \<in> us_id ` set (db_sessions d)" by (metis (no_types) get_id(4) imageI option.exhaust)
  then show ?thesis using assms(2) r(2) by (simp add: refs_ok_def)
next
  case (upd_part r)
  then have r: "get_session d (up_session_id r) \<noteq> None"
      "d' = d\<lparr>db_parts := tab_put part_key r (db_parts d)\<rparr>"
    by (auto simp: statement_defs guard_upload_part_def split: if_splits option.splits)
  then have "up_session_id r \<in> us_id ` set (db_sessions d)" by (metis (no_types) get_id(4) imageI option.exhaust)
  then show ?thesis
    using assms(2) r(2) by (auto simp: refs_ok_def dest!: put_mem)
qed (use assms(2) in \<open>auto simp: statement_defs refs_ok_def commit_Inr dest!: put_mem
      split: if_splits option.splits\<close>)

lemma stmt_wf: "stmt c d d' \<Longrightarrow> wf_db d \<Longrightarrow> wf_db d'"
  unfolding wf_db_def using stmt_keys stmt_unique stmt_checks stmt_refs by blast

section \<open>How rows evolve\<close>

text \<open>
  The order on rows of one key: what a later row keeps of an earlier one.
\<close>

definition version_evolves :: "version_row \<Rightarrow> version_row \<Rightarrow> bool" where
  "version_evolves v w =
     (dv_id w = dv_id v
      \<and> (dv_sealed_at v \<noteq> None \<longrightarrow> sealed_columns w = sealed_columns v)
      \<and> (dv_state v = V_READY \<longrightarrow> w = v))"

definition blob_evolves :: "blob_row \<Rightarrow> blob_row \<Rightarrow> bool" where
  "blob_evolves b c =
     (bl_id c = bl_id b \<and> bl_sha c = bl_sha b \<and> bl_size c = bl_size b
      \<and> bl_object_key c = bl_object_key b
      \<and> (bl_state b = B_AVAILABLE \<longrightarrow> c = b))"

definition ended :: "session_row \<Rightarrow> bool" where
  "ended s =
     (us_state s \<in> {M_COMPLETED, M_FAILED}
      \<or> us_strategy s = MULTIPART \<and> us_state s \<in> {M_ABORTED, M_CANCELLED})"

definition session_evolves :: "session_row \<Rightarrow> session_row \<Rightarrow> bool" where
  "session_evolves s t =
     (us_id t = us_id s \<and> session_identity t = session_identity s
      \<and> plan_columns t = plan_columns s
      \<and> (us_provider_id s \<noteq> None \<longrightarrow> us_provider_id t = us_provider_id s)
      \<and> (ended s \<longrightarrow> t = s))"

definition part_evolves :: "part_row \<Rightarrow> part_row \<Rightarrow> bool" where
  "part_evolves p q = (part_identity q = part_identity p)"

definition admission_evolves :: "admission_row \<Rightarrow> admission_row \<Rightarrow> bool" where
  "admission_evolves a b =
     (al_session_id b = al_session_id a \<and> al_epoch a \<le> al_epoch b \<and> al_renewed_at a \<le> al_renewed_at b
      \<and> (al_epoch b = al_epoch a \<longrightarrow>
           al_owner_id b = al_owner_id a \<and> al_invocation_id b = al_invocation_id a
           \<and> al_acquired_at b = al_acquired_at a))"

definition completion_evolves :: "completion_row \<Rightarrow> completion_row \<Rightarrow> bool" where
  "completion_evolves a b =
     (cl_session_id b = cl_session_id a \<and> cl_epoch a \<le> cl_epoch b \<and> cl_renewed_at a \<le> cl_renewed_at b
      \<and> (cl_epoch b = cl_epoch a \<longrightarrow>
           cl_owner_id b = cl_owner_id a \<and> cl_acquired_at b = cl_acquired_at a))"

lemmas evolves_defs = version_evolves_def blob_evolves_def session_evolves_def part_evolves_def
  admission_evolves_def completion_evolves_def

definition entries_evolve :: "db \<Rightarrow> db \<Rightarrow> bool" where
  "entries_evolve d d' =
     (set (db_entries d) \<subseteq> set (db_entries d')
      \<and> (\<forall>i v. get_version d i = Some v \<and> dv_sealed_at v \<noteq> None \<longrightarrow> entries_of d' i = entries_of d i))"

definition db_evolves :: "db \<Rightarrow> db \<Rightarrow> bool" where
  "db_evolves d d' =
     (grows ds_id (=) (db_datasets d) (db_datasets d')
      \<and> grows dv_id version_evolves (db_versions d) (db_versions d')
      \<and> grows bl_id blob_evolves (db_blobs d) (db_blobs d')
      \<and> grows us_id session_evolves (db_sessions d) (db_sessions d')
      \<and> grows part_key part_evolves (db_parts d) (db_parts d')
      \<and> grows al_session_id admission_evolves (db_admissions d) (db_admissions d')
      \<and> grows cl_session_id completion_evolves (db_completions d) (db_completions d')
      \<and> grows idem_key (=) (db_idem d) (db_idem d')
      \<and> entries_evolve d d')"

lemma evolves_refl [simp]:
  "version_evolves v v" "blob_evolves b b" "session_evolves s s" "part_evolves p p"
  "admission_evolves a a" "completion_evolves c c"
  by (simp_all add: evolves_defs)

lemma evolves_trans:
  "version_evolves v1 v2 \<Longrightarrow> version_evolves v2 v3 \<Longrightarrow> version_evolves v1 v3"
  "blob_evolves b1 b2 \<Longrightarrow> blob_evolves b2 b3 \<Longrightarrow> blob_evolves b1 b3"
  "session_evolves s1 s2 \<Longrightarrow> session_evolves s2 s3 \<Longrightarrow> session_evolves s1 s3"
  "part_evolves p1 p2 \<Longrightarrow> part_evolves p2 p3 \<Longrightarrow> part_evolves p1 p3"
  by (auto simp: evolves_defs sealed_columns_def session_identity_def plan_columns_def)

lemma admission_evolves_trans:
  assumes "admission_evolves a b" "admission_evolves b c"
  shows "admission_evolves a c"
proof -
  have "al_epoch b = al_epoch a" "al_epoch c = al_epoch b" if "al_epoch c = al_epoch a"
    using assms that by (simp_all add: admission_evolves_def)
  then show ?thesis using assms by (simp add: admission_evolves_def)
qed

lemma completion_evolves_trans:
  assumes "completion_evolves a b" "completion_evolves b c"
  shows "completion_evolves a c"
proof -
  have "cl_epoch b = cl_epoch a" "cl_epoch c = cl_epoch b" if "cl_epoch c = cl_epoch a"
    using assms that by (simp_all add: completion_evolves_def)
  then show ?thesis using assms by (simp add: completion_evolves_def)
qed

lemmas lease_evolves_trans = admission_evolves_trans completion_evolves_trans

lemma entries_evolve_refl: "entries_evolve d d"
  by (simp add: entries_evolve_def)

lemma entries_evolve_trans:
  assumes "entries_evolve a b" "entries_evolve b c"
    and "grows dv_id version_evolves (db_versions a) (db_versions b)"
  shows "entries_evolve a c"
proof -
  have "\<exists>w. get_version b i = Some w \<and> dv_sealed_at w \<noteq> None"
    if "get_version a i = Some v" "dv_sealed_at v \<noteq> None" for i v
    using growsD [OF assms(3), of i v] that
    by (auto simp: get_version_def version_evolves_def sealed_columns_def)
  then show ?thesis using assms(1,2) unfolding entries_evolve_def by (metis subset_trans)
qed

lemma db_evolves_refl: "db_evolves d d"
  by (simp add: db_evolves_def grows_refl entries_evolve_refl)

lemma db_evolves_trans: "db_evolves a b \<Longrightarrow> db_evolves b c \<Longrightarrow> db_evolves a c"
  unfolding db_evolves_def
  by (intro conjI)
     (blast intro: grows_trans [of "(=)"] grows_trans [of version_evolves] grows_trans [of blob_evolves]
        grows_trans [of session_evolves] grows_trans [of part_evolves]
        grows_trans [of admission_evolves] grows_trans [of completion_evolves]
        evolves_trans lease_evolves_trans entries_evolve_trans)+

text \<open>Every accepted statement on a well-formed state is a step of this order.\<close>

lemma grows_version: "grows dv_id version_evolves rows rows"
  and grows_blob: "grows bl_id blob_evolves rows1 rows1"
  and grows_session: "grows us_id session_evolves rows2 rows2"
  and grows_part: "grows part_key part_evolves rows3 rows3"
  and grows_admission: "grows al_session_id admission_evolves rows4 rows4"
  and grows_completion: "grows cl_session_id completion_evolves rows5 rows5"
  by (rule grows_refl, simp)+

lemmas grows_here = grows_refl [of "(=)"] grows_version grows_blob grows_session grows_part
  grows_admission grows_completion grows_snoc

lemma check_single_put:
  "check_session s \<Longrightarrow> us_strategy s = SINGLE_PUT \<Longrightarrow>
     plan_columns s = (None, None, None, None, None) \<and> us_provider_id s = None"
  by (simp add: check_session_def check_multipart_plan_def plan_columns_def)

lemma guard_session_evolves:
  assumes "guard_upload_session d (Some s) t" "check_session s" "check_session t" "us_id t = us_id s"
  shows "session_evolves s t"
proof (cases "us_strategy s")
  case SINGLE_PUT
  then have "us_strategy t = SINGLE_PUT"
    using assms(1) by (simp add: guard_upload_session_def session_identity_def)
  then show ?thesis
    using assms SINGLE_PUT check_single_put [of s] check_single_put [of t]
    by (auto simp: guard_upload_session_def guard_single_put_def session_evolves_def ended_def)
next
  case MULTIPART
  then show ?thesis
    using assms
    by (auto simp: guard_upload_session_def guard_multipart_def session_evolves_def ended_def)
qed

lemma stmt_entries:
  assumes "stmt c d d'" "keys_ok d"
  shows "entries_evolve d d'"
  using assms(1)
proof cases
  case (ins_entry r)
  have d': "d' = d\<lparr>db_entries := db_entries d @ [r]\<rparr>" and g: "guard_dataset_entry d r"
    using insert_entry_Inr(1,4) [OF ins_entry(2)] by simp_all
  have "entries_of d' i = entries_of d i"
    if "get_version d i = Some v" "dv_sealed_at v \<noteq> None" for i v
    using that g by (auto simp: d' entries_of_def guard_dataset_entry_def)
  then show ?thesis by (auto simp: entries_evolve_def d')
qed (auto simp: statement_defs entries_evolve_def entries_of_def commit_Inr
      split: if_splits option.splits)

text \<open>An update keeps what may not change in its row; the other tables stay as they are.\<close>

lemma update_version_evolves:
  assumes "update_version r d = Inr d'" "entries_evolve d d'"
  shows "db_evolves d d'"
proof -
  obtain old where "get_version d (dv_id r) = Some old" "guard_dataset_version d old r"
      "d' = d\<lparr>db_versions := tab_put dv_id r (db_versions d),
              db_deferred := db_deferred d @ [RequireSealed (dv_id r)]\<rparr>"
    using assms(1) by (auto simp: statement_defs split: if_splits option.splits)
  moreover from this have "version_evolves old r"
    using get_id(2) [of d "dv_id r" old] by (auto simp: guard_dataset_version_def version_evolves_def)
  ultimately show ?thesis
    using assms(2) by (simp add: db_evolves_def grows_here grows_put [of dv_id r _ old] get_version_def)
qed

lemma update_blob_evolves:
  assumes "update_blob r d = Inr d'" "entries_evolve d d'"
  shows "db_evolves d d'"
proof -
  obtain old where "get_blob d (bl_id r) = Some old" "guard_blob old r"
      "d' = d\<lparr>db_blobs := tab_put bl_id r (db_blobs d),
              db_deferred := db_deferred d @ [RequirePublication (bl_id r)]\<rparr>"
    using assms(1) by (auto simp: statement_defs split: if_splits option.splits)
  moreover from this have "blob_evolves old r"
    using get_id(3) [of d "bl_id r" old] by (auto simp: guard_blob_def blob_evolves_def)
  ultimately show ?thesis
    using assms(2) by (simp add: db_evolves_def grows_here grows_put [of bl_id r _ old] get_blob_def)
qed

lemma update_session_evolves:
  assumes "update_session r d = Inr d'" "entries_evolve d d'" "wf_db d"
  shows "db_evolves d d'"
proof -
  obtain old where o: "get_session d (us_id r) = Some old" "guard_upload_session d (Some old) r"
      "check_session r"
      "d' = d\<lparr>db_sessions := tab_put us_id r (db_sessions d),
              db_deferred := db_deferred d @ [RequirePublication (us_blob_id r)]\<rparr>"
    using assms(1) by (auto simp: statement_defs split: if_splits option.splits)
  moreover from o(1) have "check_session old" "us_id r = us_id old"
    using get_id(4) [of d "us_id r" old] assms(3) by (auto simp: wf_db_def checks_ok_def)
  ultimately have "session_evolves old r" using guard_session_evolves by blast
  then show ?thesis
    using assms(2) o by (simp add: db_evolves_def grows_here grows_put [of us_id r _ old] get_session_def)
qed

lemma update_part_evolves:
  assumes "update_part r d = Inr d'" "entries_evolve d d'"
  shows "db_evolves d d'"
proof -
  obtain old where o: "tab_get part_key (part_key r) (db_parts d) = Some old"
      "guard_upload_part d (Some old) r" "d' = d\<lparr>db_parts := tab_put part_key r (db_parts d)\<rparr>"
    using assms(1) by (auto simp: statement_defs split: if_splits option.splits)
  then have "part_evolves old r"
    by (auto simp: guard_upload_part_def guard_part_update_def part_evolves_def split: option.splits)
  then show ?thesis
    using assms(2) o by (simp add: db_evolves_def grows_here grows_put [of part_key r _ old])
qed

lemma update_admission_evolves:
  assumes "update_admission now r d = Inr d'" "entries_evolve d d'"
  shows "db_evolves d d'"
proof -
  obtain old where o: "get_admission d (al_session_id r) = Some old"
      "guard_admission_lease now (Some old) r"
      "d' = d\<lparr>db_admissions := tab_put al_session_id r (db_admissions d)\<rparr>"
    using assms(1) by (auto simp: statement_defs split: if_splits option.splits)
  then have "admission_evolves old r"
    by (auto simp: guard_admission_lease_def admission_evolves_def split: if_splits)
  then show ?thesis
    using assms(2) o by (simp add: db_evolves_def grows_here grows_put [of al_session_id r _ old] get_admission_def)
qed

lemma update_completion_evolves:
  assumes "update_completion now r d = Inr d'" "entries_evolve d d'"
  shows "db_evolves d d'"
proof -
  obtain old where o: "get_completion d (cl_session_id r) = Some old"
      "guard_completion_lease now (Some old) r"
      "d' = d\<lparr>db_completions := tab_put cl_session_id r (db_completions d)\<rparr>"
    using assms(1) by (auto simp: statement_defs split: if_splits option.splits)
  then have "completion_evolves old r"
    by (auto simp: guard_completion_lease_def completion_evolves_def split: if_splits)
  then show ?thesis
    using assms(2) o by (simp add: db_evolves_def grows_here grows_put [of cl_session_id r _ old] get_completion_def)
qed

lemma stmt_evolves:
  assumes "stmt c d d'" "wf_db d"
  shows "db_evolves d d'"
proof -
  have e: "entries_evolve d d'" using stmt_entries assms by (simp add: wf_db_def)
  show ?thesis using assms(1)
  proof cases
    case (upd_version r) show ?thesis by (rule update_version_evolves [OF upd_version(2) e])
  next
    case (upd_blob r) show ?thesis by (rule update_blob_evolves [OF upd_blob(2) e])
  next
    case (upd_session r) show ?thesis by (rule update_session_evolves [OF upd_session(2) e assms(2)])
  next
    case (upd_part r) show ?thesis by (rule update_part_evolves [OF upd_part(2) e])
  next
    case (upd_admission now r) show ?thesis by (rule update_admission_evolves [OF upd_admission(2) e])
  next
    case (upd_completion now r) show ?thesis by (rule update_completion_evolves [OF upd_completion(2) e])
  qed (use e in \<open>auto simp: statement_defs db_evolves_def grows_here commit_Inr split: if_splits\<close>)
qed

lemma run_wf: "run P d d' \<Longrightarrow> wf_db d \<Longrightarrow> wf_db d' \<and> db_evolves d d'"
  using run_relates [of wf_db P db_evolves] stmt_wf stmt_evolves db_evolves_refl db_evolves_trans
  by blast

section \<open>Deferred constraints\<close>

text \<open>
  Within a transaction, whatever a deferred trigger would refuse is still queued; so a committed
  state, whose queue is empty, has every version sealed and every multipart publication valid.
\<close>

definition sealed_or_queued :: "db \<Rightarrow> bool" where
  "sealed_or_queued d =
     (\<forall>v \<in> set (db_versions d). dv_sealed_at v \<noteq> None \<or> RequireSealed (dv_id v) \<in> set (db_deferred d))"

definition published_or_queued :: "db \<Rightarrow> bool" where
  "published_or_queued d =
     (\<forall>b \<in> set (db_blobs d). publication_states_ok d b \<or> RequirePublication (bl_id b) \<in> set (db_deferred d))"

definition settled :: "db \<Rightarrow> bool" where
  "settled d = (sealed_or_queued d \<and> published_or_queued d)"

lemma empty_settled: "settled empty_db"
  by (simp add: settled_def sealed_or_queued_def published_or_queued_def empty_db_def)

lemma multipart_sessions_other:
  "us_blob_id r \<noteq> b \<Longrightarrow> (\<And>x. x \<in> set ss \<Longrightarrow> us_id x = us_id r \<Longrightarrow> us_blob_id x \<noteq> b) \<Longrightarrow>
     filter (\<lambda>s. us_blob_id s = b) (tab_put us_id r ss) = filter (\<lambda>s. us_blob_id s = b) ss"
  by (induction ss) (auto simp: tab_put_def)

lemma publication_same:
  "sessions_of d' (bl_id b) = sessions_of d (bl_id b) \<Longrightarrow>
     publication_states_ok d' b = publication_states_ok d b"
  by (simp add: publication_states_ok_def multipart_sessions_def)

lemma stmt_sealed:
  assumes "stmt c d d'" "sealed_or_queued d"
  shows "sealed_or_queued d'"
  using assms(1)
proof cases
  case (end_transaction now)
  then show ?thesis
    using assms(2)
    by (auto simp: commit_Inr sealed_or_queued_def deferred_ok_def require_sealed_version_def
        split: deferred.splits)
qed (use assms(2) in \<open>auto simp: statement_defs sealed_or_queued_def dest!: put_mem
      split: if_splits option.splits\<close>)

lemma update_session_Inr:
  assumes "update_session r d = Inr d'"
  obtains old where "get_session d (us_id r) = Some old" "guard_upload_session d (Some old) r"
    "check_session r" "us_blob_id r = us_blob_id old"
    "d' = d\<lparr>db_sessions := tab_put us_id r (db_sessions d),
            db_deferred := db_deferred d @ [RequirePublication (us_blob_id r)]\<rparr>"
  using assms
  by (auto simp: update_session_def guard_upload_session_def session_identity_def
      split: if_splits option.splits)

lemma commit_publication:
  assumes "keys_ok d" "\<forall>t \<in> set (db_deferred d). deferred_ok d now t" "b \<in> set (db_blobs d)"
    and "RequirePublication (bl_id b) \<in> set (db_deferred d)"
  shows "publication_states_ok d b"
proof -
  have "get_blob d (bl_id b) = Some b"
    using assms(1,3) tab_get_distinct by (auto simp: get_blob_def keys_ok_def)
  moreover have "deferred_ok d now (RequirePublication (bl_id b))"
    using assms(2,4) by blast
  ultimately show ?thesis by (simp add: deferred_ok_def validate_m2_publication_def)
qed

lemma stmt_published:
  assumes "stmt c d d'" "wf_db d" "published_or_queued d"
  shows "published_or_queued d'"
  using assms(1)
proof cases
  case (end_transaction now)
  then have d': "d' = d\<lparr>db_deferred := []\<rparr>" "\<forall>t \<in> set (db_deferred d). deferred_ok d now t"
    by (auto simp: commit_Inr)
  have "publication_states_ok d' b" if "b \<in> set (db_blobs d)" for b
  proof -
    have "publication_states_ok d b"
      using that assms(2,3) d'(2) commit_publication [of d now b]
      by (auto simp: wf_db_def published_or_queued_def)
    then show ?thesis using publication_same [of d' b d] by (simp add: d'(1) sessions_of_def)
  qed
  then show ?thesis by (simp add: published_or_queued_def d'(1))
next
  case (ins_blob r)
  then have d': "d' = d\<lparr>db_blobs := db_blobs d @ [r]\<rparr>" "bl_id r \<notin> bl_id ` set (db_blobs d)"
    by (auto simp: statement_defs split: if_splits)
  have "sessions_of d (bl_id r) = []"
  proof -
    have "\<forall>x \<in> set (db_sessions d). us_blob_id x \<in> bl_id ` set (db_blobs d)"
      using assms(2) by (simp add: wf_db_def refs_ok_def)
    then show ?thesis using d'(2) by (metis (lifting) sessions_of_def filter_False)
  qed
  then have "publication_states_ok d' r"
    by (simp add: publication_states_ok_def multipart_sessions_def sessions_of_def d'(1))
  moreover have "publication_states_ok d' b = publication_states_ok d b" for b
    by (rule publication_same) (simp add: sessions_of_def d'(1))
  ultimately show ?thesis using assms(3) by (auto simp: published_or_queued_def d'(1))
next
  case (upd_blob r)
  then have d': "d' = d\<lparr>db_blobs := tab_put bl_id r (db_blobs d),
                         db_deferred := db_deferred d @ [RequirePublication (bl_id r)]\<rparr>"
    by (auto simp: statement_defs split: if_splits option.splits)
  have "publication_states_ok d' b = publication_states_ok d b" for b
    by (rule publication_same) (simp add: sessions_of_def d')
  then show ?thesis using assms(3) by (auto simp: published_or_queued_def d' dest!: put_mem)
next
  case (ins_session r)
  then have d': "d' = d\<lparr>db_sessions := db_sessions d @ [r],
                         db_deferred := db_deferred d @ [RequirePublication (us_blob_id r)]\<rparr>"
    by (auto simp: statement_defs split: if_splits)
  have "publication_states_ok d' b = publication_states_ok d b" if "bl_id b \<noteq> us_blob_id r" for b
    using that by (intro publication_same) (auto simp: sessions_of_def d')
  then show ?thesis using assms(3) by (auto simp: published_or_queued_def d')
next
  case (upd_session r)
  then obtain old where o: "get_session d (us_id r) = Some old" "us_blob_id r = us_blob_id old"
      and d': "d' = d\<lparr>db_sessions := tab_put us_id r (db_sessions d),
                       db_deferred := db_deferred d @ [RequirePublication (us_blob_id r)]\<rparr>"
    by (auto elim: update_session_Inr)
  have "x = old" if "x \<in> set (db_sessions d)" "us_id x = us_id r" for x
    using tab_get_distinct [of us_id "db_sessions d" x] assms(2) that o(1)
    by (simp add: wf_db_def keys_ok_def get_session_def)
  then have "sessions_of d' (bl_id b) = sessions_of d (bl_id b)" if "bl_id b \<noteq> us_blob_id r" for b
    unfolding sessions_of_def d' using that o(2) by (simp, intro multipart_sessions_other) auto
  then have "publication_states_ok d' b = publication_states_ok d b" if "bl_id b \<noteq> us_blob_id r" for b
    using that publication_same by blast
  then show ?thesis using assms(3) by (auto simp: published_or_queued_def d')
qed (use assms(3) in \<open>auto simp: statement_defs published_or_queued_def publication_states_ok_def
      multipart_sessions_def sessions_of_def split: if_splits option.splits\<close>)

lemma stmt_settled: "stmt c d d' \<Longrightarrow> wf_db d \<Longrightarrow> settled d \<Longrightarrow> settled d'"
  unfolding settled_def using stmt_sealed stmt_published by blast

lemma run_settled: "run P d d' \<Longrightarrow> wf_db d \<and> settled d \<Longrightarrow> wf_db d' \<and> settled d'"
  by (rule run_preserves [of "\<lambda>d. wf_db d \<and> settled d" P]) (use stmt_settled stmt_wf in blast)+

section \<open>READY versions\<close>

text \<open>
  A READY version is sealed and all its blobs are AVAILABLE. Statements that write no READY
  version keep it so: sealed entries and AVAILABLE blobs do not change.
\<close>

text \<open>
  \<open>unpublishing c\<close>: the statement writes no READY version, and inserts versions unsealed. Only
  \<open>finalize_version\<close> sends one that does write a READY version.
\<close>

definition unpublishing :: "command \<Rightarrow> bool" where
  "unpublishing c = (case c of UpdVersion r \<Rightarrow> dv_state r \<noteq> V_READY | InsVersion r \<Rightarrow> dv_state r \<noteq> V_READY \<and> dv_sealed_at r = None
     | _ \<Rightarrow> True)"

lemma unpublishing_simps [simp]:
  "unpublishing (InsDataset r1)" "unpublishing (InsBlob r3)"
  "unpublishing (UpdBlob r3)" "unpublishing (InsEntry r4)" "unpublishing (InsSession r5)"
  "unpublishing (UpdSession r5)" "unpublishing (InsPart r6)" "unpublishing (UpdPart r6)"
  "unpublishing (InsAdmission now r7)" "unpublishing (UpdAdmission now r7)"
  "unpublishing (InsCompletion now r8)" "unpublishing (UpdCompletion now r8)"
  "unpublishing (InsIdem r9)" "unpublishing (Commit now)"
  "unpublishing (UpdVersion r2) \<longleftrightarrow> dv_state r2 \<noteq> V_READY"
  "unpublishing (InsVersion r2) \<longleftrightarrow> dv_state r2 \<noteq> V_READY \<and> dv_sealed_at r2 = None"
  by (simp_all add: unpublishing_def)

definition blobs_available :: "db \<Rightarrow> uuid \<Rightarrow> bool" where
  "blobs_available d i =
     (\<forall>x \<in> set (entries_of d i). \<exists>b. get_blob d (de_blob_id x) = Some b \<and> bl_state b = B_AVAILABLE)"

definition ready_ok :: "db \<Rightarrow> bool" where
  "ready_ok d =
     (\<forall>v \<in> set (db_versions d). dv_state v = V_READY \<longrightarrow>
        dv_sealed_at v \<noteq> None \<and> blobs_available d (dv_id v))"

lemma available_stays:
  assumes "db_evolves d d'" "get_version d i = Some v" "dv_sealed_at v \<noteq> None" "blobs_available d i"
  shows "blobs_available d' i"
  unfolding blobs_available_def
proof
  fix x assume x: "x \<in> set (entries_of d' i)"
  have same: "entries_of d' i = entries_of d i"
    using assms(1-3) by (auto simp: db_evolves_def entries_evolve_def)
  then obtain b where b: "get_blob d (de_blob_id x) = Some b" "bl_state b = B_AVAILABLE"
    using x assms(4) by (auto simp: blobs_available_def)
  have "grows bl_id blob_evolves (db_blobs d) (db_blobs d')"
    using assms(1) by (simp add: db_evolves_def)
  from growsD [OF this, of "de_blob_id x" b] obtain b' where
      "get_blob d' (de_blob_id x) = Some b'" "blob_evolves b b'"
    using b(1) by (auto simp: get_blob_def)
  then show "\<exists>b. get_blob d' (de_blob_id x) = Some b \<and> bl_state b = B_AVAILABLE"
    using b(2) by (auto simp: blob_evolves_def)
qed

lemma ready_versions_kept:
  assumes "stmt c d d'" "unpublishing c" "keys_ok d" "v \<in> set (db_versions d')" "dv_state v = V_READY"
  shows "v \<in> set (db_versions d)"
  using assms(1)
proof cases
  case (upd_version r)
  then show ?thesis
    using assms by (auto simp: statement_defs unpublishing_def dest!: put_mem
        split: if_splits option.splits)
next
  case (ins_version r)
  then show ?thesis
    using assms by (auto simp: statement_defs unpublishing_def split: if_splits)
qed (use assms in \<open>auto simp: statement_defs commit_Inr split: if_splits option.splits\<close>)

lemma stmt_ready:
  assumes "stmt c d d'" "unpublishing c" "wf_db d" "ready_ok d"
  shows "ready_ok d'"
  unfolding ready_ok_def
proof (intro ballI impI)
  fix v assume v: "v \<in> set (db_versions d')" "dv_state v = V_READY"
  have keys: "keys_ok d" using assms(3) by (simp add: wf_db_def)
  have old: "v \<in> set (db_versions d)" using ready_versions_kept [OF assms(1,2) keys v] .
  then have s: "dv_sealed_at v \<noteq> None" "blobs_available d (dv_id v)"
    using assms(4) v(2) by (auto simp: ready_ok_def)
  have "get_version d (dv_id v) = Some v"
    using old keys tab_get_distinct by (auto simp: get_version_def keys_ok_def)
  then show "dv_sealed_at v \<noteq> None \<and> blobs_available d' (dv_id v)"
    using available_stays [OF stmt_evolves [OF assms(1,3)]] s by blast
qed

lemma run_ready:
  "run unpublishing d d' \<Longrightarrow> wf_db d \<and> ready_ok d \<Longrightarrow> wf_db d' \<and> ready_ok d'"
  by (rule run_preserves [of "\<lambda>d. wf_db d \<and> ready_ok d" unpublishing])
     (use stmt_ready stmt_wf in blast)+

section \<open>Totals of sealed versions\<close>

text \<open>
  The trigger recounts a version when it is sealed. Entries of a sealed version and the sizes of
  blobs do not change after that, so the counts stay right, provided that no version is inserted
  already sealed (\<open>drafting\<close>).
\<close>

definition drafting :: "command \<Rightarrow> bool" where
  "drafting c = (case c of InsVersion r \<Rightarrow> dv_sealed_at r = None | _ \<Rightarrow> True)"

lemma drafting_simps [simp]: "unpublishing c \<Longrightarrow> drafting c" "drafting (UpdVersion r)" "drafting (Commit now)"
  by (simp_all add: drafting_def unpublishing_def split: command.splits)

definition blob_sizes :: "db \<Rightarrow> uuid \<Rightarrow> (uuid \<times> int) list" where
  "blob_sizes d i = map (\<lambda>(x, b). (bl_id b, bl_size b)) (joined d i)"

definition totals_ok :: "db \<Rightarrow> bool" where
  "totals_ok d =
     (\<forall>v \<in> set (db_versions d). dv_sealed_at v \<noteq> None \<longrightarrow> ordinals_ok d v \<and> summaries_ok d v)"

lemma summaries_of_sizes:
  "summaries_ok d r \<longleftrightarrow>
     sum_list (map snd (blob_sizes d (dv_id r))) = dv_logical_bytes r
     \<and> int (length (remdups (blob_sizes d (dv_id r)))) = dv_unique_blob_count r
     \<and> sum_list (map snd (remdups (blob_sizes d (dv_id r)))) = dv_unique_blob_bytes r"
  by (simp add: summaries_ok_def blob_sizes_def Let_def comp_def case_prod_unfold)

lemma sizes_stay:
  assumes "db_evolves d d'" "wf_db d" "entries_of d' i = entries_of d i"
  shows "blob_sizes d' i = blob_sizes d i"
proof -
  have "\<exists>b c. get_blob d (de_blob_id x) = Some b \<and> get_blob d' (de_blob_id x) = Some c
      \<and> bl_id c = bl_id b \<and> bl_size c = bl_size b" if "x \<in> set (entries_of d i)" for x
  proof -
    have "de_blob_id x \<in> bl_id ` set (db_blobs d)"
      using that assms(2) by (auto simp: entries_of_def wf_db_def refs_ok_def)
    then obtain b where b: "get_blob d (de_blob_id x) = Some b"
      by (cases "get_blob d (de_blob_id x)") (auto simp: get_blob_def tab_get_None)
    then show ?thesis
      using assms(1) growsD [of bl_id blob_evolves "db_blobs d" "db_blobs d'" "de_blob_id x" b]
      by (auto simp: db_evolves_def get_blob_def blob_evolves_def)
  qed
  note blobs = this
  let ?rows = "\<lambda>d. \<lambda>x. case get_blob d (de_blob_id x) of None \<Rightarrow> [] | Some b \<Rightarrow> [(x, b)]"
  have "set xs \<subseteq> set (entries_of d i) \<Longrightarrow>
      map (\<lambda>(x, b). (bl_id b, bl_size b)) (concat (map (?rows d') xs))
        = map (\<lambda>(x, b). (bl_id b, bl_size b)) (concat (map (?rows d) xs))" for xs
    using blobs by (induction xs) fastforce+
  then show ?thesis by (simp add: blob_sizes_def joined_def assms(3))
qed

lemma totals_columns:
  "dv_id w = dv_id v \<Longrightarrow> sealed_columns w = sealed_columns v \<Longrightarrow>
   entries_of d' (dv_id v) = entries_of d (dv_id v) \<Longrightarrow>
   blob_sizes d' (dv_id v) = blob_sizes d (dv_id v) \<Longrightarrow>
     ordinals_ok d' w = ordinals_ok d v \<and> summaries_ok d' w = summaries_ok d v"
  by (simp add: ordinals_ok_def summaries_of_sizes sealed_columns_def)

lemma totals_stay:
  assumes "db_evolves d d'" "wf_db d" "get_version d i = Some v" "dv_sealed_at v \<noteq> None"
    and "get_version d' i = Some w" "version_evolves v w"
  shows "ordinals_ok d' w = ordinals_ok d v \<and> summaries_ok d' w = summaries_ok d v"
proof -
  have i: "dv_id v = i" using get_id(2) [OF assms(3)] by simp
  have "entries_of d' i = entries_of d i"
    using assms(1,3,4) by (auto simp: db_evolves_def entries_evolve_def)
  then show ?thesis
    using sizes_stay [OF assms(1,2)] assms(4,6) i
    by (intro totals_columns) (auto simp: version_evolves_def)
qed

lemma stmt_totals:
  assumes "stmt c d d'" "drafting c" "wf_db d" "totals_ok d"
  shows "totals_ok d'"
  unfolding totals_ok_def
proof (intro ballI impI)
  fix w assume w: "w \<in> set (db_versions d')" "dv_sealed_at w \<noteq> None"
  have e: "db_evolves d d'" "wf_db d'" using stmt_evolves stmt_wf assms(1,3) by blast+
  have gw: "get_version d' (dv_id w) = Some w"
    using w(1) e(2) tab_get_distinct by (auto simp: get_version_def wf_db_def keys_ok_def)
  show "ordinals_ok d' w \<and> summaries_ok d' w"
  proof (cases "\<exists>v. get_version d (dv_id w) = Some v \<and> dv_sealed_at v \<noteq> None")
    case True
    then obtain v where v: "get_version d (dv_id w) = Some v" "dv_sealed_at v \<noteq> None" by blast
    have "version_evolves v w"
      using e(1) v(1) gw growsD [of dv_id version_evolves "db_versions d" "db_versions d'" "dv_id w" v]
      by (auto simp: db_evolves_def get_version_def)
    then have "ordinals_ok d' w = ordinals_ok d v \<and> summaries_ok d' w = summaries_ok d v"
      using totals_stay [OF e(1) assms(3) v gw] by simp
    then show ?thesis using assms(4) get_id(2) [OF v(1)] v(2) by (simp add: totals_ok_def)
  next
    case False
    then have new: "w \<notin> set (db_versions d)"
      using assms(3) w(2) tab_get_distinct by (fastforce simp: get_version_def wf_db_def keys_ok_def)
    show ?thesis
      using assms(1)
    proof cases
      case (upd_version r)
      then obtain old where o: "get_version d (dv_id r) = Some old" "guard_dataset_version d old r"
          "d' = d\<lparr>db_versions := tab_put dv_id r (db_versions d),
                  db_deferred := db_deferred d @ [RequireSealed (dv_id r)]\<rparr>"
        by (auto simp: statement_defs split: if_splits option.splits)
      have "w = r" using w(1) new o(3) put_mem by fastforce
      then have "ordinals_ok d w \<and> summaries_ok d w"
        using o(1,2) False w(2) by (auto simp: guard_dataset_version_def)
      moreover have "entries_of d' i = entries_of d i" "joined d' i = joined d i" for i
        by (simp_all add: o(3) entries_of_def joined_def get_blob_def)
      ultimately show ?thesis by (simp add: ordinals_ok_def summaries_ok_def)
    next
      case (ins_version r)
      then have "w = r" using w(1) new by (auto simp: statement_defs split: if_splits)
      then show ?thesis using assms(2) w(2) ins_version by (simp add: drafting_def)
    qed (use w(1) new in \<open>auto simp: statement_defs commit_Inr split: if_splits option.splits\<close>)
  qed
qed

lemma run_totals: "run drafting d d' \<Longrightarrow> wf_db d \<and> totals_ok d \<Longrightarrow> wf_db d' \<and> totals_ok d'"
  by (rule run_preserves [of "\<lambda>d. wf_db d \<and> totals_ok d" drafting]) (use stmt_totals stmt_wf in blast)+

end
