(* ===== verification/RegistryStore.thy ===== *)
theory RegistryStore
  imports History Manifest
begin

text \<open>
  The registry and single-PUT operations of \<^verbatim>\<open>SqlAlchemyStore\<close>
  (\<^verbatim>\<open>robolake/infrastructure/store.py\<close>). An operation maps the committed database to an error,
  which rolls back, or to its result and the next committed database. What a call draws from
  outside is its environment: the \<open>i\<close>-th fresh UUID, the \<open>i\<close>-th reading of the host's clock and
  the \<open>i\<close>-th reading of the database's clock. Row locks (\<^verbatim>\<open>FOR UPDATE\<close>, advisory locks) serialise
  transactions, so an operation is one step.
\<close>

section \<open>Environment and record conversion\<close>

record env =
  env_uuid :: "nat \<Rightarrow> uuid"
  env_wall :: "nat \<Rightarrow> int"
  env_clock :: "nat \<Rightarrow> int"

text \<open>\<^verbatim>\<open>.one_or_none()\<close>: several rows are \<^verbatim>\<open>MultipleResultsFound\<close>, an error of SQLAlchemy.\<close>

definition one_or_none :: "'a list \<Rightarrow> 'a option res" where
  "one_or_none rows =
     (case rows of [] \<Rightarrow> Inr None | [r] \<Rightarrow> Inr (Some r) | _ \<Rightarrow> Inl DatabaseError)"

definition first_row :: "'a list \<Rightarrow> 'a option" where
  "first_row rows = (case rows of [] \<Rightarrow> None | r # _ \<Rightarrow> Some r)"

definition to_dataset_record :: "unicode \<Rightarrow> dataset_row \<Rightarrow> dataset_record res" where
  "to_dataset_record U m =
     res_bind (mk_dataset_name U (ds_name m)) (\<lambda>n. Inr \<lparr>dsr_id = ds_id m, dsr_name = n\<rparr>)"

definition to_version_record :: "unicode \<Rightarrow> version_row \<Rightarrow> ustr \<Rightarrow> version_record res" where
  "to_version_record U m dataset_name =
     res_bind (mk_dataset_name U dataset_name) (\<lambda>n.
     res_bind (mk_digest (dv_manifest_sha m)) (\<lambda>sha.
       Inr \<lparr>vsr_id = dv_id m, vsr_dataset_id = dv_dataset_id m, vsr_dataset_name = n,
            vsr_number = dv_number m, vsr_manifest_sha = sha, vsr_state = dv_state m,
            vsr_file_count = dv_file_count m, vsr_logical_bytes = dv_logical_bytes m,
            vsr_unique_blob_count = dv_unique_blob_count m,
            vsr_unique_blob_bytes = dv_unique_blob_bytes m,
            vsr_failure_code = dv_failure_code m, vsr_failure_detail = dv_failure_detail m\<rparr>))"

definition to_blob_record :: "blob_row \<Rightarrow> blob_record res" where
  "to_blob_record m =
     res_bind (mk_digest (bl_sha m)) (\<lambda>sha.
       Inr \<lparr>blr_id = bl_id m, blr_sha = sha, blr_size = bl_size m,
            blr_object_key = bl_object_key m, blr_state = bl_state m,
            blr_failure_code = bl_failure_code m\<rparr>)"

definition require_single_put :: "session_row \<Rightarrow> unit res" where
  "require_single_put m = require (us_strategy m = SINGLE_PUT) IllegalTransitionError"

text \<open>\<^verbatim>\<open>UploadSessionState(model.state)\<close> raises \<^verbatim>\<open>ValueError\<close> on a multipart state.\<close>

definition session_state_of :: "multipart_state \<Rightarrow> session_state res" where
  "session_state_of s =
     (case s of
        M_CREATED \<Rightarrow> Inr S_CREATED | M_IN_PROGRESS \<Rightarrow> Inr S_IN_PROGRESS
      | M_COMPLETED \<Rightarrow> Inr S_COMPLETED | M_FAILED \<Rightarrow> Inr S_FAILED | _ \<Rightarrow> Inl PyValueError)"

definition to_upload_session_record :: "session_row \<Rightarrow> upload_session_record res" where
  "to_upload_session_record m =
     res_bind (require_single_put m) (\<lambda>_.
     res_bind (session_state_of (us_state m)) (\<lambda>s.
       Inr \<lparr>usr_id = us_id m, usr_blob_id = us_blob_id m, usr_initiating_version_id = us_version_id m,
            usr_state = s, usr_etag = us_etag m\<rparr>))"

record upload_context =
  uc_version :: version_record
  uc_blob :: blob_record
  uc_session :: "upload_session_record option"

definition mk_upload_context ::
    "unicode \<Rightarrow> version_row \<Rightarrow> ustr \<Rightarrow> blob_row \<Rightarrow> session_row option \<Rightarrow> upload_context res" where
  "mk_upload_context U version dataset_name blob upload =
     res_bind (to_version_record U version dataset_name) (\<lambda>v.
     res_bind (to_blob_record blob) (\<lambda>b.
     res_bind (case upload of None \<Rightarrow> Inr None
               | Some u \<Rightarrow> res_bind (to_upload_session_record u) (\<lambda>s. Inr (Some s))) (\<lambda>s.
       Inr \<lparr>uc_version = v, uc_blob = b, uc_session = s\<rparr>)))"

section \<open>Datasets and versions\<close>

definition find_or_add_dataset :: "env \<Rightarrow> dataset_name \<Rightarrow> db \<Rightarrow> (dataset_row \<times> db) res" where
  "find_or_add_dataset e name d =
     (case find (\<lambda>m. ds_name m = dn_value name) (db_datasets d) of
        Some m \<Rightarrow> Inr (m, d)
      | None \<Rightarrow>
          (let m = \<lparr>ds_id = env_uuid e 0, ds_name = dn_value name, ds_created_at = env_wall e 0\<rparr>
           in res_bind (insert_dataset m d) (\<lambda>d1. Inr (m, d1))))"

definition dataset_idem :: "ustr \<Rightarrow> sha256_digest \<Rightarrow> dataset_row \<Rightarrow> int \<Rightarrow> idem_row" where
  "dataset_idem key request m now =
     \<lparr>ik_scope = DATASET_CREATE, ik_key = key, ik_request_sha = digest_value request,
      ik_resource_type = Some RT_DATASET, ik_resource_id = Some (ds_id m),
      ik_http_status = Some 201, ik_response = Some (RespDataset (ds_id m) (ds_name m)),
      ik_created_at = now\<rparr>"

definition create_dataset ::
    "unicode \<Rightarrow> env \<Rightarrow> dataset_name \<Rightarrow> ustr \<Rightarrow> sha256_digest \<Rightarrow> db \<Rightarrow> (dataset_record \<times> db) res" where
  "create_dataset U e name key request d =
     (case get_idem d DATASET_CREATE key of
        Some replay \<Rightarrow>
          (if ik_request_sha replay \<noteq> digest_value request then Inl IdempotencyConflictError
           else
             case ik_resource_id replay of
               None \<Rightarrow> Inl IdempotencyConflictError
             | Some i \<Rightarrow>
                 (case get_dataset d i of
                    None \<Rightarrow> Inl IdempotencyConflictError
                  | Some m \<Rightarrow>
                      res_bind (to_dataset_record U m) (\<lambda>r. commit (env_clock e 0) r d)))
      | None \<Rightarrow>
          res_bind (find_or_add_dataset e name d) (\<lambda>(m, d1).
          res_bind (to_dataset_record U m) (\<lambda>r.
          res_bind (insert_idem (dataset_idem key request m (env_wall e 1)) d1) (\<lambda>d2.
            commit (env_clock e 0) r d2))))"

text \<open>
  \<^verbatim>\<open>_get_or_create_blob\<close>: \<^verbatim>\<open>INSERT ... ON CONFLICT DO NOTHING\<close> checks the new row first, then
  leaves an existing row of the same digest alone.
\<close>

definition get_or_create_blob ::
    "uuid \<Rightarrow> int \<Rightarrow> sha256_digest \<Rightarrow> int \<Rightarrow> db \<Rightarrow> (blob_row \<times> db) res" where
  "get_or_create_blob fresh now digest nbytes d =
     (let row = \<lparr>bl_id = fresh, bl_sha = digest_value digest, bl_size = nbytes,
                 bl_object_key = object_key_for digest, bl_state = B_PENDING,
                 bl_failure_code = None, bl_failure_detail = None, bl_created_at = now,
                 bl_verified_at = None\<rparr>
      in if \<not> check_blob row then Inl DatabaseError
         else
           res_bind
             (case find (\<lambda>b. bl_sha b = digest_value digest) (db_blobs d) of
                Some b \<Rightarrow> Inr (b, d)
              | None \<Rightarrow> res_bind (insert_blob row d) (\<lambda>d1. Inr (row, d1)))
             (\<lambda>(b, d1). if bl_size b \<noteq> nbytes then Inl ContentConflictError else Inr (b, d1)))"

fun add_entries :: "env \<Rightarrow> uuid \<Rightarrow> nat \<Rightarrow> manifest_entry list \<Rightarrow> db \<Rightarrow> db res" where
  "add_entries e v i [] d = Inr d"
| "add_entries e v i (x # xs) d =
     res_bind (get_or_create_blob (env_uuid e (Suc i)) (env_wall e (Suc i)) (me_sha x) (me_size x) d)
       (\<lambda>(b, d1).
         res_bind
           (insert_entry \<lparr>de_version_id = v, de_ordinal = int i, de_path = rp_value (me_path x),
                          de_blob_id = bl_id b\<rparr> d1)
           (\<lambda>d2. add_entries e v (Suc i) xs d2))"

definition next_version_number :: "db \<Rightarrow> uuid \<Rightarrow> int" where
  "next_version_number d ds =
     max0 (map dv_number (filter (\<lambda>v. dv_dataset_id v = ds) (db_versions d))) + 1"

definition new_version_row :: "env \<Rightarrow> uuid \<Rightarrow> int \<Rightarrow> manifest \<Rightarrow> version_row" where
  "new_version_row e ds number m =
     \<lparr>dv_id = env_uuid e 0, dv_dataset_id = ds, dv_number = number,
      dv_schema_version = mf_schema_version m, dv_manifest_bytes = mf_canonical m,
      dv_manifest_sha = digest_value (mf_sha256 m), dv_state = V_DRAFT,
      dv_file_count = file_count m, dv_logical_bytes = logical_bytes m,
      dv_unique_blob_count = unique_blob_count m, dv_unique_blob_bytes = unique_blob_bytes m,
      dv_failure_code = None, dv_failure_detail = None, dv_created_at = env_wall e 0,
      dv_sealed_at = None, dv_verifying_at = None, dv_ready_at = None\<rparr>"

text \<open>The body for a manifest the dataset does not have yet: draft, entries, seal.\<close>

definition seal_new_version :: "env \<Rightarrow> uuid \<Rightarrow> manifest \<Rightarrow> db \<Rightarrow> (version_row \<times> db) res" where
  "seal_new_version e ds m d =
     (let draft = new_version_row e ds (next_version_number d ds) m
      in res_bind (insert_version draft d) (\<lambda>d1.
         res_bind (add_entries e (dv_id draft) 0 (mf_entries m) d1) (\<lambda>d2.
           let sealed = draft\<lparr>dv_sealed_at := Some (env_wall e (Suc (length (mf_entries m))))\<rparr>
           in res_bind (update_version sealed d2) (\<lambda>d3. Inr (sealed, d3)))))"

definition version_idem :: "ustr \<Rightarrow> sha256_digest \<Rightarrow> version_row \<Rightarrow> int \<Rightarrow> idem_row" where
  "version_idem key request v now =
     \<lparr>ik_scope = VERSION_REGISTER, ik_key = key, ik_request_sha = digest_value request,
      ik_resource_type = Some RT_DATASET_VERSION, ik_resource_id = Some (dv_id v),
      ik_http_status = Some 201,
      ik_response = Some (RespVersion (dv_id v) (dv_dataset_id v) (dv_number v)),
      ik_created_at = now\<rparr>"

definition find_or_seal_version :: "env \<Rightarrow> uuid \<Rightarrow> manifest \<Rightarrow> db \<Rightarrow> (version_row \<times> db) res" where
  "find_or_seal_version e ds m d =
     (case find (\<lambda>v. dv_dataset_id v = ds \<and> dv_manifest_sha v = digest_value (mf_sha256 m))
             (db_versions d) of
        Some v \<Rightarrow> Inr (v, d)
      | None \<Rightarrow> seal_new_version e ds m d)"

definition register_transaction ::
    "unicode \<Rightarrow> env \<Rightarrow> uuid \<Rightarrow> manifest \<Rightarrow> ustr \<Rightarrow> sha256_digest \<Rightarrow> db \<Rightarrow> (version_record \<times> db) res" where
  "register_transaction U e ds m key request d =
     (case get_dataset d ds of
        None \<Rightarrow> Inl NotFoundError
      | Some dataset \<Rightarrow>
          (case get_idem d VERSION_REGISTER key of
             Some replay \<Rightarrow>
               (if ik_request_sha replay \<noteq> digest_value request then Inl IdempotencyConflictError
                else
                  case ik_resource_id replay of
                    None \<Rightarrow> Inl IdempotencyConflictError
                  | Some i \<Rightarrow>
                      (case get_version d i of
                         None \<Rightarrow> Inl IdempotencyConflictError
                       | Some v \<Rightarrow>
                           res_bind (to_version_record U v (ds_name dataset))
                             (\<lambda>r. commit (env_clock e 0) r d)))
           | None \<Rightarrow>
               res_bind (find_or_seal_version e ds m d) (\<lambda>(v, d1).
               res_bind (to_version_record U v (ds_name dataset)) (\<lambda>r.
               res_bind (insert_idem (version_idem key request v
                                        (env_wall e (length (mf_entries m) + 2))) d1) (\<lambda>d2.
                 commit (env_clock e 0) r d2)))))"

definition register_version ::
    "unicode \<Rightarrow> env \<Rightarrow> uuid \<Rightarrow> manifest \<Rightarrow> ustr \<Rightarrow> sha256_digest \<Rightarrow> db \<Rightarrow> (version_record \<times> db) res" where
  "register_version U e ds supplied key request d =
     res_bind (from_canonical_bytes U (mf_canonical supplied)) (\<lambda>canonical.
       if mf_sha256 canonical \<noteq> mf_sha256 supplied then Inl ManifestMismatchError
       else register_transaction U e ds canonical key request d)"

section \<open>Reading a version\<close>

definition resolve_version :: "unicode \<Rightarrow> dataset_reference \<Rightarrow> db \<Rightarrow> version_record res" where
  "resolve_version U ref d =
     res_bind
       (one_or_none
          (concat (map (\<lambda>v. map (\<lambda>s. (v, ds_name s))
                              (filter (\<lambda>s. ds_id s = dv_dataset_id v
                                           \<and> ds_name s = dn_value (dr_dataset ref)) (db_datasets d)))
                     (filter (\<lambda>v. dv_number v = dr_version_number ref) (db_versions d)))))
       (\<lambda>row. case row of
          None \<Rightarrow> Inl NotFoundError
        | Some (v, name) \<Rightarrow> to_version_record U v name)"

definition get_manifest :: "unicode \<Rightarrow> uuid \<Rightarrow> db \<Rightarrow> manifest res" where
  "get_manifest U v d =
     (case get_version d v of
        None \<Rightarrow> Inl NotFoundError
      | Some m \<Rightarrow> from_canonical_bytes U (dv_manifest_bytes m))"

definition get_status :: "unicode \<Rightarrow> uuid \<Rightarrow> db \<Rightarrow> version_status res" where
  "get_status U v d =
     (case get_version d v of
        None \<Rightarrow> Inl NotFoundError
      | Some m \<Rightarrow>
          (case get_dataset d (dv_dataset_id m) of
             None \<Rightarrow> Inl NotFoundError
           | Some s \<Rightarrow>
               (let blobs = map snd (joined d v);
                    ready = filter (\<lambda>b. bl_state b = B_AVAILABLE) blobs;
                    available = remdups (map (\<lambda>b. (bl_id b, bl_size b)) ready);
                    blocking = first_row (concat (map (\<lambda>b. case bl_failure_code b of
                                   None \<Rightarrow> [] | Some c \<Rightarrow> [c]) blobs))
                in res_bind (to_version_record U m (ds_name s)) (\<lambda>version.
                   res_bind (mk_snapshot_status (vsr_file_count version) (vsr_logical_bytes version)
                               (int (length ready)) (sum_list (map bl_size ready))) (\<lambda>snapshot.
                   res_bind (mk_content_status (vsr_unique_blob_count version)
                               (vsr_unique_blob_bytes version) (int (length available))
                               (sum_list (map snd available))) (\<lambda>content.
                     Inr \<lparr>vst_version = version, vst_snapshot = snapshot, vst_content = content,
                          vst_blocking = blocking\<rparr>))))))"

definition get_download_entry :: "unicode \<Rightarrow> uuid \<Rightarrow> int \<Rightarrow> db \<Rightarrow> manifest_entry option res" where
  "get_download_entry U v ordinal d =
     res_bind (one_or_none (filter (\<lambda>(x, b). de_ordinal x = ordinal) (joined d v))) (\<lambda>row.
       case row of
         None \<Rightarrow> Inr None
       | Some (x, b) \<Rightarrow>
           res_bind (mk_relative_path U (de_path x)) (\<lambda>p.
           res_bind (mk_digest (bl_sha b)) (\<lambda>sha.
           res_bind (mk_manifest_entry p (bl_size b) sha) (\<lambda>entry. Inr (Some entry)))))"

section \<open>Single-PUT uploads\<close>

definition new_single_put :: "uuid \<Rightarrow> uuid \<Rightarrow> uuid \<Rightarrow> int \<Rightarrow> session_row" where
  "new_single_put i blob version now =
     \<lparr>us_id = i, us_blob_id = blob, us_version_id = version, us_strategy = SINGLE_PUT,
      us_state = M_CREATED, us_etag = None, us_generation = None, us_provider_id = None,
      us_part_size = None, us_part_count = None, us_plan_schema = None, us_plan_sha = None,
      us_initiation_started_at = None, us_initiation_ambiguous_at = None,
      us_completion_requested_at = None, us_completion_reason = None, us_completion_phase = None,
      us_completion_attempted_at = None, us_completion_result = None, us_reconciled_at = None,
      us_absence_at = None, us_invalidated_at = None, us_verification_method = None,
      us_observed_sha = None, us_observed_size = None, us_read_bytes = None,
      us_verification_started_at = None, us_verification_completed_at = None, us_verifier = None,
      us_abort_requested_at = None, us_failure_code = None, us_failure_detail = None,
      us_created_at = now, us_last_activity_at = now, us_completed_at = None\<rparr>"

text \<open>
  \<^verbatim>\<open>ORDER BY created_at DESC LIMIT 1\<close>; of rows with one timestamp, the first.
\<close>

fun latest :: "session_row list \<Rightarrow> session_row option" where
  "latest [] = None"
| "latest (s # ss) =
     (case latest ss of
        None \<Rightarrow> Some s
      | Some t \<Rightarrow> (if us_created_at s < us_created_at t then Some t else Some s))"

definition upload_idem :: "ustr \<Rightarrow> sha256_digest \<Rightarrow> uuid \<Rightarrow> int \<Rightarrow> idem_row" where
  "upload_idem key request upload now =
     \<lparr>ik_scope = UPLOAD_SESSION_CREATE, ik_key = key, ik_request_sha = digest_value request,
      ik_resource_type = Some RT_UPLOAD_SESSION, ik_resource_id = Some upload,
      ik_http_status = Some 200, ik_response = Some (RespUpload upload), ik_created_at = now\<rparr>"

definition find_or_start_upload ::
    "env \<Rightarrow> uuid \<Rightarrow> blob_row \<Rightarrow> db \<Rightarrow> (session_row \<times> db) res" where
  "find_or_start_upload e v blob d =
     (case find (\<lambda>s. us_state s \<in> {M_CREATED, M_IN_PROGRESS}) (sessions_of d (bl_id blob)) of
        Some s \<Rightarrow> Inr (s, d)
      | None \<Rightarrow>
          (if bl_state blob = B_PENDING
           then (let s = new_single_put (env_uuid e 0) (bl_id blob) v (env_wall e 0)
                 in res_bind (insert_session s d) (\<lambda>d1. Inr (s, d1)))
           else
             case latest (sessions_of d (bl_id blob)) of
               None \<Rightarrow> Inl ContentConflictError
             | Some s \<Rightarrow> Inr (s, d)))"

definition prepare_upload ::
    "unicode \<Rightarrow> env \<Rightarrow> uuid \<Rightarrow> sha256_digest \<Rightarrow> ustr \<Rightarrow> sha256_digest \<Rightarrow> db \<Rightarrow> (upload_context \<times> db) res" where
  "prepare_upload U e v sha key request d =
     (case get_version d v of
        None \<Rightarrow> Inl NotFoundError
      | Some version \<Rightarrow>
          (case get_dataset d (dv_dataset_id version) of
             None \<Rightarrow> Inl NotFoundError
           | Some dataset \<Rightarrow>
               (case find (\<lambda>b. bl_sha b = digest_value sha) (map snd (joined d v)) of
                  None \<Rightarrow> Inl NotFoundError
                | Some blob \<Rightarrow>
                    (if bl_state blob = B_AVAILABLE
                     then res_bind (mk_upload_context U version (ds_name dataset) blob None)
                            (\<lambda>r. commit (env_clock e 0) r d)
                     else
                       case get_idem d UPLOAD_SESSION_CREATE key of
                         Some replay \<Rightarrow>
                           (if ik_request_sha replay \<noteq> digest_value request
                            then Inl IdempotencyConflictError
                            else
                              case ik_resource_id replay of
                                None \<Rightarrow> Inl IdempotencyConflictError
                              | Some i \<Rightarrow>
                                  (case get_session d i of
                                     None \<Rightarrow> Inl IdempotencyConflictError
                                   | Some u \<Rightarrow>
                                       res_bind (require_single_put u) (\<lambda>_.
                                       res_bind (mk_upload_context U version (ds_name dataset) blob (Some u))
                                         (\<lambda>r. commit (env_clock e 0) r d))))
                       | None \<Rightarrow>
                           res_bind (find_or_start_upload e v blob d) (\<lambda>(u, d1).
                           res_bind (require_single_put u) (\<lambda>_.
                           res_bind (mk_upload_context U version (ds_name dataset) blob (Some u)) (\<lambda>r.
                           res_bind (insert_idem (upload_idem key request (us_id u) (env_wall e 1)) d1) (\<lambda>d2.
                             commit (env_clock e 0) r d2))))))))"

text \<open>\<^verbatim>\<open>_upload_context\<close> after reading the dataset, as the publication steps end.\<close>

definition finish_upload ::
    "unicode \<Rightarrow> env \<Rightarrow> version_row \<Rightarrow> blob_row \<Rightarrow> session_row \<Rightarrow> db \<Rightarrow> (upload_context \<times> db) res" where
  "finish_upload U e version blob u d =
     (case get_dataset d (dv_dataset_id version) of
        None \<Rightarrow> Inl ContentConflictError
      | Some dataset \<Rightarrow>
          res_bind (mk_upload_context U version (ds_name dataset) blob (Some u))
            (\<lambda>r. commit (env_clock e 0) r d))"

definition get_upload :: "unicode \<Rightarrow> uuid \<Rightarrow> db \<Rightarrow> upload_context res" where
  "get_upload U i d =
     (case get_session d i of
        None \<Rightarrow> Inl NotFoundError
      | Some u \<Rightarrow>
          res_bind (require_single_put u) (\<lambda>_.
            (case (get_blob d (us_blob_id u), get_version d (us_version_id u)) of
               (Some blob, Some version) \<Rightarrow>
                 (case get_dataset d (dv_dataset_id version) of
                    None \<Rightarrow> Inl ContentConflictError
                  | Some dataset \<Rightarrow> mk_upload_context U version (ds_name dataset) blob (Some u))
             | _ \<Rightarrow> Inl ContentConflictError)))"

text \<open>The rows a publication step of an upload session works on.\<close>

definition load_upload :: "uuid \<Rightarrow> db \<Rightarrow> (session_row \<times> blob_row \<times> version_row) res" where
  "load_upload i d =
     (case get_session d i of
        None \<Rightarrow> Inl NotFoundError
      | Some u \<Rightarrow>
          res_bind (require_single_put u) (\<lambda>_.
            (case (get_blob d (us_blob_id u), get_version d (us_version_id u)) of
               (Some blob, Some version) \<Rightarrow> Inr (u, blob, version)
             | _ \<Rightarrow> Inl ContentConflictError)))"

definition start_blob :: "blob_row \<Rightarrow> db \<Rightarrow> (blob_row \<times> db) res" where
  "start_blob blob d =
     (if bl_state blob = B_PENDING
      then (let b = blob\<lparr>bl_state := B_UPLOADING\<rparr>
            in res_bind (update_blob b d) (\<lambda>d1. Inr (b, d1)))
      else Inr (blob, d))"

definition start_version :: "version_row \<Rightarrow> db \<Rightarrow> (version_row \<times> db) res" where
  "start_version version d =
     (if dv_state version \<in> {V_DRAFT, V_FAILED}
      then (let v = version\<lparr>dv_state := V_UPLOADING, dv_failure_code := None, dv_failure_detail := None\<rparr>
            in res_bind (update_version v d) (\<lambda>d1. Inr (v, d1)))
      else Inr (version, d))"

definition mark_upload_in_progress :: "unicode \<Rightarrow> env \<Rightarrow> uuid \<Rightarrow> db \<Rightarrow> (upload_context \<times> db) res" where
  "mark_upload_in_progress U e i d =
     res_bind (load_upload i d) (\<lambda>(u, blob, version).
       if us_state u = M_CREATED then
         res_bind (start_blob blob d) (\<lambda>(b, d1).
         res_bind (start_version version d1) (\<lambda>(v, d2).
           let u' = u\<lparr>us_state := M_IN_PROGRESS, us_last_activity_at := env_wall e 0\<rparr>
           in res_bind (update_session u' d2) (\<lambda>d3. finish_upload U e v b u' d3)))
       else if us_state u \<noteq> M_IN_PROGRESS then Inl IllegalTransitionError
       else finish_upload U e version blob u d)"

definition mark_upload_verified ::
    "unicode \<Rightarrow> env \<Rightarrow> uuid \<Rightarrow> ustr option \<Rightarrow> db \<Rightarrow> (upload_context \<times> db) res" where
  "mark_upload_verified U e i etag d =
     res_bind (load_upload i d) (\<lambda>(u, blob, version).
       if us_state u = M_COMPLETED then finish_upload U e version blob u d
       else if us_state u \<noteq> M_IN_PROGRESS then Inl IllegalTransitionError
       else if bl_state blob \<noteq> B_UPLOADING then Inl IllegalTransitionError
       else
         let now = env_wall e 0;
             b1 = blob\<lparr>bl_state := B_VERIFYING\<rparr>;
             b2 = b1\<lparr>bl_state := B_AVAILABLE, bl_verified_at := Some now\<rparr>;
             u' = u\<lparr>us_state := M_COMPLETED, us_etag := etag, us_completed_at := Some now,
                    us_last_activity_at := now\<rparr>
         in res_bind (update_blob b1 d) (\<lambda>d1.
            res_bind (update_blob b2 d1) (\<lambda>d2.
            res_bind (update_session u' d2) (\<lambda>d3. finish_upload U e version b2 u' d3))))"

definition to_multipart_failure :: "failure_code \<Rightarrow> multipart_failure" where
  "to_multipart_failure c = (case c of FC_STORED_OBJECT_MISMATCH \<Rightarrow> MF_STORED_OBJECT_MISMATCH)"

definition mark_upload_failed ::
    "unicode \<Rightarrow> env \<Rightarrow> uuid \<Rightarrow> failure_code \<Rightarrow> ustr \<Rightarrow> db \<Rightarrow> (upload_context \<times> db) res" where
  "mark_upload_failed U e i code detail d =
     res_bind (load_upload i d) (\<lambda>(u, blob, version).
       if us_state u = M_FAILED then finish_upload U e version blob u d
       else if us_state u \<noteq> M_IN_PROGRESS \<or> bl_state blob \<noteq> B_UPLOADING
               \<or> dv_state version \<noteq> V_UPLOADING
       then Inl IllegalTransitionError
       else
         let now = env_wall e 0;
             b1 = blob\<lparr>bl_state := B_VERIFYING\<rparr>;
             v1 = version\<lparr>dv_state := V_VERIFYING, dv_verifying_at := Some now\<rparr>;
             b2 = b1\<lparr>bl_state := B_FAILED, bl_failure_code := Some code, bl_failure_detail := Some detail\<rparr>;
             v2 = v1\<lparr>dv_state := V_FAILED, dv_failure_code := Some code, dv_failure_detail := Some detail\<rparr>;
             u' = u\<lparr>us_state := M_FAILED, us_failure_code := Some (to_multipart_failure code),
                    us_failure_detail := Some detail, us_completed_at := Some now,
                    us_last_activity_at := now\<rparr>
         in res_bind (update_blob b1 d) (\<lambda>d1.
            res_bind (update_version v1 d1) (\<lambda>d2.
            res_bind (update_blob b2 d2) (\<lambda>d3.
            res_bind (update_version v2 d3) (\<lambda>d4.
            res_bind (update_session u' d4) (\<lambda>d5. finish_upload U e v2 b2 u' d5))))))"

definition restart_body ::
    "unicode \<Rightarrow> env \<Rightarrow> version_row \<Rightarrow> ustr \<Rightarrow> blob_row \<Rightarrow> ustr \<Rightarrow> sha256_digest \<Rightarrow> db
       \<Rightarrow> (upload_context \<times> db) res" where
  "restart_body U e version dataset_name blob key request d =
     res_bind (case latest (sessions_of d (bl_id blob)) of None \<Rightarrow> Inr () | Some p \<Rightarrow> require_single_put p) (\<lambda>_.
       if dv_state version \<noteq> V_FAILED \<or> bl_state blob \<noteq> B_FAILED then Inl IllegalTransitionError
       else
         let v1 = version\<lparr>dv_state := V_UPLOADING, dv_failure_code := None, dv_failure_detail := None\<rparr>;
             b1 = blob\<lparr>bl_state := B_UPLOADING, bl_failure_code := None, bl_failure_detail := None\<rparr>;
             u = new_single_put (env_uuid e 0) (bl_id blob) (dv_id version) (env_wall e 0)
         in res_bind (update_version v1 d) (\<lambda>d1.
            res_bind (update_blob b1 d1) (\<lambda>d2.
            res_bind (insert_session u d2) (\<lambda>d3.
            res_bind (mk_upload_context U v1 dataset_name b1 (Some u)) (\<lambda>r.
            res_bind (insert_idem (upload_idem key request (us_id u) (env_wall e 1)) d3) (\<lambda>d4.
              commit (env_clock e 0) r d4))))))"

definition restart_failed_upload ::
    "unicode \<Rightarrow> env \<Rightarrow> uuid \<Rightarrow> uuid \<Rightarrow> ustr \<Rightarrow> sha256_digest \<Rightarrow> db \<Rightarrow> (upload_context \<times> db) res" where
  "restart_failed_upload U e v bid key request d =
     (case (get_version d v, get_blob d bid) of
        (Some version, Some blob) \<Rightarrow>
          (case get_dataset d (dv_dataset_id version) of
             None \<Rightarrow> Inl ContentConflictError
           | Some dataset \<Rightarrow>
               (if \<not> (\<exists>x \<in> set (entries_of d v). de_blob_id x = bid) then Inl NotFoundError
                else
                  case get_idem d UPLOAD_SESSION_CREATE key of
                    Some replay \<Rightarrow>
                      (if ik_request_sha replay \<noteq> digest_value request then Inl IdempotencyConflictError
                       else
                         case ik_resource_id replay of
                           None \<Rightarrow> Inl IdempotencyConflictError
                         | Some i \<Rightarrow>
                             (case get_session d i of
                                None \<Rightarrow> Inl IdempotencyConflictError
                              | Some prior \<Rightarrow>
                                  res_bind (require_single_put prior) (\<lambda>_.
                                  res_bind (mk_upload_context U version (ds_name dataset) blob (Some prior))
                                    (\<lambda>r. commit (env_clock e 0) r d))))
                  | None \<Rightarrow> restart_body U e version (ds_name dataset) blob key request d))
      | _ \<Rightarrow> Inl NotFoundError)"

section \<open>Publication\<close>

definition summaries_match :: "manifest \<Rightarrow> version_row \<Rightarrow> bool" where
  "summaries_match m v =
     (digest_value (mf_sha256 m) = dv_manifest_sha v \<and> file_count m = dv_file_count v
      \<and> logical_bytes m = dv_logical_bytes v \<and> unique_blob_count m = dv_unique_blob_count v
      \<and> unique_blob_bytes m = dv_unique_blob_bytes v)"

definition finalize_version :: "unicode \<Rightarrow> env \<Rightarrow> uuid \<Rightarrow> db \<Rightarrow> (version_record \<times> db) res" where
  "finalize_version U e i d =
     (case get_version d i of
        None \<Rightarrow> Inl NotFoundError
      | Some version \<Rightarrow>
          (case get_dataset d (dv_dataset_id version) of
             None \<Rightarrow> Inl ContentConflictError
           | Some dataset \<Rightarrow>
               (if dv_state version = V_READY
                then res_bind (to_version_record U version (ds_name dataset))
                       (\<lambda>r. commit (env_clock e 0) r d)
                else if dv_state version \<notin> {V_DRAFT, V_UPLOADING} then Inl IllegalTransitionError
                else
                  res_bind (from_canonical_bytes U (dv_manifest_bytes version)) (\<lambda>canonical.
                    if \<not> summaries_match canonical version then Inl ManifestMismatchError
                    else if \<exists>b \<in> set (map snd (joined d i)). bl_state b \<noteq> B_AVAILABLE
                    then Inl IllegalTransitionError
                    else
                      let now = env_wall e 0;
                          v1 = version\<lparr>dv_state := V_VERIFYING, dv_verifying_at := Some now\<rparr>;
                          v2 = v1\<lparr>dv_state := V_READY, dv_ready_at := Some now\<rparr>
                      in res_bind (update_version v1 d) (\<lambda>d1.
                         res_bind (update_version v2 d1) (\<lambda>d2.
                         res_bind (to_version_record U v2 (ds_name dataset))
                           (\<lambda>r. commit (env_clock e 0) r d2)))))))"

section \<open>Every operation is a run of statements\<close>

lemma runs:
  "insert_dataset r1 d = Inr d' \<Longrightarrow> P (InsDataset r1) \<Longrightarrow> run P d d'"
  "insert_version r2 d = Inr d' \<Longrightarrow> P (InsVersion r2) \<Longrightarrow> run P d d'"
  "update_version r2 d = Inr d' \<Longrightarrow> P (UpdVersion r2) \<Longrightarrow> run P d d'"
  "insert_blob r3 d = Inr d' \<Longrightarrow> P (InsBlob r3) \<Longrightarrow> run P d d'"
  "update_blob r3 d = Inr d' \<Longrightarrow> P (UpdBlob r3) \<Longrightarrow> run P d d'"
  "insert_entry r4 d = Inr d' \<Longrightarrow> P (InsEntry r4) \<Longrightarrow> run P d d'"
  "insert_session r5 d = Inr d' \<Longrightarrow> P (InsSession r5) \<Longrightarrow> run P d d'"
  "update_session r5 d = Inr d' \<Longrightarrow> P (UpdSession r5) \<Longrightarrow> run P d d'"
  "insert_part r6 d = Inr d' \<Longrightarrow> P (InsPart r6) \<Longrightarrow> run P d d'"
  "update_part r6 d = Inr d' \<Longrightarrow> P (UpdPart r6) \<Longrightarrow> run P d d'"
  "insert_admission now r7 d = Inr d' \<Longrightarrow> P (InsAdmission now r7) \<Longrightarrow> run P d d'"
  "update_admission now r7 d = Inr d' \<Longrightarrow> P (UpdAdmission now r7) \<Longrightarrow> run P d d'"
  "insert_completion now r8 d = Inr d' \<Longrightarrow> P (InsCompletion now r8) \<Longrightarrow> run P d d'"
  "update_completion now r8 d = Inr d' \<Longrightarrow> P (UpdCompletion now r8) \<Longrightarrow> run P d d'"
  "insert_idem r9 d = Inr d' \<Longrightarrow> P (InsIdem r9) \<Longrightarrow> run P d d'"
  by (auto intro: run_one stmt.intros)

lemma run_commit: "commit now x d = Inr (y, d') \<Longrightarrow> P (Commit now) \<Longrightarrow> run P d d'"
  by (auto intro!: run_one end_transaction simp: commit_Inr)

declare run_refl [simp]

text \<open>The forms a chain of statements takes in the operations.\<close>

lemmas run_then_commit = run_commit [THEN run_trans]

lemmas runs_then = runs [THEN run_trans]

lemmas chain_rules = run_then_commit runs_then

lemma find_or_add_dataset_run: "find_or_add_dataset e name d = Inr (m, d') \<Longrightarrow> run unpublishing d d'"
  by (auto simp: find_or_add_dataset_def res_bind_eq_Inr Let_def split: option.split_asm;
      (erule runs | rule run_refl | simp)+)

lemma create_dataset_run:
  "create_dataset U e name key request d = Inr (x, d') \<Longrightarrow> run unpublishing d d'"
  by (auto simp: create_dataset_def res_bind_eq_Inr split: option.split_asm if_split_asm;
      (erule chain_rules find_or_add_dataset_run | rule run_refl | simp)+)

lemma get_or_create_blob_run:
  "get_or_create_blob fresh now digest n d = Inr (b, d') \<Longrightarrow> run unpublishing d d'"
  by (auto simp: get_or_create_blob_def res_bind_eq_Inr Let_def split: option.split_asm if_split_asm;
      (erule runs | rule run_refl | simp)+)

lemma add_entries_run: "add_entries e v i xs d = Inr d' \<Longrightarrow> run unpublishing d d'"
proof (induction e v i xs d rule: add_entries.induct)
  case (2 e v i x xs d)
  then obtain b d1 d2 where s:
      "get_or_create_blob (env_uuid e (Suc i)) (env_wall e (Suc i)) (me_sha x) (me_size x) d = Inr (b, d1)"
      "insert_entry \<lparr>de_version_id = v, de_ordinal = int i, de_path = rp_value (me_path x),
                     de_blob_id = bl_id b\<rparr> d1 = Inr d2"
      "add_entries e v (Suc i) xs d2 = Inr d'"
    by (auto simp: res_bind_eq_Inr)
  have "run unpublishing d d1" using s(1) by (rule get_or_create_blob_run)
  then have "run unpublishing d d2" using s(2) by (auto intro: runs_then)
  moreover have "run unpublishing d2 d'" using 2(1) s by auto
  ultimately show ?case using run_trans by blast
qed simp

lemma seal_new_version_run:
  assumes "seal_new_version e ds m d = Inr (v, d')"
  shows "run unpublishing d d'"
proof -
  obtain draft sealed d1 d2 where s: "insert_version draft d = Inr d1"
      "add_entries e (dv_id draft) 0 (mf_entries m) d1 = Inr d2"
      "update_version sealed d2 = Inr d'" "dv_state sealed = V_DRAFT" "dv_state draft = V_DRAFT"
      "dv_sealed_at draft = None"
    using assms
    by (auto simp: seal_new_version_def res_bind_eq_Inr Let_def new_version_row_def)
  have "run unpublishing d d1" using runs(2) [OF s(1)] s(5,6) by simp
  then have "run unpublishing d d2" using add_entries_run [OF s(2)] run_trans by blast
  then show ?thesis using runs_then(3) [OF s(3)] s(4) by simp
qed

lemma find_or_seal_version_run:
  "find_or_seal_version e ds m d = Inr (v, d') \<Longrightarrow> run unpublishing d d'"
  by (auto simp: find_or_seal_version_def split: option.split_asm intro: seal_new_version_run)

lemma register_transaction_run:
  "register_transaction U e ds m key request d = Inr (x, d') \<Longrightarrow> run unpublishing d d'"
  by (auto simp: register_transaction_def res_bind_eq_Inr split: option.split_asm if_split_asm;
      (erule chain_rules find_or_seal_version_run | rule run_refl | simp)+)

lemma register_version_run:
  "register_version U e ds m key request d = Inr (x, d') \<Longrightarrow> run unpublishing d d'"
  by (auto simp: register_version_def res_bind_eq_Inr split: if_split_asm intro: register_transaction_run)

lemma find_or_start_run: "find_or_start_upload e v blob d = Inr (u, d') \<Longrightarrow> run unpublishing d d'"
  by (auto simp: find_or_start_upload_def res_bind_eq_Inr Let_def split: option.split_asm if_split_asm;
      (erule runs | rule run_refl | simp)+)

lemma prepare_upload_run:
  "prepare_upload U e v sha key request d = Inr (x, d') \<Longrightarrow> run unpublishing d d'"
  by (auto simp: prepare_upload_def res_bind_eq_Inr split: option.split_asm if_split_asm;
      (erule chain_rules find_or_start_run | rule run_refl | simp)+)

lemma finish_upload_run:
  "finish_upload U e version blob u d1 = Inr (x, d') \<Longrightarrow> run unpublishing d d1 \<Longrightarrow> run unpublishing d d'"
  by (auto simp: finish_upload_def res_bind_eq_Inr split: option.split_asm; (erule chain_rules | rule run_refl | simp)+)

lemma start_blob_run:
  "start_blob b d1 = Inr (b', d') \<Longrightarrow> run unpublishing d d1 \<Longrightarrow> run unpublishing d d'"
  by (auto simp: start_blob_def res_bind_eq_Inr Let_def split: if_split_asm; (erule chain_rules | rule run_refl | simp)+)

lemma start_version_run:
  "start_version v d1 = Inr (v', d') \<Longrightarrow> run unpublishing d d1 \<Longrightarrow> run unpublishing d d'"
  by (auto simp: start_version_def res_bind_eq_Inr Let_def split: if_split_asm; (erule chain_rules | rule run_refl | simp)+)

lemmas upload_rules = finish_upload_run start_version_run start_blob_run chain_rules

lemma mark_upload_in_progress_run:
  "mark_upload_in_progress U e i d = Inr (x, d') \<Longrightarrow> run unpublishing d d'"
  by (auto simp: mark_upload_in_progress_def res_bind_eq_Inr Let_def split: if_split_asm;
      (erule upload_rules | rule run_refl | simp)+)

lemma mark_upload_verified_run:
  "mark_upload_verified U e i etag d = Inr (x, d') \<Longrightarrow> run unpublishing d d'"
  by (auto simp: mark_upload_verified_def res_bind_eq_Inr Let_def split: if_split_asm;
      (erule upload_rules | rule run_refl | simp)+)

lemma mark_upload_failed_run:
  "mark_upload_failed U e i code detail d = Inr (x, d') \<Longrightarrow> run unpublishing d d'"
  by (auto simp: mark_upload_failed_def res_bind_eq_Inr Let_def split: if_split_asm;
      (erule upload_rules | rule run_refl | simp)+)

lemma restart_body_run:
  "restart_body U e version name blob key request d = Inr (x, d') \<Longrightarrow> run unpublishing d d'"
  by (auto simp: restart_body_def res_bind_eq_Inr Let_def split: if_split_asm;
      (erule upload_rules | rule run_refl | simp)+)

lemma restart_failed_upload_run:
  "restart_failed_upload U e v b key request d = Inr (x, d') \<Longrightarrow> run unpublishing d d'"
  by (auto simp: restart_failed_upload_def res_bind_eq_Inr split: option.split_asm if_split_asm;
      (erule run_commit restart_body_run | rule run_refl | simp)+)

section \<open>Finalising\<close>

text \<open>What a successful \<^verbatim>\<open>finalize_version\<close> did: replay a READY version, or publish a complete one.\<close>

definition published_row :: "int \<Rightarrow> version_row \<Rightarrow> version_row" where
  "published_row now v =
     v\<lparr>dv_state := V_VERIFYING, dv_verifying_at := Some now, dv_state := V_READY,
       dv_ready_at := Some now\<rparr>"

lemma finalize_Inr:
  assumes "finalize_version U e i d = Inr (x, d')"
  obtains (replay) v where "get_version d i = Some v" "dv_state v = V_READY"
      "d' = d\<lparr>db_deferred := []\<rparr>" "run unpublishing d d'"
  | (publish) v m d1 d2 where "get_version d i = Some v" "dv_state v \<in> {V_DRAFT, V_UPLOADING}"
      "from_canonical_bytes U (dv_manifest_bytes v) = Inr m" "summaries_match m v"
      "\<forall>b \<in> set (map snd (joined d i)). bl_state b = B_AVAILABLE"
      "update_version (v\<lparr>dv_state := V_VERIFYING, dv_verifying_at := Some (env_wall e 0)\<rparr>) d = Inr d1"
      "update_version (published_row (env_wall e 0) v) d1 = Inr d2"
      "commit (env_clock e 0) x d2 = Inr (x, d')"
proof -
  obtain v s where v: "get_version d i = Some v" "get_dataset d (dv_dataset_id v) = Some s"
    using assms by (auto simp: finalize_version_def split: option.split_asm)
  show ?thesis
  proof (cases "dv_state v = V_READY")
    case True
    then show ?thesis
      using assms v run_commit [of "env_clock e 0" x d x d' unpublishing]
      by (intro replay [of v]) (auto simp: finalize_version_def res_bind_eq_Inr commit_Inr)
  next
    case False
    then show ?thesis
      using assms v publish
      by (auto simp: finalize_version_def res_bind_eq_Inr Let_def published_row_def commit_Inr
          split: if_split_asm)
  qed
qed

end
