(* ===== verification/Fencing.thy ===== *)
theory Fencing
  imports History
begin

text \<open>
  Fencing tokens. Two tables hold leases, the admission leases of the pushing clients and the
  completion leases of the verifying workers; a protected step runs only while its caller holds
  the lease under the owner and epoch it was given. The contract of such a table, and what
  follows from it: a holder that has been replaced never passes the fence again.
\<close>

locale fenced_lease =
  fixes lease :: "db \<Rightarrow> uuid \<Rightarrow> 'l option"
    and owner :: "'l \<Rightarrow> uuid"
    and epoch :: "'l \<Rightarrow> int"
    and expires :: "'l \<Rightarrow> int"
    and holds :: "db \<Rightarrow> uuid \<Rightarrow> uuid \<Rightarrow> int \<Rightarrow> int \<Rightarrow> bool"
  assumes holds_iff: "holds d s w n t \<longleftrightarrow>
      (\<exists>l. lease d s = Some l \<and> owner l = w \<and> epoch l = n \<and> t < expires l)"
    and lease_evolves: "db_evolves d d' \<Longrightarrow> lease d s = Some l \<Longrightarrow>
      \<exists>l'. lease d' s = Some l' \<and> epoch l \<le> epoch l' \<and> (epoch l' = epoch l \<longrightarrow> owner l' = owner l)"
begin

lemma epochs_ascend: "db_evolves d d' \<Longrightarrow> holds d s w n t \<Longrightarrow> holds d' s w' n' t' \<Longrightarrow> n \<le> n'"
  using lease_evolves by (fastforce simp: holds_iff)

lemma one_owner_per_epoch:
  "db_evolves d d' \<Longrightarrow> holds d s w n t \<Longrightarrow> holds d' s w' n t' \<Longrightarrow> w' = w"
  using lease_evolves by (fastforce simp: holds_iff)

lemma superseded: "db_evolves d d' \<Longrightarrow> lease d s = Some l \<Longrightarrow> n < epoch l \<Longrightarrow> \<not> holds d' s w n t"
  using lease_evolves by (fastforce simp: holds_iff)

text \<open>Once another owner has held the lease, its predecessor is locked out for good.\<close>

lemma replaced_holder:
  assumes "db_evolves d d'" "db_evolves d' d''"
    and "holds d s w n t" "holds d' s w' n' t'" "w' \<noteq> w"
  shows "n < n'" "\<not> holds d'' s w n t''"
proof -
  have "n \<le> n'" using epochs_ascend assms(1,3,4) .
  moreover have "n' \<noteq> n" using one_owner_per_epoch [OF assms(1,3)] assms(4,5) by blast
  ultimately show "n < n'" by simp
  then show "\<not> holds d'' s w n t''" using superseded [OF assms(2)] assms(4) by (auto simp: holds_iff)
qed

end

end
