(* ===== verification/MultipartStore.thy ===== *)
theory MultipartStore
  imports RegistryStore Fencing
begin

text \<open>
  The multipart operations of \<^verbatim>\<open>SqlAlchemyStore\<close> up to completion: creating or resolving a
  session with its frozen part plan, the admission lease that fences every upload step, the
  initiation at the provider, and the progress of the parts.
\<close>

section \<open>Loading a multipart context\<close>

definition to_part_definition :: "part_row \<Rightarrow> part_definition res" where
  "to_part_definition m =
     res_bind (mk_digest (up_sha m)) (\<lambda>sha.
       mk_part_definition (up_number m) (up_offset m) (up_size m) sha)"

definition stored_receipt :: "part_row \<Rightarrow> completed_part_receipt option res" where
  "stored_receipt m =
     (case (up_response_etag m, up_response_checksum m) of
        (Some etag, Some checksum) \<Rightarrow>
          res_bind (mk_digest (up_sha m)) (\<lambda>sha.
          res_bind (receipt_from_upload_response (up_number m) etag checksum sha) (\<lambda>r. Inr (Some r)))
      | _ \<Rightarrow> Inr None)"

definition to_upload_part_record :: "part_row \<Rightarrow> upload_part_record res" where
  "to_upload_part_record m =
     res_bind (stored_receipt m) (\<lambda>receipt.
     res_bind (to_part_definition m) (\<lambda>def.
       Inr \<lparr>upr_session_id = up_session_id m, upr_definition = def, upr_state = up_state m,
            upr_receipt = receipt\<rparr>))"

text \<open>\<^verbatim>\<open>SELECT ... ORDER BY part_number\<close>.\<close>

definition ordered_parts :: "db \<Rightarrow> uuid \<Rightarrow> part_row list" where
  "ordered_parts d s = sort_key up_number (parts_of d s)"

definition load_multipart_context :: "db \<Rightarrow> session_row \<Rightarrow> multipart_context res" where
  "load_multipart_context d u =
     (case (get_blob d (us_blob_id u), us_generation u) of
        (Some blob, Some generation) \<Rightarrow>
          res_bind (res_map to_part_definition (ordered_parts d (us_id u))) (\<lambda>definitions.
            case (us_plan_schema u, us_part_size u, us_plan_sha u) of
              (Some schema, Some part_size, Some _) \<Rightarrow>
                res_bind (build_part_plan schema (bl_size blob) part_size definitions) (\<lambda>plan.
                res_bind (res_map to_upload_part_record (ordered_parts d (us_id u))) (\<lambda>parts.
                res_bind (mk_generation generation) (\<lambda>g.
                res_bind (to_blob_record blob) (\<lambda>b.
                  Inr \<lparr>mpc_session =
                         \<lparr>msr_id = us_id u, msr_blob_id = us_blob_id u,
                          msr_initiating_version_id = us_version_id u, msr_generation = g,
                          msr_state = us_state u, msr_part_plan = plan,
                          msr_provider_upload_id = us_provider_id u,
                          msr_completion_phase = us_completion_phase u,
                          msr_failure_code = us_failure_code u\<rparr>,
                       mpc_blob = b, mpc_parts = parts\<rparr>))))
            | _ \<Rightarrow> Inl ContentConflictError)
      | _ \<Rightarrow> Inl ContentConflictError)"

definition get_multipart :: "uuid \<Rightarrow> db \<Rightarrow> multipart_context res" where
  "get_multipart i d =
     (case get_session d i of
        None \<Rightarrow> Inl NotFoundError
      | Some u \<Rightarrow> (if us_strategy u \<noteq> MULTIPART then Inl NotFoundError else load_multipart_context d u))"

text \<open>
  \<^verbatim>\<open>_multipart_request_sha256\<close>: the scope and values are ASCII text, on which the JSON writer
  with its default escaping agrees with \<open>dumps\<close>.
\<close>

definition multipart_request_sha :: "string \<Rightarrow> ustr list \<Rightarrow> ustr" where
  "multipart_request_sha scope values =
     (case utf8_encode (dumps (JObj [(lit ''scope'', JStr (lit scope)),
                                     (lit ''values'', JArr (map JStr values))])) of
        None \<Rightarrow> [] | Some payload \<Rightarrow> sha256_hex payload)"

definition replay_multipart_context :: "db \<Rightarrow> idem_row \<Rightarrow> ustr \<Rightarrow> multipart_context res" where
  "replay_multipart_context d replay request =
     (if ik_request_sha replay \<noteq> request then Inl IdempotencyConflictError
      else
        case ik_resource_id replay of
          None \<Rightarrow> Inl IdempotencyConflictError
        | Some i \<Rightarrow>
            (case get_session d i of
               None \<Rightarrow> Inl IdempotencyConflictError
             | Some u \<Rightarrow>
                 (if us_strategy u \<noteq> MULTIPART then Inl IdempotencyConflictError
                  else load_multipart_context d u)))"

section \<open>Creating or resolving a session\<close>

definition next_generation :: "db \<Rightarrow> uuid \<Rightarrow> int" where
  "next_generation d b =
     max0 (concat (map (\<lambda>s. case us_generation s of None \<Rightarrow> [] | Some g \<Rightarrow> [g]) (sessions_of d b))) + 1"

definition new_multipart :: "uuid \<Rightarrow> uuid \<Rightarrow> uuid \<Rightarrow> int \<Rightarrow> hashed_plan \<Rightarrow> int \<Rightarrow> session_row" where
  "new_multipart i blob version generation plan now =
     (new_single_put i blob version now)
       \<lparr>us_strategy := MULTIPART, us_generation := Some generation,
        us_part_size := Some (pp_part_size (hmp_plan plan)),
        us_part_count := Some (part_count (hmp_plan plan)),
        us_plan_schema := Some (pp_schema_version (hmp_plan plan)),
        us_plan_sha := Some (digest_value (hmp_sha plan))\<rparr>"

definition new_part :: "uuid \<Rightarrow> int \<Rightarrow> part_definition \<Rightarrow> part_row" where
  "new_part s now p =
     \<lparr>up_session_id = s, up_number = pd_number p, up_offset = pd_offset p, up_size = pd_size p,
      up_sha = digest_value (pd_sha p), up_state = P_PENDING, up_response_etag = None,
      up_response_checksum = None, up_received_at = None, up_listed_etag = None,
      up_listed_checksum = None, up_listed_size = None, up_listed_at = None, up_issued_at = None,
      up_expires_at = None, up_issue_count = 0, up_uploaded_at = None, up_verified_at = None,
      up_error = None, up_created_at = now\<rparr>"

fun insert_parts :: "part_row list \<Rightarrow> db \<Rightarrow> db res" where
  "insert_parts [] d = Inr d"
| "insert_parts (p # ps) d = res_bind (insert_part p d) (\<lambda>d1. insert_parts ps d1)"

definition create_multipart ::
    "env \<Rightarrow> uuid \<Rightarrow> blob_row \<Rightarrow> hashed_plan \<Rightarrow> db \<Rightarrow> (session_row \<times> db) res" where
  "create_multipart e v blob plan d =
     (let now = env_wall e 0;
          u = new_multipart (env_uuid e 0) (bl_id blob) v (next_generation d (bl_id blob)) plan now
      in res_bind (insert_session u d) (\<lambda>d1.
         res_bind (insert_parts (map (new_part (us_id u) now) (pp_parts (hmp_plan plan))) d1) (\<lambda>d2.
           Inr (u, d2))))"

definition resolve_or_create_multipart ::
    "env \<Rightarrow> uuid \<Rightarrow> blob_row \<Rightarrow> hashed_plan \<Rightarrow> db \<Rightarrow> (session_row \<times> db) res" where
  "resolve_or_create_multipart e v blob plan d =
     (case find (\<lambda>s. unfinished (us_state s)) (sessions_of d (bl_id blob)) of
        Some u \<Rightarrow>
          (if us_strategy u \<noteq> MULTIPART \<or> us_plan_sha u \<noteq> Some (digest_value (hmp_sha plan))
           then Inl ContentConflictError else Inr (u, d))
      | None \<Rightarrow> create_multipart e v blob plan d)"

definition multipart_idem :: "idem_scope \<Rightarrow> ustr \<Rightarrow> ustr \<Rightarrow> uuid \<Rightarrow> int \<Rightarrow> response \<Rightarrow> int \<Rightarrow> idem_row" where
  "multipart_idem scope key request s status resp now =
     \<lparr>ik_scope = scope, ik_key = key, ik_request_sha = request,
      ik_resource_type = Some RT_UPLOAD_SESSION, ik_resource_id = Some s,
      ik_http_status = Some status, ik_response = Some resp, ik_created_at = now\<rparr>"

definition create_or_resolve_multipart ::
    "env \<Rightarrow> uuid \<Rightarrow> uuid \<Rightarrow> uuid \<Rightarrow> hashed_plan \<Rightarrow> db \<Rightarrow> (multipart_context \<times> db) res" where
  "create_or_resolve_multipart e request_id v bid plan d =
     (let key = uuid_str request_id;
          request = multipart_request_sha ''multipart-session-resolve''
                      [uuid_str v, uuid_str bid, digest_value (hmp_sha plan)]
      in case get_idem d MULTIPART_SESSION_RESOLVE key of
           Some replay \<Rightarrow>
             res_bind (replay_multipart_context d replay request) (\<lambda>c. commit (env_clock e 0) c d)
         | None \<Rightarrow>
             (case (get_blob d bid, get_version d v) of
                (Some blob, Some version) \<Rightarrow>
                  (if \<not> (\<exists>x \<in> set (entries_of d v). de_blob_id x = bid) then Inl NotFoundError
                   else if bl_size blob \<noteq> pp_blob_size (hmp_plan plan) then Inl ContentConflictError
                   else
                     res_bind (resolve_or_create_multipart e v blob plan d) (\<lambda>(u, d1).
                     res_bind (insert_idem (multipart_idem MULTIPART_SESSION_RESOLVE key request
                                 (us_id u) 200 (RespMultipart (us_id u)) (env_wall e 1)) d1) (\<lambda>d2.
                     res_bind (load_multipart_context d2 u) (\<lambda>c.
                       commit (env_clock e 0) c d2))))
              | _ \<Rightarrow> Inl NotFoundError))"

section \<open>The admission lease\<close>

definition to_admission_record :: "admission_row \<Rightarrow> admission_record res" where
  "to_admission_record m =
     mk_admission_record (al_session_id m) (al_invocation_id m) (al_owner_id m) (al_epoch m)
       (Aware (al_expires_at m)) (Aware (al_renewed_at m))"

text \<open>
  \<^verbatim>\<open>_replay_admission_lease\<close>: a document without the fields, or with values their types refuse,
  is an idempotency conflict; only the time zone check of the record escapes.
\<close>

definition replay_admission_lease :: "idem_row \<Rightarrow> ustr \<Rightarrow> admission_record res" where
  "replay_admission_lease replay request =
     (if ik_request_sha replay \<noteq> request then Inl IdempotencyConflictError
      else
        case ik_response replay of
          None \<Rightarrow> Inl IdempotencyConflictError
        | Some (RespAdmission s i w epoch expires renewed) \<Rightarrow>
            (case mk_admission_record s i w epoch expires renewed of
               Inr r \<Rightarrow> Inr r
             | Inl err \<Rightarrow> (if err = PyValueError then Inl IdempotencyConflictError else Inl err))
        | Some _ \<Rightarrow> Inl IdempotencyConflictError)"

definition seconds :: "int \<Rightarrow> int" where
  "seconds n = n * 1000000"

text \<open>\<open>now\<close> is the reading the operation compares with, \<open>later\<close> the trigger's.\<close>

definition take_admission ::
    "int \<Rightarrow> int \<Rightarrow> uuid \<Rightarrow> uuid \<Rightarrow> uuid \<Rightarrow> int \<Rightarrow> int \<Rightarrow> db \<Rightarrow> (admission_row \<times> db) res" where
  "take_admission now later owner s invocation ttl capacity d =
     (case get_admission d s of
        Some l \<Rightarrow>
          (if now < al_expires_at l then
             (if al_invocation_id l \<noteq> invocation then Inl AdmissionLeaseHeldError
              else
                let l' = l\<lparr>al_renewed_at := now, al_expires_at := now + seconds ttl\<rparr>
                in res_bind (update_admission later l' d) (\<lambda>d1. Inr (l', d1)))
           else if capacity \<le> int (length (filter (\<lambda>x. now < al_expires_at x) (db_admissions d)))
           then Inl AdmissionCapacityExhaustedError
           else
             let l' = l\<lparr>al_invocation_id := invocation, al_owner_id := owner,
                        al_epoch := al_epoch l + 1, al_acquired_at := now, al_renewed_at := now,
                        al_expires_at := now + seconds ttl\<rparr>
             in res_bind (update_admission later l' d) (\<lambda>d1. Inr (l', d1)))
      | None \<Rightarrow>
          (if capacity \<le> int (length (filter (\<lambda>x. now < al_expires_at x) (db_admissions d)))
           then Inl AdmissionCapacityExhaustedError
           else
             let l = \<lparr>al_session_id = s, al_invocation_id = invocation, al_owner_id = owner,
                      al_epoch = 1, al_acquired_at = now, al_renewed_at = now,
                      al_expires_at = now + seconds ttl\<rparr>
             in res_bind (insert_admission later l d) (\<lambda>d1. Inr (l, d1))))"

definition acquire_multipart_lease ::
    "env \<Rightarrow> uuid \<Rightarrow> uuid \<Rightarrow> uuid \<Rightarrow> int \<Rightarrow> int \<Rightarrow> db \<Rightarrow> (admission_record \<times> db) res" where
  "acquire_multipart_lease e request_id invocation s ttl capacity d =
     (if ttl \<le> 0 \<or> capacity \<le> 0 then Inl ContentConflictError
      else
        let key = uuid_str request_id;
            request = multipart_request_sha ''multipart-admission-acquire''
                        [uuid_str s, uuid_str invocation]
        in case get_idem d MULTIPART_ADMISSION_ACQUIRE key of
             Some replay \<Rightarrow>
               res_bind (replay_admission_lease replay request) (\<lambda>r. commit (env_clock e 2) r d)
           | None \<Rightarrow>
               (case get_session d s of
                  None \<Rightarrow> Inl NotFoundError
                | Some u \<Rightarrow>
                    (if us_strategy u \<noteq> MULTIPART then Inl NotFoundError
                     else if us_state u \<notin> {M_CREATED, M_INITIATING, M_IN_PROGRESS}
                     then Inl IllegalTransitionError
                     else
                       res_bind (take_admission (env_clock e 0) (env_clock e 1) (env_uuid e 0)
                                   s invocation ttl capacity d) (\<lambda>(l, d1).
                       res_bind (to_admission_record l) (\<lambda>r.
                       res_bind (insert_idem
                           (multipart_idem MULTIPART_ADMISSION_ACQUIRE key request s 200
                              (RespAdmission s invocation (adr_owner_id r) (adr_epoch r)
                                 (adr_expires_at r) (adr_renewed_at r)) (env_wall e 0)) d1) (\<lambda>d2.
                         commit (env_clock e 2) r d2))))))"

text \<open>The fence: the lease of the session names this owner and epoch and has not expired.\<close>

definition holds_admission :: "db \<Rightarrow> uuid \<Rightarrow> uuid \<Rightarrow> int \<Rightarrow> int \<Rightarrow> bool" where
  "holds_admission d s owner epoch now =
     (case get_admission d s of
        None \<Rightarrow> False
      | Some l \<Rightarrow> al_owner_id l = owner \<and> al_epoch l = epoch \<and> now < al_expires_at l)"

interpretation adm: fenced_lease get_admission al_owner_id al_epoch al_expires_at holds_admission
proof
  fix d d' s l
  assume "db_evolves d d'" "get_admission d s = Some l"
  then obtain l' where "get_admission d' s = Some l'" "admission_evolves l l'"
    unfolding db_evolves_def get_admission_def using growsD by meson
  then show "\<exists>l'. get_admission d' s = Some l' \<and> al_epoch l \<le> al_epoch l'
      \<and> (al_epoch l' = al_epoch l \<longrightarrow> al_owner_id l' = al_owner_id l)"
    by (auto simp: admission_evolves_def)
qed (simp add: holds_admission_def split: option.split)

definition release_multipart_lease :: "env \<Rightarrow> uuid \<Rightarrow> uuid \<Rightarrow> int \<Rightarrow> db \<Rightarrow> (unit \<times> db) res" where
  "release_multipart_lease e s owner epoch d =
     (case get_admission d s of
        None \<Rightarrow> Inl AdmissionLeaseLostError
      | Some l \<Rightarrow>
          (if \<not> holds_admission d s owner epoch (env_clock e 0) then Inl AdmissionLeaseLostError
           else
             res_bind (update_admission (env_clock e 3)
                         (l\<lparr>al_renewed_at := env_clock e 1, al_expires_at := env_clock e 2\<rparr>) d)
               (\<lambda>d1. commit (env_clock e 4) () d1)))"

text \<open>
  \<^verbatim>\<open>UPDATE upload_sessions SET ... WHERE id = ... AND state = ... AND EXISTS (lease)\<close>: the row
  the update matches, if any.
\<close>

definition fenced_session ::
    "db \<Rightarrow> uuid \<Rightarrow> multipart_state \<Rightarrow> uuid \<Rightarrow> int \<Rightarrow> int \<Rightarrow> session_row option" where
  "fenced_session d s state owner epoch now =
     (case get_session d s of
        None \<Rightarrow> None
      | Some u \<Rightarrow>
          (if us_state u = state \<and> holds_admission d s owner epoch now then Some u else None))"

definition begin_provider_initiation :: "env \<Rightarrow> uuid \<Rightarrow> uuid \<Rightarrow> int \<Rightarrow> db \<Rightarrow> (unit \<times> db) res" where
  "begin_provider_initiation e s owner epoch d =
     (case fenced_session d s M_CREATED owner epoch (env_clock e 0) of
        None \<Rightarrow> Inl AdmissionLeaseLostError
      | Some u \<Rightarrow>
          res_bind (update_session
              (u\<lparr>us_state := M_INITIATING, us_initiation_started_at := Some (env_clock e 1),
                 us_last_activity_at := env_clock e 2\<rparr>) d)
            (\<lambda>d1. commit (env_clock e 3) () d1))"

definition advance_blob :: "uuid \<Rightarrow> db \<Rightarrow> db res" where
  "advance_blob b d =
     (case get_blob d b of
        None \<Rightarrow> Inl ContentConflictError
      | Some blob \<Rightarrow>
          (if bl_state blob = B_PENDING then update_blob (blob\<lparr>bl_state := B_UPLOADING\<rparr>) d
           else if bl_state blob \<noteq> B_UPLOADING then Inl IllegalTransitionError
           else Inr d))"

definition record_provider_upload ::
    "env \<Rightarrow> uuid \<Rightarrow> uuid \<Rightarrow> int \<Rightarrow> ustr \<Rightarrow> db \<Rightarrow> (unit \<times> db) res" where
  "record_provider_upload e s owner epoch provider d =
     (if provider = [] then Inl ContentConflictError
      else
        case fenced_session d s M_INITIATING owner epoch (env_clock e 0) of
          None \<Rightarrow> Inl AdmissionLeaseLostError
        | Some u \<Rightarrow>
            res_bind (update_session
                (u\<lparr>us_state := M_IN_PROGRESS, us_provider_id := Some provider,
                   us_last_activity_at := env_clock e 1\<rparr>) d) (\<lambda>d1.
            res_bind (advance_blob (us_blob_id u) d1) (\<lambda>d2. commit (env_clock e 2) () d2)))"

definition release_owned :: "env \<Rightarrow> uuid \<Rightarrow> uuid \<Rightarrow> int \<Rightarrow> db \<Rightarrow> (unit \<times> db) res" where
  "release_owned e s owner epoch d =
     (case get_admission d s of
        None \<Rightarrow> Inl AdmissionLeaseLostError
      | Some l \<Rightarrow>
          (if al_owner_id l \<noteq> owner \<or> al_epoch l \<noteq> epoch then Inl AdmissionLeaseLostError
           else
             res_bind (update_admission (env_clock e 6)
                 (l\<lparr>al_renewed_at := env_clock e 4, al_expires_at := env_clock e 5\<rparr>) d)
               (\<lambda>d1. commit (env_clock e 7) () d1)))"

definition mark_multipart_initiation_ambiguous ::
    "env \<Rightarrow> uuid \<Rightarrow> uuid \<Rightarrow> int \<Rightarrow> db \<Rightarrow> (unit \<times> db) res" where
  "mark_multipart_initiation_ambiguous e s owner epoch d =
     (case fenced_session d s M_INITIATING owner epoch (env_clock e 0) of
        None \<Rightarrow> Inl AdmissionLeaseLostError
      | Some u \<Rightarrow>
          res_bind (update_session
              (u\<lparr>us_state := M_FAILED, us_failure_code := Some MF_INITIATION_AMBIGUOUS,
                 us_initiation_ambiguous_at := Some (env_clock e 1),
                 us_completed_at := Some (env_clock e 2), us_last_activity_at := env_clock e 3\<rparr>) d)
            (\<lambda>d1. release_owned e s owner epoch d1))"

section \<open>Progress of the parts\<close>

definition has_receipt_column :: "part_row \<Rightarrow> bool" where
  "has_receipt_column p =
     (up_response_etag p \<noteq> None \<or> up_response_checksum p \<noteq> None
      \<or> up_received_at p \<noteq> None \<or> up_uploaded_at p \<noteq> None)"

definition uploaded :: "completed_part_receipt \<Rightarrow> int \<Rightarrow> part_row \<Rightarrow> part_row" where
  "uploaded receipt now p =
     p\<lparr>up_state := P_UPLOADED, up_response_etag := Some (cpr_etag receipt),
       up_response_checksum := Some (cpr_checksum receipt), up_received_at := Some now,
       up_uploaded_at := Some now\<rparr>"

definition store_receipt ::
    "env \<Rightarrow> part_row \<Rightarrow> completed_part_receipt \<Rightarrow> db \<Rightarrow> (upload_part_record \<times> db) res" where
  "store_receipt e part receipt d =
     res_bind (mk_digest (up_sha part)) (\<lambda>expected.
     res_bind (validate_receipt receipt expected) (\<lambda>_.
     res_bind (to_upload_part_record part) (\<lambda>stored.
       if has_receipt_column part then
         (if upr_receipt stored \<noteq> Some receipt then Inl ContentConflictError
          else commit (env_clock e 3) stored d)
       else
         res_bind (update_part (uploaded receipt (env_clock e 2) part) d) (\<lambda>d1.
         res_bind (to_upload_part_record (uploaded receipt (env_clock e 2) part)) (\<lambda>r.
           commit (env_clock e 3) r d1)))))"

definition record_uploaded_part ::
    "env \<Rightarrow> uuid \<Rightarrow> uuid \<Rightarrow> int \<Rightarrow> completed_part_receipt \<Rightarrow> db \<Rightarrow> (upload_part_record \<times> db) res" where
  "record_uploaded_part e s owner epoch receipt d =
     (case fenced_session d s M_IN_PROGRESS owner epoch (env_clock e 0) of
        None \<Rightarrow> Inl AdmissionLeaseLostError
      | Some u \<Rightarrow>
          res_bind (update_session (u\<lparr>us_last_activity_at := env_clock e 1\<rparr>) d) (\<lambda>d1.
            case get_part d1 s (cpr_number receipt) of
              None \<Rightarrow> Inl InvalidPartNumberError
            | Some part \<Rightarrow> store_receipt e part receipt d1))"

text \<open>
  \<^verbatim>\<open>_apply_provider_part_observation\<close>: what the provider lists of a part, and whether it agrees
  with the plan and with the stored receipt. The digest of a stored row always parses.
\<close>

definition unlisted :: "part_row \<Rightarrow> part_row" where
  "unlisted p =
     p\<lparr>up_listed_etag := None, up_listed_checksum := None, up_listed_size := None,
       up_listed_at := None, up_verified_at := None, up_error := Some PART_NOT_PRESENT\<rparr>"

definition rejected :: "part_error \<Rightarrow> part_row \<Rightarrow> part_row" where
  "rejected err p = p\<lparr>up_verified_at := None, up_error := Some err\<rparr>"

definition apply_observation ::
    "part_row \<Rightarrow> provider_part option \<Rightarrow> int \<Rightarrow> (bool \<times> part_row) res" where
  "apply_observation p seen at =
     (case seen of
        None \<Rightarrow> Inr (False, unlisted p)
      | Some o' \<Rightarrow>
          res_bind (mk_digest (up_sha p)) (\<lambda>sha.
            let expected = checksum_base64 sha;
                agrees = (ppo_checksum o' = expected);
                q = p\<lparr>up_listed_etag := Some (ppo_etag o'),
                      up_listed_checksum := (if agrees then Some (ppo_checksum o') else None),
                      up_listed_size := Some (ppo_size o'), up_listed_at := Some at\<rparr>
            in if ppo_size o' \<noteq> up_size p then Inr (False, rejected PART_SIZE_MISMATCH q)
               else if \<not> agrees then Inr (False, rejected PART_CHECKSUM_REJECTED q)
               else if up_response_etag p = None \<or> up_response_checksum p = None
               then Inr (False, rejected PART_RECEIPT_MISSING q)
               else if up_response_etag p \<noteq> Some (ppo_etag o')
                       \<or> up_response_checksum p \<noteq> Some (ppo_checksum o')
               then Inr (False, rejected PART_RECEIPT_MISMATCH q)
               else Inr (True, q\<lparr>up_error := None\<rparr>)))"

text \<open>\<^verbatim>\<open>{part.part_number: part for part in provider_parts}\<close>.\<close>

definition observe :: "provider_part list \<Rightarrow> int \<Rightarrow> provider_part option" where
  "observe seen n = map_of (map (\<lambda>o'. (ppo_number o', o')) (rev seen)) n"

definition duplicate_numbers :: "provider_part list \<Rightarrow> bool" where
  "duplicate_numbers seen = (\<not> distinct (map ppo_number seen))"

definition unplanned :: "provider_part list \<Rightarrow> part_row list \<Rightarrow> bool" where
  "unplanned seen parts = (\<exists>o' \<in> set seen. ppo_number o' \<notin> up_number ` set parts)"

text \<open>A flush sends an UPDATE for every part whose row changed.\<close>

fun flush_parts :: "(part_row \<times> part_row) list \<Rightarrow> db \<Rightarrow> db res" where
  "flush_parts [] d = Inr d"
| "flush_parts ((old, new) # ps) d =
     (if new = old then flush_parts ps d
      else res_bind (update_part new d) (\<lambda>d1. flush_parts ps d1))"

text \<open>
  The first loop of \<^verbatim>\<open>reconcile_parts\<close>: each part with its new row and whether it is newly
  resolved.
\<close>

definition reconcile_one ::
    "provider_part list \<Rightarrow> int \<Rightarrow> part_row \<Rightarrow> (part_row \<times> bool) res" where
  "reconcile_one seen at p =
     res_bind (apply_observation p (observe seen (up_number p)) at) (\<lambda>(ok, q).
       if \<not> ok then Inr (q\<lparr>up_state := P_PENDING\<rparr>, False)
       else Inr (if up_state q = P_PENDING then q\<lparr>up_state := P_UPLOADED\<rparr> else q,
                 up_state p \<noteq> P_VERIFIED))"

text \<open>The second loop; \<^verbatim>\<open>provider_listed_at\<close> was set by the first.\<close>

definition verify_part :: "part_row \<Rightarrow> part_row res" where
  "verify_part q =
     (case up_listed_at q of
        None \<Rightarrow> Inl ContentConflictError
      | Some at \<Rightarrow> Inr (q\<lparr>up_state := P_VERIFIED, up_verified_at := Some at\<rparr>))"

definition reconcile_rows ::
    "env \<Rightarrow> provider_part list \<Rightarrow> part_attribution \<Rightarrow> part_row list \<Rightarrow> db
       \<Rightarrow> (reconciliation_result \<times> db) res" where
  "reconcile_rows e seen attribution parts d =
     res_bind (res_map (reconcile_one seen (env_clock e 3)) parts) (\<lambda>rows.
     res_bind (flush_parts (zip parts (map fst rows)) d) (\<lambda>d1.
     let resolved = map fst (filter snd rows)
     in res_bind (res_map verify_part resolved) (\<lambda>verified.
        res_bind (flush_parts (zip resolved verified) d1) (\<lambda>d2.
        res_bind (mk_reconciliation attribution (int (length resolved))
                    (sum_list (map up_size resolved))) (\<lambda>r.
          commit (env_clock e 4) r d2)))))"

definition reconcile_parts ::
    "env \<Rightarrow> uuid \<Rightarrow> uuid \<Rightarrow> int \<Rightarrow> provider_part list \<Rightarrow> part_attribution \<Rightarrow> db
       \<Rightarrow> (reconciliation_result \<times> db) res" where
  "reconcile_parts e s owner epoch seen attribution d =
     (if duplicate_numbers seen then Inl ContentConflictError
      else
        case fenced_session d s M_IN_PROGRESS owner epoch (env_clock e 0) of
          None \<Rightarrow> Inl AdmissionLeaseLostError
        | Some u \<Rightarrow>
            res_bind (update_session
                (u\<lparr>us_reconciled_at := Some (env_clock e 1), us_last_activity_at := env_clock e 2\<rparr>) d)
              (\<lambda>d1.
                let parts = ordered_parts d1 s
                in if unplanned seen parts then Inl InvalidPartNumberError
                   else reconcile_rows e seen attribution parts d1))"

section \<open>The operations as runs\<close>

lemma insert_parts_run: "insert_parts ps d1 = Inr d' \<Longrightarrow> run unpublishing d d1 \<Longrightarrow> run unpublishing d d'"
proof (induction ps d1 rule: insert_parts.induct)
  case (2 p ps d1)
  then obtain d2 where "insert_part p d1 = Inr d2" "insert_parts ps d2 = Inr d'"
    by (auto simp: res_bind_eq_Inr)
  then show ?case using 2 runs_then(9) [of p d1 d2 unpublishing d] by simp
qed simp

lemma create_multipart_run:
  "create_multipart e v blob plan d = Inr (u, d') \<Longrightarrow> run unpublishing d d'"
  by (auto simp: create_multipart_def res_bind_eq_Inr Let_def;
      (erule insert_parts_run chain_rules | rule run_refl | simp)+)

lemma resolve_or_create_run:
  "resolve_or_create_multipart e v blob plan d = Inr (u, d') \<Longrightarrow> run unpublishing d d'"
  by (auto simp: resolve_or_create_multipart_def split: option.split_asm if_split_asm
      intro: create_multipart_run)

lemma create_or_resolve_run:
  "create_or_resolve_multipart e r v b plan d = Inr (x, d') \<Longrightarrow> run unpublishing d d'"
  by (auto simp: create_or_resolve_multipart_def res_bind_eq_Inr Let_def
        split: option.split_asm if_split_asm;
      (erule chain_rules resolve_or_create_run | rule run_refl | simp)+)

lemma take_admission_run:
  "take_admission now later w s i ttl cap d = Inr (l, d') \<Longrightarrow> run unpublishing d d'"
  by (auto simp: take_admission_def res_bind_eq_Inr Let_def split: option.split_asm if_split_asm;
      (erule chain_rules | rule run_refl | simp)+)

lemma acquire_multipart_lease_run:
  "acquire_multipart_lease e r i s ttl cap d = Inr (x, d') \<Longrightarrow> run unpublishing d d'"
  by (auto simp: acquire_multipart_lease_def res_bind_eq_Inr Let_def
        split: option.split_asm if_split_asm;
      (erule chain_rules take_admission_run | rule run_refl | simp)+)

lemma release_multipart_lease_run:
  "release_multipart_lease e s w n d = Inr (x, d') \<Longrightarrow> run unpublishing d d'"
  by (auto simp: release_multipart_lease_def res_bind_eq_Inr split: option.split_asm if_split_asm;
      (erule chain_rules | rule run_refl | simp)+)

lemma begin_provider_initiation_run:
  "begin_provider_initiation e s w n d = Inr (x, d') \<Longrightarrow> run unpublishing d d'"
  by (auto simp: begin_provider_initiation_def res_bind_eq_Inr split: option.split_asm;
      (erule chain_rules | rule run_refl | simp)+)

lemma advance_blob_run: "advance_blob b d1 = Inr d' \<Longrightarrow> run unpublishing d d1 \<Longrightarrow> run unpublishing d d'"
  by (auto simp: advance_blob_def split: option.split_asm if_split_asm;
      (erule chain_rules | rule run_refl | simp)+)

lemma record_provider_upload_run:
  "record_provider_upload e s w n p d = Inr (x, d') \<Longrightarrow> run unpublishing d d'"
  by (auto simp: record_provider_upload_def res_bind_eq_Inr split: option.split_asm if_split_asm;
      (erule chain_rules advance_blob_run | rule run_refl | simp)+)

lemma release_owned_run:
  "release_owned e s w n d1 = Inr (x, d') \<Longrightarrow> run unpublishing d d1 \<Longrightarrow> run unpublishing d d'"
  by (auto simp: release_owned_def res_bind_eq_Inr split: option.split_asm if_split_asm;
      (erule chain_rules | rule run_refl | simp)+)

lemma mark_initiation_ambiguous_run:
  "mark_multipart_initiation_ambiguous e s w n d = Inr (x, d') \<Longrightarrow> run unpublishing d d'"
  by (auto simp: mark_multipart_initiation_ambiguous_def res_bind_eq_Inr split: option.split_asm;
      (erule release_owned_run chain_rules | rule run_refl | simp)+)

lemma flush_parts_run: "flush_parts ps d1 = Inr d' \<Longrightarrow> run unpublishing d d1 \<Longrightarrow> run unpublishing d d'"
proof (induction ps d1 rule: flush_parts.induct)
  case (2 old new ps d1)
  show ?case
  proof (cases "new = old")
    case False
    then obtain d2 where "update_part new d1 = Inr d2" "flush_parts ps d2 = Inr d'"
      using 2(3) by (auto simp: res_bind_eq_Inr)
    then show ?thesis using 2 False runs_then(10) [of new d1 d2 unpublishing d] by simp
  qed (use 2 in simp)
qed simp

lemma store_receipt_run:
  "store_receipt e p receipt d1 = Inr (x, d') \<Longrightarrow> run unpublishing d d1 \<Longrightarrow> run unpublishing d d'"
  by (auto simp: store_receipt_def res_bind_eq_Inr split: if_split_asm;
      (erule chain_rules | rule run_refl | simp)+)

lemma record_uploaded_part_run:
  assumes "record_uploaded_part e s w n receipt d = Inr (x, d')"
  shows "run unpublishing d d'"
proof -
  obtain u d1 p where "update_session u d = Inr d1" "store_receipt e p receipt d1 = Inr (x, d')"
    using assms
    by (auto simp: record_uploaded_part_def res_bind_eq_Inr
        split: option.split_asm [where option = "fenced_session _ _ _ _ _ _"]
               option.split_asm [where option = "get_part _ _ _"])
  then show ?thesis using store_receipt_run runs(8) by simp
qed

lemma reconcile_rows_run:
  "reconcile_rows e seen a parts d1 = Inr (x, d') \<Longrightarrow> run unpublishing d d1 \<Longrightarrow> run unpublishing d d'"
  by (auto simp: reconcile_rows_def res_bind_eq_Inr Let_def;
      (erule chain_rules flush_parts_run | rule run_refl | simp)+)

lemma reconcile_parts_run:
  "reconcile_parts e s w n seen a d = Inr (x, d') \<Longrightarrow> run unpublishing d d'"
  by (auto simp: reconcile_parts_def res_bind_eq_Inr Let_def split: option.split_asm if_split_asm;
      (erule reconcile_rows_run chain_rules | rule run_refl | simp)+)

end
