(* ===== verification/CompletionStore.thy ===== *)
theory CompletionStore
  imports MultipartStore
begin

text \<open>
  Asynchronous completion in \<^verbatim>\<open>SqlAlchemyStore\<close>: accepting the work, claiming it under the
  completion lease, moving its phase, recovering a partial completion, and publishing the
  verified object.
\<close>

section \<open>Accepting and claiming\<close>

definition replay_accepted_completion :: "idem_row \<Rightarrow> ustr \<Rightarrow> uuid \<Rightarrow> accepted_completion res" where
  "replay_accepted_completion replay request request_id =
     (if ik_request_sha replay \<noteq> request then Inl IdempotencyConflictError
      else
        case ik_resource_id replay of
          None \<Rightarrow> Inl IdempotencyConflictError
        | Some i \<Rightarrow>
            (if ik_http_status replay \<noteq> Some 202 then Inl IdempotencyConflictError
             else Inr \<lparr>acp_request_id = request_id, acp_session_id = i, acp_http_status = 202\<rparr>))"

text \<open>
  The second read of the idempotency record, under the session lock, sees what the first saw:
  the operation is one step.
\<close>

definition accept_completion ::
    "env \<Rightarrow> uuid \<Rightarrow> uuid \<Rightarrow> int \<Rightarrow> uuid \<Rightarrow> db \<Rightarrow> (accepted_completion \<times> db) res" where
  "accept_completion e s owner epoch request_id d =
     (let key = uuid_str request_id;
          request = multipart_request_sha ''multipart-completion-accept'' [uuid_str s]
      in case get_idem d MULTIPART_COMPLETION_ACCEPT key of
           Some replay \<Rightarrow>
             res_bind (replay_accepted_completion replay request request_id)
               (\<lambda>r. commit (env_clock e 3) r d)
         | None \<Rightarrow>
             (case get_session d s of
                None \<Rightarrow> Inl NotFoundError
              | Some u \<Rightarrow>
                  (if us_strategy u \<noteq> MULTIPART then Inl NotFoundError
                   else
                     case get_admission d s of
                       None \<Rightarrow> Inl AdmissionLeaseLostError
                     | Some l \<Rightarrow>
                         (if \<not> holds_admission d s owner epoch (env_clock e 0)
                          then Inl AdmissionLeaseLostError
                          else if us_state u \<noteq> M_IN_PROGRESS \<or> \<not> all_parts_verified d s
                          then Inl IllegalTransitionError
                          else
                            let now = env_clock e 1;
                                u' = u\<lparr>us_state := M_COMPLETING,
                                       us_completion_requested_at := Some now,
                                       us_completion_reason := Some CR_PARTS_READY,
                                       us_completion_phase := Some C_PENDING,
                                       us_last_activity_at := now\<rparr>;
                                l' = l\<lparr>al_renewed_at := now, al_expires_at := now\<rparr>
                            in res_bind (update_session u' d) (\<lambda>d1.
                               res_bind (update_admission (env_clock e 2) l' d1) (\<lambda>d2.
                               res_bind (insert_idem
                                   (multipart_idem MULTIPART_COMPLETION_ACCEPT key request s 202
                                      (RespCompletion s M_COMPLETING) (env_wall e 0)) d2) (\<lambda>d3.
                                 commit (env_clock e 3)
                                   \<lparr>acp_request_id = request_id, acp_session_id = s,
                                    acp_http_status = 202\<rparr> d3)))))))"

definition to_completion_record :: "completion_row \<Rightarrow> completion_record res" where
  "to_completion_record m =
     mk_completion_record (cl_session_id m) (cl_owner_id m) (cl_epoch m)
       (Aware (cl_expires_at m)) (Aware (cl_renewed_at m))"

text \<open>
  The outer join: a completing session without a live completion lease, oldest request first,
  then by identifier; a request time is never NULL here, and NULL would come last. Rows locked
  by other transactions are skipped.
\<close>

definition claimable :: "db \<Rightarrow> int \<Rightarrow> uuid list \<Rightarrow> session_row \<Rightarrow> bool" where
  "claimable d now locked u =
     (us_strategy u = MULTIPART \<and> us_state u = M_COMPLETING \<and> us_id u \<notin> set locked
      \<and> (case get_completion d (us_id u) of None \<Rightarrow> True | Some l \<Rightarrow> cl_expires_at l \<le> now))"

definition requested_at :: "session_row \<Rightarrow> int" where
  "requested_at u = (case us_completion_requested_at u of None \<Rightarrow> 0 | Some t \<Rightarrow> t)"

definition claim_order :: "session_row list \<Rightarrow> session_row list" where
  "claim_order us =
     sort_key (\<lambda>u. us_completion_requested_at u = None) (sort_key requested_at (sort_key us_id us))"

definition take_completion ::
    "int \<Rightarrow> int \<Rightarrow> uuid \<Rightarrow> uuid \<Rightarrow> int \<Rightarrow> db \<Rightarrow> (completion_row \<times> db) res" where
  "take_completion now later s owner ttl d =
     (case get_completion d s of
        None \<Rightarrow>
          (let l = \<lparr>cl_session_id = s, cl_owner_id = owner, cl_epoch = 1, cl_acquired_at = now,
                    cl_renewed_at = now, cl_expires_at = now + seconds ttl\<rparr>
           in res_bind (insert_completion later l d) (\<lambda>d1. Inr (l, d1)))
      | Some prior \<Rightarrow>
          (let l = prior\<lparr>cl_owner_id := owner, cl_epoch := cl_epoch prior + 1,
                         cl_acquired_at := now, cl_renewed_at := now,
                         cl_expires_at := now + seconds ttl\<rparr>
           in res_bind (update_completion later l d) (\<lambda>d1. Inr (l, d1))))"

definition claim_completion ::
    "env \<Rightarrow> uuid list \<Rightarrow> uuid \<Rightarrow> int \<Rightarrow> int \<Rightarrow> db \<Rightarrow> (completion_claim option \<times> db) res" where
  "claim_completion e locked owner ttl capacity d =
     (if ttl \<le> 0 \<or> capacity \<le> 0 then Inl ContentConflictError
      else
        let now = env_clock e 0
        in if capacity \<le> int (length (filter (\<lambda>l. now < cl_expires_at l) (db_completions d)))
           then commit (env_clock e 2) None d
           else
             case first_row (claim_order (filter (claimable d now locked) (db_sessions d))) of
               None \<Rightarrow> commit (env_clock e 2) None d
             | Some u \<Rightarrow>
                 res_bind (take_completion now (env_clock e 1) (us_id u) owner ttl d) (\<lambda>(l, d1).
                   case us_completion_phase u of
                     None \<Rightarrow> Inl ContentConflictError
                   | Some phase \<Rightarrow>
                       res_bind (to_completion_record l) (\<lambda>r.
                         commit (env_clock e 2)
                           (Some \<lparr>ccl_session_id = us_id u, ccl_lease = r, ccl_phase = phase\<rparr>) d1)))"

text \<open>The fence of the completion steps.\<close>

definition holds_completion :: "db \<Rightarrow> uuid \<Rightarrow> uuid \<Rightarrow> int \<Rightarrow> int \<Rightarrow> bool" where
  "holds_completion d s owner epoch now =
     (case get_completion d s of
        None \<Rightarrow> False
      | Some l \<Rightarrow> cl_owner_id l = owner \<and> cl_epoch l = epoch \<and> now < cl_expires_at l)"

interpretation cmp: fenced_lease get_completion cl_owner_id cl_epoch cl_expires_at holds_completion
proof
  fix d d' s l
  assume "db_evolves d d'" "get_completion d s = Some l"
  then obtain l' where "get_completion d' s = Some l'" "completion_evolves l l'"
    unfolding db_evolves_def get_completion_def using growsD by meson
  then show "\<exists>l'. get_completion d' s = Some l' \<and> cl_epoch l \<le> cl_epoch l'
      \<and> (cl_epoch l' = cl_epoch l \<longrightarrow> cl_owner_id l' = cl_owner_id l)"
    by (auto simp: completion_evolves_def)
qed (simp add: holds_completion_def split: option.split)

definition renew_completion_lease ::
    "env \<Rightarrow> uuid \<Rightarrow> uuid \<Rightarrow> int \<Rightarrow> int \<Rightarrow> db \<Rightarrow> (completion_record \<times> db) res" where
  "renew_completion_lease e s owner epoch ttl d =
     (if ttl \<le> 0 then Inl ContentConflictError
      else
        case get_completion d s of
          None \<Rightarrow> Inl AdmissionLeaseLostError
        | Some l \<Rightarrow>
            (if \<not> holds_completion d s owner epoch (env_clock e 0) then Inl AdmissionLeaseLostError
             else
               let l' = l\<lparr>cl_renewed_at := env_clock e 1, cl_expires_at := env_clock e 2 + seconds ttl\<rparr>
               in res_bind (update_completion (env_clock e 3) l' d) (\<lambda>d1.
                  res_bind (to_completion_record l') (\<lambda>r. commit (env_clock e 4) r d1))))"

definition set_completion_phase ::
    "env \<Rightarrow> completion_claim \<Rightarrow> completion_phase \<Rightarrow> bool \<Rightarrow> bool \<Rightarrow> bool \<Rightarrow> db \<Rightarrow> (unit \<times> db) res" where
  "set_completion_phase e claim phase final_present_observed retryable_reconciliation
       transient_read_failure d =
     (case get_session d (ccl_session_id claim) of
        None \<Rightarrow> Inl AdmissionLeaseLostError
      | Some u \<Rightarrow>
          (if us_state u \<noteq> M_COMPLETING then Inl AdmissionLeaseLostError
           else
             case us_completion_phase u of
               None \<Rightarrow> Inl ContentConflictError
             | Some current \<Rightarrow>
                 res_bind (require_completion_phase_transition current phase
                             final_present_observed retryable_reconciliation transient_read_failure)
                   (\<lambda>_.
                     if \<not> holds_completion d (ccl_session_id claim) (cor_owner_id (ccl_lease claim))
                            (cor_epoch (ccl_lease claim)) (env_clock e 0)
                     then Inl AdmissionLeaseLostError
                     else
                       res_bind (update_session
                           (u\<lparr>us_completion_phase := Some phase, us_last_activity_at := env_clock e 1\<rparr>) d)
                         (\<lambda>d1. commit (env_clock e 2) () d1))))"

section \<open>Recovering a partial completion\<close>

text \<open>The rows of a current claim: the completing session and its live lease.\<close>

definition claimed_rows ::
    "db \<Rightarrow> completion_claim \<Rightarrow> int \<Rightarrow> (session_row \<times> completion_row) option" where
  "claimed_rows d claim now =
     (case (get_session d (ccl_session_id claim), get_completion d (ccl_session_id claim)) of
        (Some u, Some l) \<Rightarrow>
          (if us_state u \<noteq> M_COMPLETING \<or> cl_owner_id l \<noteq> cor_owner_id (ccl_lease claim)
              \<or> cl_epoch l \<noteq> cor_epoch (ccl_lease claim) \<or> cl_expires_at l \<le> now
           then None else Some (u, l))
      | _ \<Rightarrow> None)"

definition expire_completion :: "int \<Rightarrow> int \<Rightarrow> completion_row \<Rightarrow> db \<Rightarrow> db res" where
  "expire_completion later now l d =
     update_completion later (l\<lparr>cl_renewed_at := now, cl_expires_at := now\<rparr>) d"

definition with_evidence :: "partial_evidence \<Rightarrow> session_row \<Rightarrow> session_row" where
  "with_evidence ev u =
     u\<lparr>us_absence_at := Some (instant (pce_absence_at ev)),
       us_reconciled_at := Some (instant (pce_reconciled_at ev)),
       us_completion_result := Some (persisted_completion_result ev)\<rparr>"

definition invalidate_attempt ::
    "env \<Rightarrow> partial_evidence \<Rightarrow> session_row \<Rightarrow> completion_row \<Rightarrow> int \<Rightarrow> db \<Rightarrow> (recovery_outcome \<times> db) res" where
  "invalidate_attempt e ev u l now d =
     (let u' = (with_evidence ev u)
                 \<lparr>us_invalidated_at := Some now,
                  us_failure_code := Some MF_PROVIDER_ATTEMPT_INVALIDATED, us_state := M_FAILED,
                  us_completed_at := Some now, us_last_activity_at := now\<rparr>
      in res_bind (update_session u' d) (\<lambda>d1.
         res_bind (expire_completion (env_clock e 1) now l d1) (\<lambda>d2.
         res_bind (load_multipart_context d2 u') (\<lambda>c.
           commit (env_clock e 2) \<lparr>rco_action = RA_START_NEW_GENERATION, rco_context = c\<rparr> d2))))"

text \<open>The two loops over the parts: match each against the observation, then verify the matches.\<close>

definition recover_one :: "provider_part list \<Rightarrow> int \<Rightarrow> part_row \<Rightarrow> (part_row \<times> bool) res" where
  "recover_one seen at p =
     res_bind (apply_observation p (observe seen (up_number p)) at) (\<lambda>(ok, q).
       if ok then Inr (if up_state q = P_PENDING then q\<lparr>up_state := P_UPLOADED\<rparr> else q, True)
       else Inr (q\<lparr>up_state := P_PENDING\<rparr>, False))"

definition confirm_part :: "int \<Rightarrow> part_row \<times> bool \<Rightarrow> part_row" where
  "confirm_part at row =
     (if snd row then (fst row)\<lparr>up_state := P_VERIFIED, up_verified_at := Some at\<rparr> else fst row)"

definition recover_parts ::
    "partial_evidence \<Rightarrow> uuid \<Rightarrow> db \<Rightarrow> (part_row list \<times> db) res" where
  "recover_parts ev s d =
     (let parts = ordered_parts d s; at = instant (pce_reconciled_at ev)
      in res_bind (res_map (recover_one (pce_parts ev) at) parts) (\<lambda>rows.
         res_bind (flush_parts (zip parts (map fst rows)) d) (\<lambda>d1.
         let confirmed = map (confirm_part at) rows
         in res_bind (flush_parts (zip (map fst rows) confirmed) d1) (\<lambda>d2. Inr (confirmed, d2)))))"

definition resume_session :: "int \<Rightarrow> session_row \<Rightarrow> session_row" where
  "resume_session now u =
     u\<lparr>us_state := M_IN_PROGRESS, us_completion_reason := None, us_completion_phase := None,
       us_last_activity_at := now\<rparr>"

definition recover_same_upload ::
    "env \<Rightarrow> partial_evidence \<Rightarrow> session_row \<Rightarrow> completion_row \<Rightarrow> int \<Rightarrow> db \<Rightarrow> (recovery_outcome \<times> db) res" where
  "recover_same_upload e ev u l now d =
     (let u1 = with_evidence ev u
      in res_bind (update_session u1 d) (\<lambda>d1.
         res_bind (recover_parts ev (us_id u) d1) (\<lambda>(parts, d2).
           let complete = (\<forall>p \<in> set parts. up_state p = P_VERIFIED)
           in if pce_reason ev = RR_PARTS_READY then
                (if \<not> complete then Inl ContentConflictError
                 else
                   res_bind (load_multipart_context d2 u1) (\<lambda>c.
                     commit (env_clock e 2) \<lparr>rco_action = RA_RETRY_COMPLETION, rco_context = c\<rparr> d2))
              else if pce_reason ev \<noteq> RR_PARTS_PARTIAL then Inl ContentConflictError
              else if complete then Inl ContentConflictError
              else
                let u2 = resume_session now u1
                in res_bind (update_session u2 d2) (\<lambda>d3.
                   res_bind (expire_completion (env_clock e 1) now l d3) (\<lambda>d4.
                   res_bind (load_multipart_context d4 u2) (\<lambda>c.
                     commit (env_clock e 2) \<lparr>rco_action = RA_RESUME_PART_UPLOAD, rco_context = c\<rparr> d4))))))"

definition recover_partial_completion ::
    "env \<Rightarrow> completion_claim \<Rightarrow> partial_evidence \<Rightarrow> db \<Rightarrow> (recovery_outcome \<times> db) res" where
  "recover_partial_completion e claim ev d =
     (if duplicate_numbers (pce_parts ev) then Inl ContentConflictError
      else
        let now = env_clock e 0
        in case claimed_rows d claim now of
             None \<Rightarrow> Inl AdmissionLeaseLostError
           | Some (u, l) \<Rightarrow>
               (if us_provider_id u = None then Inl AdmissionLeaseLostError
                else if unplanned (pce_parts ev) (ordered_parts d (us_id u))
                then Inl InvalidPartNumberError
                else if invalidating (pce_reason ev) then invalidate_attempt e ev u l now d
                else recover_same_upload e ev u l now d))"

section \<open>Publishing\<close>

definition attest_session :: "verification_evidence \<Rightarrow> session_row \<Rightarrow> session_row" where
  "attest_session ev u =
     u\<lparr>us_verification_method := Some (vev_method ev),
       us_observed_sha := Some (digest_value (vev_sha ev)),
       us_observed_size := Some (vev_size ev), us_read_bytes := Some (vev_read ev),
       us_verification_completed_at := Some (instant (vev_completed_at ev)),
       us_verifier := Some (vev_verifier ev)\<rparr>"

definition publish_verified ::
    "env \<Rightarrow> verification_evidence \<Rightarrow> session_row \<Rightarrow> completion_row \<Rightarrow> blob_row \<Rightarrow> int \<Rightarrow> db
       \<Rightarrow> (multipart_context \<times> db) res" where
  "publish_verified e ev u l blob now d =
     (let at = instant (vev_completed_at ev);
          u1 = attest_session ev u;
          b1 = blob\<lparr>bl_state := B_VERIFYING\<rparr>;
          b2 = b1\<lparr>bl_state := B_AVAILABLE, bl_verified_at := Some at\<rparr>;
          u2 = u1\<lparr>us_state := M_COMPLETED, us_completed_at := Some at, us_last_activity_at := now\<rparr>
      in res_bind (update_session u1 d) (\<lambda>d1.
         res_bind (update_blob b1 d1) (\<lambda>d2.
         res_bind (update_blob b2 d2) (\<lambda>d3.
         res_bind (update_session u2 d3) (\<lambda>d4.
         res_bind (expire_completion (env_clock e 1) now l d4) (\<lambda>d5.
         res_bind (load_multipart_context d5 u2) (\<lambda>c.
           commit (env_clock e 2) c d5)))))))"

definition record_verified_completion ::
    "env \<Rightarrow> completion_claim \<Rightarrow> verification_evidence \<Rightarrow> db \<Rightarrow> (multipart_context \<times> db) res" where
  "record_verified_completion e claim ev d =
     (let now = env_clock e 0
      in case claimed_rows d claim now of
           None \<Rightarrow> Inl AdmissionLeaseLostError
         | Some (u, l) \<Rightarrow>
             (if us_completion_phase u \<noteq> Some C_FINAL_VERIFICATION then Inl IllegalTransitionError
              else
                case get_blob d (us_blob_id u) of
                  None \<Rightarrow> Inl ContentConflictError
                | Some blob \<Rightarrow>
                    res_bind (mk_digest (bl_sha blob)) (\<lambda>sha.
                    res_bind (validate_evidence ev sha (bl_size blob)) (\<lambda>_.
                      if bl_state blob \<noteq> B_UPLOADING then Inl IllegalTransitionError
                      else publish_verified e ev u l blob now d))))"

section \<open>The operations as runs\<close>

lemma accept_completion_run:
  "accept_completion e s w n r d = Inr (x, d') \<Longrightarrow> run unpublishing d d'"
  by (auto simp: accept_completion_def res_bind_eq_Inr Let_def
        split: option.split_asm if_split_asm;
      (erule chain_rules | rule run_refl | simp)+)

lemma take_completion_run:
  "take_completion now later s w ttl d1 = Inr (l, d') \<Longrightarrow> run unpublishing d d1 \<Longrightarrow> run unpublishing d d'"
  by (auto simp: take_completion_def res_bind_eq_Inr Let_def split: option.split_asm;
      (erule chain_rules | rule run_refl | simp)+)

lemma claim_completion_run:
  "claim_completion e locked w ttl cap d = Inr (x, d') \<Longrightarrow> run unpublishing d d'"
  by (auto simp: claim_completion_def res_bind_eq_Inr Let_def split: option.split_asm if_split_asm;
      (erule chain_rules take_completion_run | rule run_refl | simp)+)

lemma renew_completion_lease_run:
  "renew_completion_lease e s w n ttl d = Inr (x, d') \<Longrightarrow> run unpublishing d d'"
  by (auto simp: renew_completion_lease_def res_bind_eq_Inr Let_def
        split: option.split_asm if_split_asm;
      (erule chain_rules | rule run_refl | simp)+)

lemma set_completion_phase_run:
  "set_completion_phase e claim phase a b c d = Inr (x, d') \<Longrightarrow> run unpublishing d d'"
  by (auto simp: set_completion_phase_def res_bind_eq_Inr split: option.split_asm if_split_asm;
      (erule chain_rules | rule run_refl | simp)+)

lemma expire_completion_run:
  "expire_completion later now l d1 = Inr d' \<Longrightarrow> run unpublishing d d1 \<Longrightarrow> run unpublishing d d'"
  unfolding expire_completion_def by (erule runs_then(14)) simp_all

lemma recover_parts_run:
  "recover_parts ev s d1 = Inr (x, d') \<Longrightarrow> run unpublishing d d1 \<Longrightarrow> run unpublishing d d'"
  by (auto simp: recover_parts_def res_bind_eq_Inr Let_def;
      (erule flush_parts_run | rule run_refl | simp)+)

lemma invalidate_attempt_run:
  "invalidate_attempt e ev u l now d = Inr (x, d') \<Longrightarrow> run unpublishing d d'"
  by (auto simp: invalidate_attempt_def res_bind_eq_Inr Let_def;
      (erule expire_completion_run chain_rules | rule run_refl | simp)+)

lemma recover_same_upload_run:
  "recover_same_upload e ev u l now d = Inr (x, d') \<Longrightarrow> run unpublishing d d'"
  by (auto simp: recover_same_upload_def res_bind_eq_Inr Let_def split: if_split_asm;
      (erule expire_completion_run recover_parts_run chain_rules | rule run_refl | simp)+)

lemma recover_partial_completion_run:
  "recover_partial_completion e claim ev d = Inr (x, d') \<Longrightarrow> run unpublishing d d'"
  by (auto simp: recover_partial_completion_def Let_def split: option.split_asm if_split_asm
      intro: invalidate_attempt_run recover_same_upload_run)

lemma publish_verified_run:
  "publish_verified e ev u l b now d = Inr (x, d') \<Longrightarrow> run unpublishing d d'"
  by (auto simp: publish_verified_def res_bind_eq_Inr Let_def;
      (erule expire_completion_run chain_rules | rule run_refl | simp)+)

lemma record_verified_completion_run:
  "record_verified_completion e claim ev d = Inr (x, d') \<Longrightarrow> run unpublishing d d'"
  by (auto simp: record_verified_completion_def res_bind_eq_Inr Let_def
      split: option.split_asm if_split_asm intro: publish_verified_run)

end
