(* ===== verification/Registry.thy ===== *)
theory Registry
  imports CompletionStore
begin

text \<open>
  The store as a whole: the states its operations reach from an empty registry, in any order,
  with any arguments and environments, and what holds in all of them.
\<close>

section \<open>Steps of the store\<close>

text \<open>The calls that succeed; a call that fails leaves the database as it was.\<close>

inductive store_step :: "unicode \<Rightarrow> db \<Rightarrow> db \<Rightarrow> bool" for U where
  do_create_dataset: "create_dataset U e name key q d = Inr (x1, d') \<Longrightarrow> store_step U d d'"
| do_register_version: "register_version U e i m key q d = Inr (x2, d') \<Longrightarrow> store_step U d d'"
| do_prepare_upload: "prepare_upload U e i sha key q d = Inr (x3, d') \<Longrightarrow> store_step U d d'"
| do_start_upload: "mark_upload_in_progress U e i d = Inr (x3, d') \<Longrightarrow> store_step U d d'"
| do_verify_upload: "mark_upload_verified U e i etag d = Inr (x3, d') \<Longrightarrow> store_step U d d'"
| do_fail_upload: "mark_upload_failed U e i code detail d = Inr (x3, d') \<Longrightarrow> store_step U d d'"
| do_restart_upload: "restart_failed_upload U e i b key q d = Inr (x3, d') \<Longrightarrow> store_step U d d'"
| do_finalize: "finalize_version U e i d = Inr (x2, d') \<Longrightarrow> store_step U d d'"
| do_create_multipart:
    "create_or_resolve_multipart e r i b plan d = Inr (x4, d') \<Longrightarrow> store_step U d d'"
| do_acquire: "acquire_multipart_lease e r w i ttl cap d = Inr (x5, d') \<Longrightarrow> store_step U d d'"
| do_release: "release_multipart_lease e i w n d = Inr (x6, d') \<Longrightarrow> store_step U d d'"
| do_initiate: "begin_provider_initiation e i w n d = Inr (x6, d') \<Longrightarrow> store_step U d d'"
| do_provider: "record_provider_upload e i w n p d = Inr (x6, d') \<Longrightarrow> store_step U d d'"
| do_ambiguous: "mark_multipart_initiation_ambiguous e i w n d = Inr (x6, d') \<Longrightarrow> store_step U d d'"
| do_part: "record_uploaded_part e i w n receipt d = Inr (x7, d') \<Longrightarrow> store_step U d d'"
| do_reconcile: "reconcile_parts e i w n seen a d = Inr (x8, d') \<Longrightarrow> store_step U d d'"
| do_accept: "accept_completion e i w n r d = Inr (x9, d') \<Longrightarrow> store_step U d d'"
| do_claim: "claim_completion e locked w ttl cap d = Inr (x10, d') \<Longrightarrow> store_step U d d'"
| do_renew: "renew_completion_lease e i w n ttl d = Inr (x11, d') \<Longrightarrow> store_step U d d'"
| do_phase: "set_completion_phase e claim phase f1 f2 f3 d = Inr (x6, d') \<Longrightarrow> store_step U d d'"
| do_recover: "recover_partial_completion e claim ev d = Inr (x12, d') \<Longrightarrow> store_step U d d'"
| do_publish: "record_verified_completion e claim vev d = Inr (x4, d') \<Longrightarrow> store_step U d d'"

inductive reachable :: "unicode \<Rightarrow> db \<Rightarrow> bool" for U where
  initially: "reachable U empty_db"
| after: "reachable U d \<Longrightarrow> store_step U d d' \<Longrightarrow> reachable U d'"

text \<open>
  A history: the states after the first are reached from it step by step.
\<close>

inductive later :: "unicode \<Rightarrow> db \<Rightarrow> db \<Rightarrow> bool" for U where
  now: "later U d d"
| next_step: "later U d d' \<Longrightarrow> store_step U d' d'' \<Longrightarrow> later U d d''"

text \<open>Every step but the publication of a version is a run that publishes none.\<close>

lemmas op_runs = create_dataset_run register_version_run prepare_upload_run
  mark_upload_in_progress_run mark_upload_verified_run mark_upload_failed_run
  restart_failed_upload_run create_or_resolve_run acquire_multipart_lease_run
  release_multipart_lease_run begin_provider_initiation_run record_provider_upload_run
  mark_initiation_ambiguous_run record_uploaded_part_run reconcile_parts_run
  accept_completion_run claim_completion_run renew_completion_lease_run
  set_completion_phase_run recover_partial_completion_run record_verified_completion_run

lemma step_cases:
  assumes "store_step U d d'"
  obtains "run unpublishing d d'" | e i x where "finalize_version U e i d = Inr (x, d')"
  using assms
proof cases
  case do_finalize
  then show ?thesis using that(2) by blast
qed (rule that(1), erule op_runs)+

lemma finalize_steps:
  assumes "finalize_version U e i d = Inr (x, d')"
  shows "run drafting d d'"
  using assms
proof (cases rule: finalize_Inr)
  case (replay v)
  show ?thesis by (rule run_mono [OF replay(4)]) simp
next
  case (publish v m d1 d2)
  then show ?thesis
    by (intro run_then_commit [OF publish(8)] runs_then(3) [OF publish(7)] runs(3) [OF publish(6)]) simp_all
qed

lemma step_run: "store_step U d d' \<Longrightarrow> run drafting d d'"
  by (erule step_cases) (erule run_mono, simp, erule finalize_steps)

section \<open>Every operation ends its transaction\<close>

lemmas end_simps = res_bind_eq_Inr Let_def commit_Inr

lemma finish_upload_empty: "finish_upload U e version blob u d = Inr (x, d') \<Longrightarrow> db_deferred d' = []"
  by (auto simp: finish_upload_def end_simps split: option.split_asm if_split_asm)

lemma restart_body_empty: "restart_body U e version name blob key q d = Inr (x, d') \<Longrightarrow> db_deferred d' = []"
  by (auto simp: restart_body_def end_simps split: option.split_asm if_split_asm)

lemma register_transaction_empty: "register_transaction U e i m key q d = Inr (x, d') \<Longrightarrow> db_deferred d' = []"
  by (auto simp: register_transaction_def end_simps split: option.split_asm if_split_asm)

lemma create_dataset_empty: "create_dataset U e name key q d = Inr (x, d') \<Longrightarrow> db_deferred d' = []"
  by (auto simp: create_dataset_def end_simps split: option.split_asm if_split_asm)

lemma register_version_empty: "register_version U e i m key q d = Inr (x, d') \<Longrightarrow> db_deferred d' = []"
  by (auto simp: register_version_def end_simps dest: register_transaction_empty split: option.split_asm if_split_asm)

lemma prepare_upload_empty: "prepare_upload U e i sha key q d = Inr (x, d') \<Longrightarrow> db_deferred d' = []"
  by (auto simp: prepare_upload_def end_simps split: option.split_asm if_split_asm)

lemma mark_upload_in_progress_empty: "mark_upload_in_progress U e i d = Inr (x, d') \<Longrightarrow> db_deferred d' = []"
  by (auto simp: mark_upload_in_progress_def end_simps dest: finish_upload_empty split: option.split_asm if_split_asm)

lemma mark_upload_verified_empty: "mark_upload_verified U e i etag d = Inr (x, d') \<Longrightarrow> db_deferred d' = []"
  by (auto simp: mark_upload_verified_def end_simps dest: finish_upload_empty split: option.split_asm if_split_asm)

lemma mark_upload_failed_empty: "mark_upload_failed U e i code detail d = Inr (x, d') \<Longrightarrow> db_deferred d' = []"
  by (auto simp: mark_upload_failed_def end_simps dest: finish_upload_empty split: option.split_asm if_split_asm)

lemma restart_failed_upload_empty: "restart_failed_upload U e i b key q d = Inr (x, d') \<Longrightarrow> db_deferred d' = []"
  by (auto simp: restart_failed_upload_def end_simps dest: restart_body_empty split: option.split_asm if_split_asm)

lemma finalize_version_empty: "finalize_version U e i d = Inr (x, d') \<Longrightarrow> db_deferred d' = []"
  by (auto simp: finalize_version_def end_simps split: option.split_asm if_split_asm)

lemma create_or_resolve_multipart_empty: "create_or_resolve_multipart e r i b plan d = Inr (x, d') \<Longrightarrow> db_deferred d' = []"
  by (auto simp: create_or_resolve_multipart_def end_simps split: option.split_asm if_split_asm)

lemma acquire_multipart_lease_empty: "acquire_multipart_lease e r w i ttl cap d = Inr (x, d') \<Longrightarrow> db_deferred d' = []"
  by (auto simp: acquire_multipart_lease_def end_simps split: option.split_asm if_split_asm)

lemma release_multipart_lease_empty: "release_multipart_lease e i w n d = Inr (x, d') \<Longrightarrow> db_deferred d' = []"
  by (auto simp: release_multipart_lease_def end_simps split: option.split_asm if_split_asm)

lemma begin_provider_initiation_empty: "begin_provider_initiation e i w n d = Inr (x, d') \<Longrightarrow> db_deferred d' = []"
  by (auto simp: begin_provider_initiation_def end_simps split: option.split_asm if_split_asm)

lemma record_provider_upload_empty: "record_provider_upload e i w n p d = Inr (x, d') \<Longrightarrow> db_deferred d' = []"
  by (auto simp: record_provider_upload_def end_simps split: option.split_asm if_split_asm)

lemma release_owned_empty: "release_owned e i w n d = Inr (x, d') \<Longrightarrow> db_deferred d' = []"
  by (auto simp: release_owned_def end_simps split: option.split_asm if_split_asm)

lemma mark_multipart_initiation_ambiguous_empty: "mark_multipart_initiation_ambiguous e i w n d = Inr (x, d') \<Longrightarrow> db_deferred d' = []"
  by (auto simp: mark_multipart_initiation_ambiguous_def end_simps dest: release_owned_empty split: option.split_asm if_split_asm)

lemma store_receipt_empty: "store_receipt e p receipt d = Inr (x, d') \<Longrightarrow> db_deferred d' = []"
  by (auto simp: store_receipt_def end_simps split: option.split_asm if_split_asm)

lemma record_uploaded_part_empty: "record_uploaded_part e i w n receipt d = Inr (x, d') \<Longrightarrow> db_deferred d' = []"
  by (auto simp: record_uploaded_part_def end_simps dest: store_receipt_empty split: option.split_asm if_split_asm)

lemma reconcile_rows_empty: "reconcile_rows e seen a parts d = Inr (x, d') \<Longrightarrow> db_deferred d' = []"
  by (auto simp: reconcile_rows_def end_simps split: option.split_asm if_split_asm)

lemma reconcile_parts_empty: "reconcile_parts e i w n seen a d = Inr (x, d') \<Longrightarrow> db_deferred d' = []"
  by (auto simp: reconcile_parts_def end_simps dest: reconcile_rows_empty split: option.split_asm if_split_asm)

lemma accept_completion_empty: "accept_completion e i w n r d = Inr (x, d') \<Longrightarrow> db_deferred d' = []"
  by (auto simp: accept_completion_def end_simps split: option.split_asm if_split_asm)

lemma claim_completion_empty: "claim_completion e locked w ttl cap d = Inr (x, d') \<Longrightarrow> db_deferred d' = []"
  by (auto simp: claim_completion_def end_simps split: option.split_asm if_split_asm)

lemma renew_completion_lease_empty: "renew_completion_lease e i w n ttl d = Inr (x, d') \<Longrightarrow> db_deferred d' = []"
  by (auto simp: renew_completion_lease_def end_simps split: option.split_asm if_split_asm)

lemma set_completion_phase_empty: "set_completion_phase e claim phase f1 f2 f3 d = Inr (x, d') \<Longrightarrow> db_deferred d' = []"
  by (auto simp: set_completion_phase_def end_simps split: option.split_asm if_split_asm)

lemma invalidate_attempt_empty: "invalidate_attempt e ev u l t d = Inr (x, d') \<Longrightarrow> db_deferred d' = []"
  by (auto simp: invalidate_attempt_def end_simps split: option.split_asm if_split_asm)

lemma recover_same_upload_empty: "recover_same_upload e ev u l t d = Inr (x, d') \<Longrightarrow> db_deferred d' = []"
  by (auto simp: recover_same_upload_def end_simps split: option.split_asm if_split_asm)

lemma recover_partial_completion_empty: "recover_partial_completion e claim ev d = Inr (x, d') \<Longrightarrow> db_deferred d' = []"
  by (auto simp: recover_partial_completion_def end_simps dest: invalidate_attempt_empty recover_same_upload_empty split: option.split_asm if_split_asm)

lemma publish_verified_empty: "publish_verified e vev u l b t d = Inr (x, d') \<Longrightarrow> db_deferred d' = []"
  by (auto simp: publish_verified_def end_simps split: option.split_asm if_split_asm)

lemma record_verified_completion_empty: "record_verified_completion e claim vev d = Inr (x, d') \<Longrightarrow> db_deferred d' = []"
  by (auto simp: record_verified_completion_def end_simps dest: publish_verified_empty split: option.split_asm if_split_asm)

lemmas op_empties = create_dataset_empty register_version_empty prepare_upload_empty mark_upload_in_progress_empty mark_upload_verified_empty mark_upload_failed_empty restart_failed_upload_empty finalize_version_empty create_or_resolve_multipart_empty acquire_multipart_lease_empty release_multipart_lease_empty begin_provider_initiation_empty record_provider_upload_empty mark_multipart_initiation_ambiguous_empty record_uploaded_part_empty reconcile_parts_empty accept_completion_empty claim_completion_empty renew_completion_lease_empty set_completion_phase_empty recover_partial_completion_empty record_verified_completion_empty

lemma step_empty: "store_step U d d' \<Longrightarrow> db_deferred d' = []"
  by (erule store_step.cases; simp only:; erule op_empties)

section \<open>Committed states\<close>

text \<open>
  What every reachable state satisfies: the constraints of the schema, nothing left to a
  deferred trigger, the totals of sealed versions right, and only complete versions READY.
\<close>

definition committed :: "db \<Rightarrow> bool" where
  "committed d = (wf_db d \<and> settled d \<and> ready_ok d \<and> totals_ok d \<and> db_deferred d = [])"

lemma blobs_available_joined:
  assumes "wf_db d" "\<forall>b \<in> set (map snd (joined d i)). bl_state b = B_AVAILABLE"
  shows "blobs_available d i"
  unfolding blobs_available_def
proof
  fix x assume x: "x \<in> set (entries_of d i)"
  then have "de_blob_id x \<in> bl_id ` set (db_blobs d)"
    using assms(1) by (auto simp: entries_of_def wf_db_def refs_ok_def)
  then obtain b where b: "get_blob d (de_blob_id x) = Some b"
    by (cases "get_blob d (de_blob_id x)") (auto simp: get_blob_def tab_get_None)
  then have "(x, b) \<in> set (joined d i)" using x by (auto simp: joined_mem entries_of_def)
  then show "\<exists>b. get_blob d (de_blob_id x) = Some b \<and> bl_state b = B_AVAILABLE"
    using assms(2) b by force
qed

lemma update_version_Inr:
  assumes "update_version r d = Inr d'"
  obtains old where "get_version d (dv_id r) = Some old" "guard_dataset_version d old r"
    "d' = d\<lparr>db_versions := tab_put dv_id r (db_versions d),
            db_deferred := db_deferred d @ [RequireSealed (dv_id r)]\<rparr>"
  using assms by (auto simp: update_version_def split: if_splits option.splits)

lemma publish_ready:
  assumes "committed d" "get_version d i = Some v"
    and "\<forall>b \<in> set (map snd (joined d i)). bl_state b = B_AVAILABLE"
    and "update_version (v\<lparr>dv_state := V_VERIFYING, dv_verifying_at := t\<rparr>) d = Inr d1"
    and "update_version (published_row now v) d1 = Inr d2"
  shows "ready_ok d2"
proof -
  have w: "wf_db d" "ready_ok d" using assms(1) by (auto simp: committed_def)
  have v: "dv_id v = i" "v \<in> set (db_versions d)" using get_id(2) [OF assms(2)] by auto
  then have sealed: "dv_sealed_at v \<noteq> None"
    using assms(1) by (auto simp: committed_def settled_def sealed_or_queued_def)
  have r1: "run unpublishing d d1" using runs(3) [OF assms(4)] by simp
  then have d1: "wf_db d1" "ready_ok d1" using run_ready w by blast+
  have r2: "run (\<lambda>_. True) d d2"
    using runs_then(3) [OF assms(5)] run_mono [OF r1] by simp
  then have w2: "db_evolves d d2" using run_wf w by blast
  have avail: "blobs_available d2 i"
    using available_stays [OF w2 assms(2) sealed blobs_available_joined [OF w(1) assms(3)]] .
  show ?thesis
    unfolding ready_ok_def
  proof (intro ballI impI)
    fix x assume x: "x \<in> set (db_versions d2)" "dv_state x = V_READY"
    have "x = published_row now v \<or> x \<in> set (db_versions d1)"
      using x(1) assms(5) by (auto elim!: update_version_Inr dest: put_mem)
    then show "dv_sealed_at x \<noteq> None \<and> blobs_available d2 (dv_id x)"
    proof
      assume "x = published_row now v"
      then show ?thesis using sealed avail v(1) by (simp add: published_row_def)
    next
      assume old: "x \<in> set (db_versions d1)"
      then have s: "dv_sealed_at x \<noteq> None" "blobs_available d1 (dv_id x)"
        using d1(2) x(2) by (auto simp: ready_ok_def)
      have "get_version d1 (dv_id x) = Some x"
        using old d1(1) tab_get_distinct by (auto simp: get_version_def wf_db_def keys_ok_def)
      then show ?thesis
        using available_stays s stmt_evolves [OF stmt.upd_version [OF assms(5)] d1(1)] by blast
    qed
  qed
qed

lemma commit_ready: "commit now x d = Inr (y, d') \<Longrightarrow> ready_ok d \<Longrightarrow> ready_ok d'"
  by (auto simp: commit_Inr ready_ok_def blobs_available_def entries_of_def get_blob_def)

lemma finalize_ready:
  assumes "finalize_version U e i d = Inr (x, d')" "committed d"
  shows "ready_ok d'"
  using assms(1)
proof (cases rule: finalize_Inr)
  case (replay v)
  then show ?thesis using run_ready assms(2) by (auto simp: committed_def)
next
  case (publish v m d1 d2)
  show ?thesis
    by (rule commit_ready [OF publish(8) publish_ready [OF assms(2) publish(1,5,6,7)]])
qed

lemma step_committed:
  assumes "store_step U d d'" "committed d"
  shows "committed d'"
proof -
  have r: "run drafting d d'" using step_run [OF assms(1)] .
  then have "wf_db d'" "settled d'" "totals_ok d'"
    using run_settled run_totals assms(2) unfolding committed_def by blast+
  moreover have "ready_ok d'"
    using assms(1)
  proof (cases rule: step_cases)
    case 1
    then show ?thesis using run_ready assms(2) by (auto simp: committed_def)
  next
    case (2 e i x)
    then show ?thesis using finalize_ready assms(2) by blast
  qed
  ultimately show ?thesis using step_empty [OF assms(1)] by (simp add: committed_def)
qed

lemma empty_committed: "committed empty_db"
  using empty_wf empty_settled by (simp add: committed_def) (simp add: ready_ok_def totals_ok_def empty_db_def)

lemma reachable_committed: "reachable U d \<Longrightarrow> committed d"
  by (induction rule: reachable.induct) (use empty_committed step_committed in blast)+

lemma step_evolves: "store_step U d d' \<Longrightarrow> wf_db d \<Longrightarrow> db_evolves d d'"
  using step_run run_wf by blast

lemma later_evolves: "later U d d' \<Longrightarrow> committed d \<Longrightarrow> committed d' \<and> db_evolves d d'"
proof (induction rule: later.induct)
  case (now d)
  then show ?case using db_evolves_refl by blast
next
  case (next_step d d' d'')
  then have "committed d'" "db_evolves d d'" by auto
  then show ?case
    using step_committed [OF next_step(2)] step_evolves [OF next_step(2)] db_evolves_trans
    by (auto simp: committed_def)
qed

end
