(* ===== verification/Samples.thy ===== *)
theory Samples
  imports Registry
begin

text \<open>
  Small concrete rows and databases on which the properties of the registry are applied: one
  dataset with one sealed version of one file, its blob, and an upload of that blob.
\<close>

section \<open>Rows\<close>

definition sample_sha :: ustr where
  "sample_sha = replicate 64 48"

definition sample_dataset :: dataset_row where
  "sample_dataset = \<lparr>ds_id = 1, ds_name = lit ''d'', ds_created_at = 0\<rparr>"

definition sample_version :: "version_state \<Rightarrow> int \<Rightarrow> version_row" where
  "sample_version state nbytes =
     \<lparr>dv_id = 2, dv_dataset_id = 1, dv_number = 1, dv_schema_version = 1, dv_manifest_bytes = [],
      dv_manifest_sha = sample_sha, dv_state = state, dv_file_count = 1,
      dv_logical_bytes = nbytes, dv_unique_blob_count = 1, dv_unique_blob_bytes = nbytes,
      dv_failure_code = None, dv_failure_detail = None, dv_created_at = 0,
      dv_sealed_at = Some 1, dv_verifying_at = None, dv_ready_at = None\<rparr>"

definition sample_blob :: "blob_state \<Rightarrow> int \<Rightarrow> blob_row" where
  "sample_blob state nbytes =
     \<lparr>bl_id = 3, bl_sha = sample_sha, bl_size = nbytes, bl_object_key = key_of_sha sample_sha,
      bl_state = state, bl_failure_code = None, bl_failure_detail = None, bl_created_at = 0,
      bl_verified_at = None\<rparr>"

definition sample_entry :: entry_row where
  "sample_entry = \<lparr>de_version_id = 2, de_ordinal = 0, de_path = lit ''a'', de_blob_id = 3\<rparr>"

definition sample_single_put :: "multipart_state \<Rightarrow> session_row" where
  "sample_single_put state = (new_single_put 4 3 2 5)\<lparr>us_state := state\<rparr>"

text \<open>A multipart session of one generation, with one part, at the provider.\<close>

definition sample_multipart :: "multipart_state \<Rightarrow> session_row" where
  "sample_multipart state =
     (new_single_put 4 3 2 5)
       \<lparr>us_strategy := MULTIPART, us_state := state, us_generation := Some 1,
        us_provider_id := (if state \<in> {M_CREATED, M_INITIATING} then None else Some (lit ''u'')),
        us_part_size := Some 67108864, us_part_count := Some 1, us_plan_schema := Some 1,
        us_plan_sha := Some sample_sha\<rparr>"

definition sample_db :: "version_state \<Rightarrow> blob_state \<Rightarrow> int \<Rightarrow> session_row list \<Rightarrow> db" where
  "sample_db version blob nbytes sessions =
     empty_db\<lparr>db_datasets := [sample_dataset], db_versions := [sample_version version nbytes],
              db_blobs := [sample_blob blob nbytes], db_entries := [sample_entry],
              db_sessions := sessions\<rparr>"

lemmas sample_rows = sample_dataset_def sample_version_def sample_blob_def sample_entry_def
  sample_single_put_def sample_multipart_def new_single_put_def

lemmas sample_defs = sample_rows sample_db_def empty_db_def

lemma sample_sha_text [simp]: "sha_text sample_sha"
  by (simp add: sha_text_def sample_sha_def hex_val_def)

lemma sample_row_checks [simp]:
  "check_dataset sample_dataset"
  "check_entry sample_entry"
  "0 \<le> nbytes \<Longrightarrow> nbytes < 2 ^ 63 \<Longrightarrow> check_version (sample_version vs nbytes)"
  "0 \<le> nbytes \<Longrightarrow> nbytes < 2 ^ 63 \<Longrightarrow> check_blob (sample_blob bs nbytes)"
  by (simp_all add: sample_rows check_dataset_def check_version_def check_blob_def check_entry_def
      octets_at_most_def utf8_encode_def utf8_char_def lit_def int8_def)

lemma sample_session_checks [simp]:
  "check_session (sample_single_put us)"
  "us \<in> {M_CREATED, M_INITIATING, M_IN_PROGRESS} \<Longrightarrow> check_session (sample_multipart us)"
  by (auto simp: sample_rows check_session_def check_multipart_plan_def check_provider_id_def
      check_completion_values_def check_verification_evidence_def session_widths_def int4_def int8_def
      lit_def)

text \<open>A sample with at most one session is a committed state when its READY version is complete.\<close>

lemma sample_db_wf:
  assumes "0 \<le> nbytes" "nbytes < 2 ^ 63"
    and "ss = [] \<or> (\<exists>s. ss = [s] \<and> check_session s \<and> us_blob_id s = 3 \<and> us_version_id s = 2)"
  shows "wf_db (sample_db vs bs nbytes ss)"
  using assms
  by (auto simp: wf_db_def keys_ok_def unique_ok_def checks_ok_def refs_ok_def sample_db_def
      empty_db_def) (simp_all add: sample_rows)

lemma sample_committed:
  assumes "0 \<le> nbytes" "nbytes < 2 ^ 63"
    and "ss = [] \<or> (\<exists>s. ss = [s] \<and> check_session s \<and> us_blob_id s = 3 \<and> us_version_id s = 2
           \<and> us_state s \<noteq> M_COMPLETED \<and> (us_strategy s = MULTIPART \<longrightarrow> bs \<notin> {B_VERIFYING, B_AVAILABLE}))"
    and "vs = V_READY \<Longrightarrow> bs = B_AVAILABLE"
  shows "committed (sample_db vs bs nbytes ss)"
proof -
  have "settled (sample_db vs bs nbytes ss)"
    using assms(3)
    by (auto simp: settled_def sealed_or_queued_def published_or_queued_def publication_states_ok_def
        multipart_sessions_def sessions_of_def sample_db_def empty_db_def)
       (simp_all add: sample_rows)
  moreover have "ready_ok (sample_db vs bs nbytes ss)"
    using assms(4)
    by (auto simp: ready_ok_def blobs_available_def entries_of_def get_blob_def sample_db_def
        empty_db_def) (simp_all add: sample_rows)
  moreover have "totals_ok (sample_db vs bs nbytes ss)"
    by (simp add: totals_ok_def ordinals_ok_def summaries_ok_def joined_def entries_of_def
        get_blob_def sample_db_def empty_db_def) (simp add: sample_rows)
  ultimately show ?thesis
    using sample_db_wf [OF assms(1,2), of ss vs bs] assms(3)
    by (auto simp: committed_def) (simp_all add: sample_db_def empty_db_def)
qed

text \<open>A part, an admission lease and a completion lease of the sample session.\<close>

definition sample_part :: part_row where
  "sample_part =
     \<lparr>up_session_id = 4, up_number = 1, up_offset = 0, up_size = 7, up_sha = sample_sha,
      up_state = P_PENDING, up_response_etag = None, up_response_checksum = None,
      up_received_at = None, up_listed_etag = None, up_listed_checksum = None,
      up_listed_size = None, up_listed_at = None, up_issued_at = None, up_expires_at = None,
      up_issue_count = 0, up_uploaded_at = None, up_verified_at = None, up_error = None,
      up_created_at = 0\<rparr>"

definition sample_admission :: "uuid \<Rightarrow> int \<Rightarrow> int \<Rightarrow> admission_row" where
  "sample_admission w n now =
     \<lparr>al_session_id = 4, al_invocation_id = 8, al_owner_id = w, al_epoch = n,
      al_acquired_at = now, al_renewed_at = now, al_expires_at = now + 10\<rparr>"

definition sample_completion :: "uuid \<Rightarrow> int \<Rightarrow> int \<Rightarrow> completion_row" where
  "sample_completion w n now =
     \<lparr>cl_session_id = 4, cl_owner_id = w, cl_epoch = n, cl_acquired_at = now,
      cl_renewed_at = now, cl_expires_at = now + 10\<rparr>"

lemma sample_part_check [simp]: "check_part sample_part"
  by (simp add: sample_part_def check_part_def int8_def int4_def)

lemma sample_lease_checks [simp]:
  "0 < n \<Longrightarrow> n < 2 ^ 63 \<Longrightarrow> check_admission (sample_admission w n now)"
  "0 < n \<Longrightarrow> n < 2 ^ 63 \<Longrightarrow> check_completion (sample_completion w n now)"
  by (simp_all add: sample_admission_def sample_completion_def check_admission_def
      check_completion_def int8_def)

text \<open>These tables do not matter to publication.\<close>

lemma committed_with:
  assumes "committed d"
  shows "check_part p \<Longrightarrow> up_session_id p \<in> us_id ` set (db_sessions d) \<Longrightarrow>
           committed (d\<lparr>db_parts := [p]\<rparr>)"
    and "check_admission l \<Longrightarrow> committed (d\<lparr>db_admissions := [l]\<rparr>)"
    and "check_completion c \<Longrightarrow> committed (d\<lparr>db_completions := [c]\<rparr>)"
  using assms
  by (auto simp: committed_def wf_db_def keys_ok_def unique_ok_def checks_ok_def refs_ok_def
      settled_def sealed_or_queued_def published_or_queued_def publication_states_ok_def
      multipart_sessions_def sessions_of_def ready_ok_def blobs_available_def totals_ok_def
      ordinals_ok_def summaries_ok_def joined_def entries_of_def get_blob_def Let_def)

section \<open>Sample lease changes\<close>

lemma digest_sha_text: "sha_text (sha256_hex x)"
  using content_digest_wf by (simp add: sha_text_wf content_digest_def)

lemma multipart_request_sha_text:
  "ascii (lit scope) \<Longrightarrow> \<forall>v \<in> set values. ascii v \<Longrightarrow> sha_text (multipart_request_sha scope values)"
proof -
  assume a: "ascii (lit scope)" "\<forall>v \<in> set values. ascii v"
  have "ascii (dumps (JObj [(lit ''scope'', JStr (lit scope)), (lit ''values'', JArr (map JStr values))]))"
    using a by (intro dumps_ascii(1)) (auto simp: ascii_def lit_def)
  then show ?thesis
    unfolding multipart_request_sha_def ascii_def by (simp add: utf8_encode_ascii digest_sha_text)
qed

lemma uuid_str_ascii: "ascii (uuid_str u)"
proof -
  have "x < 128" if x: "x \<in> set (uuid_str u)" for x
  proof (cases "x = 45")
    case False
    then have "x \<in> set (filter (\<lambda>c. c \<noteq> 45) (uuid_str u))" using x by simp
    then have "hex_val x \<noteq> None" unfolding uuid_str_hex using hex_encode_chars by blast
    then show ?thesis by (simp add: hex_val_def split: if_splits)
  qed simp
  then show ?thesis by (simp add: ascii_def)
qed

definition sample_request_id :: uuid where
  "sample_request_id = 0x11111111111141118111111111111111"

lemma sample_request_key: "uuid_key_text (uuid_str sample_request_id)"
  unfolding sample_request_id_def by code_simp

text \<open>The host of the second client: its clocks read 20 and later.\<close>

definition late_env :: env where
  "late_env = \<lparr>env_uuid = (\<lambda>i. word_of_nat (i + 6)), env_wall = int, env_clock = (\<lambda>i. 20 + int i)\<rparr>"

definition sample_leased :: db where
  "sample_leased =
     (sample_db V_UPLOADING B_UPLOADING 7 [sample_multipart M_IN_PROGRESS])
       \<lparr>db_admissions := [sample_admission 5 1 0]\<rparr>"

lemma sample_leased_committed: "committed sample_leased"
  unfolding sample_leased_def
  by (intro committed_with sample_committed) (simp_all, simp_all add: sample_rows)

definition taken_lease :: admission_row where
  "taken_lease =
     \<lparr>al_session_id = 4, al_invocation_id = 7, al_owner_id = 6, al_epoch = 2, al_acquired_at = 20,
      al_renewed_at = 20, al_expires_at = 20 + seconds 10\<rparr>"

definition taken_idem :: idem_row where
  "taken_idem =
     multipart_idem MULTIPART_ADMISSION_ACQUIRE (uuid_str sample_request_id)
       (multipart_request_sha ''multipart-admission-acquire'' [uuid_str 4, uuid_str 7]) 4 200
       (RespAdmission 4 7 6 2 (Aware (20 + seconds 10)) (Aware 20)) 0"

definition sample_taken :: db where
  "sample_taken = sample_leased\<lparr>db_admissions := [taken_lease], db_idem := [taken_idem]\<rparr>"

lemma sample_take:
  "take_admission 20 21 6 4 7 10 1 sample_leased
     = Inr (taken_lease, sample_leased\<lparr>db_admissions := [taken_lease]\<rparr>)"
  by (simp add: take_admission_def sample_leased_def get_admission_def sample_admission_def
      update_admission_def guard_admission_lease_def check_admission_def int8_def seconds_def
      taken_lease_def sample_defs Let_def tab_put_def)

lemma taken_idem_ok: "guard_m2_idempotency taken_idem \<and> check_idem taken_idem"
proof -
  have "sha_text (multipart_request_sha ''multipart-admission-acquire'' [uuid_str 4, uuid_str 7])"
    by (rule multipart_request_sha_text) (simp_all add: lit_def uuid_str_ascii)
  moreover have "length (uuid_str sample_request_id) = 36"
    using sample_request_key by (simp add: uuid_key_text_def)
  ultimately show ?thesis
    using sample_request_key
    by (simp add: taken_idem_def multipart_idem_def guard_m2_idempotency_def check_idem_def
        varchar_def int4_def)
qed

lemma sample_acquire:
  "\<exists>r. acquire_multipart_lease late_env sample_request_id 7 4 10 1 sample_leased = Inr (r, sample_taken)"
proof -
  have env: "env_clock late_env 0 = 20" "env_clock late_env (Suc 0) = 21" "env_uuid late_env 0 = 6"
      "env_wall late_env 0 = 0"
    by (simp_all add: late_env_def)
  have get: "get_idem sample_leased sc k = None" "get_session sample_leased 4 = Some (sample_multipart M_IN_PROGRESS)" for sc k
    by (simp_all add: get_defs sample_leased_def) (simp_all add: sample_defs)
  have u: "us_strategy (sample_multipart M_IN_PROGRESS) = MULTIPART"
      "us_state (sample_multipart M_IN_PROGRESS) = M_IN_PROGRESS"
    by (simp_all add: sample_rows)
  obtain r where r: "to_admission_record taken_lease = Inr r" "adr_owner_id r = 6" "adr_epoch r = 2"
      "adr_expires_at r = Aware (20 + seconds 10)" "adr_renewed_at r = Aware 20"
    by (simp add: to_admission_record_def taken_lease_def mk_admission_record_def mk_admission_epoch_def
        require_aware_def)
  have ins: "insert_idem taken_idem (sample_leased\<lparr>db_admissions := [taken_lease]\<rparr>) = Inr sample_taken"
    using taken_idem_ok by (simp add: insert_idem_def sample_taken_def sample_leased_def sample_defs)
  have "commit (env_clock late_env 2) r sample_taken = Inr (r, sample_taken)"
    by (simp add: commit_def sample_taken_def sample_leased_def sample_defs)
  then show ?thesis
    using r ins unfolding acquire_multipart_lease_def Let_def
    by (simp add: get u env sample_take taken_idem_def)
qed

lemma sample_handover:
  "later U sample_leased sample_taken"
  "holds_admission sample_leased 4 5 1 0" "holds_admission sample_taken 4 6 2 20"
proof -
  show "later U sample_leased sample_taken"
    using sample_acquire by (auto intro: later.next_step [OF later.now do_acquire])
  show "holds_admission sample_leased 4 5 1 0"
    by (simp add: holds_admission_def get_admission_def sample_leased_def sample_admission_def)
  show "holds_admission sample_taken 4 6 2 20"
    by (simp add: holds_admission_def get_admission_def sample_taken_def taken_lease_def seconds_def)
qed

definition completing_session :: session_row where
  "completing_session =
     (sample_multipart M_COMPLETING)
       \<lparr>us_completion_requested_at := Some 1, us_completion_reason := Some CR_PARTS_READY,
        us_completion_phase := Some C_PENDING\<rparr>"

definition sample_claimed :: db where
  "sample_claimed =
     (sample_db V_UPLOADING B_UPLOADING 7 [completing_session])
       \<lparr>db_completions := [sample_completion 5 1 0]\<rparr>"

definition reclaimed_lease :: completion_row where
  "reclaimed_lease =
     \<lparr>cl_session_id = 4, cl_owner_id = 6, cl_epoch = 2, cl_acquired_at = 20, cl_renewed_at = 20,
      cl_expires_at = 20 + seconds 10\<rparr>"

definition sample_reclaimed :: db where
  "sample_reclaimed = sample_claimed\<lparr>db_completions := [reclaimed_lease]\<rparr>"

lemma sample_claimed_committed: "committed sample_claimed"
  unfolding sample_claimed_def
  by (intro committed_with sample_committed)
     (simp_all, simp_all add: sample_rows completing_session_def check_session_def
        check_multipart_plan_def check_provider_id_def check_completion_values_def
        check_verification_evidence_def session_widths_def int4_def int8_def lit_def)

lemma sample_claim:
  "\<exists>r. claim_completion late_env [] 6 10 1 sample_claimed = Inr (r, sample_reclaimed)"
proof -
  have env: "env_clock late_env 0 = 20" "env_clock late_env (Suc 0) = 21"
    by (simp_all add: late_env_def)
  have rows: "db_completions sample_claimed = [sample_completion 5 1 0]"
      "db_sessions sample_claimed = [completing_session]"
      "get_completion sample_claimed 4 = Some (sample_completion 5 1 0)"
      "cl_expires_at (sample_completion 5 1 0) = 10"
    by (simp_all add: sample_claimed_def sample_db_def get_completion_def sample_completion_def)
  have u: "us_id completing_session = 4" "us_completion_phase completing_session = Some C_PENDING"
      "us_strategy completing_session = MULTIPART" "us_state completing_session = M_COMPLETING"
    by (simp_all add: completing_session_def sample_rows)
  have work: "claimable sample_claimed 20 [] completing_session"
      "first_row (claim_order [completing_session]) = Some completing_session"
    by (simp_all add: claimable_def u rows claim_order_def first_row_def)
  have take: "take_completion 20 21 4 6 10 sample_claimed = Inr (reclaimed_lease, sample_reclaimed)"
    by (simp add: take_completion_def sample_claimed_def get_completion_def sample_completion_def
        update_completion_def guard_completion_lease_def check_completion_def int8_def seconds_def
        reclaimed_lease_def sample_reclaimed_def Let_def tab_put_def sample_db_def)
  obtain r where r: "to_completion_record reclaimed_lease = Inr r"
    by (simp add: to_completion_record_def reclaimed_lease_def mk_completion_record_def
        mk_completion_epoch_def require_aware_def)
  have "commit (env_clock late_env 2) c sample_reclaimed = Inr (c, sample_reclaimed)"
    for c :: "completion_claim option"
    by (simp add: commit_def sample_reclaimed_def sample_claimed_def sample_defs)
  then show ?thesis
    unfolding claim_completion_def Let_def by (simp add: env rows work take u r)
qed

lemma sample_reclaim_handover:
  "later U sample_claimed sample_reclaimed"
  "holds_completion sample_claimed 4 5 1 0" "holds_completion sample_reclaimed 4 6 2 20"
proof -
  show "later U sample_claimed sample_reclaimed"
    using sample_claim by (auto intro: later.next_step [OF later.now do_claim])
  show "holds_completion sample_claimed 4 5 1 0"
    by (simp add: holds_completion_def get_completion_def sample_claimed_def sample_completion_def)
  show "holds_completion sample_reclaimed 4 6 2 20"
    by (simp add: holds_completion_def get_completion_def sample_reclaimed_def reclaimed_lease_def
        seconds_def)
qed

end
