(* ===== verification/SchemaRules.thy ===== *)
theory SchemaRules
  imports Samples
begin

text \<open>
  The rules the program states twice, once in Python and once in the schema: the state machines
  of \<^verbatim>\<open>lifecycle.py\<close> and \<^verbatim>\<open>multipart.py\<close> against the edges of the triggers, the part size loop and
  the plan validation of \<^verbatim>\<open>multipart.py\<close> against the functions the migration installs.
\<close>

section \<open>State machines\<close>

definition as_multipart :: "session_state \<Rightarrow> multipart_state" where
  "as_multipart s =
     (case s of S_CREATED \<Rightarrow> M_CREATED | S_IN_PROGRESS \<Rightarrow> M_IN_PROGRESS | S_COMPLETED \<Rightarrow> M_COMPLETED
      | S_FAILED \<Rightarrow> M_FAILED)"

text \<open>
  C23: The triggers of the schema and the transition functions of the domain admit the same
  changes of state: versions, blobs and single-PUT sessions edge by edge; multipart sessions and
  parts when the guarded recovery and the provider reconciliation are allowed.
\<close>

theorem schema_edges_are_domain_edges:
  "(a \<noteq> a' \<longrightarrow> version_edge a a' = (require_version_transition a a' = Inr a'))
   \<and> (b \<noteq> b' \<longrightarrow> blob_edge b b' = (require_blob_transition b b' = Inr b'))
   \<and> (s \<noteq> s' \<longrightarrow> single_put_edge (as_multipart s) (as_multipart s')
                   = (require_session_transition s s' = Inr s'))
   \<and> (m \<noteq> m' \<longrightarrow> multipart_edge m m' = (require_multipart_session_transition m m' True = Inr m'))
   \<and> (p \<noteq> p' \<longrightarrow> part_edge p p' = (require_upload_part_transition p p' True = Inr p'))"
proof (intro conjI impI)
  show "a \<noteq> a' \<Longrightarrow> version_edge a a' = (require_version_transition a a' = Inr a')"
    by (cases a; cases a') (simp_all add: version_edge_def lifecycle_defs)
  show "b \<noteq> b' \<Longrightarrow> blob_edge b b' = (require_blob_transition b b' = Inr b')"
    by (cases b; cases b') (simp_all add: blob_edge_def lifecycle_defs)
  show "s \<noteq> s' \<Longrightarrow> single_put_edge (as_multipart s) (as_multipart s')
      = (require_session_transition s s' = Inr s')"
    by (cases s; cases s') (simp_all add: single_put_edge_def as_multipart_def lifecycle_defs)
  show "m \<noteq> m' \<Longrightarrow> multipart_edge m m' = (require_multipart_session_transition m m' True = Inr m')"
    by (cases m; cases m') (simp_all add: multipart_edge_def lifecycle_defs)
  show "p \<noteq> p' \<Longrightarrow> part_edge p p' = (require_upload_part_transition p p' True = Inr p')"
    by (cases p; cases p') (simp_all add: part_edge_def lifecycle_defs)
qed

theorem schema_edges_are_domain_edges_witness:
  "multipart_edge M_COMPLETING M_IN_PROGRESS
   \<and> require_multipart_session_transition M_COMPLETING M_IN_PROGRESS True = Inr M_IN_PROGRESS
   \<and> \<not> version_edge V_READY V_DRAFT"
  using schema_edges_are_domain_edges [where m = M_COMPLETING and m' = M_IN_PROGRESS
      and a = V_READY and a' = V_DRAFT]
  by (simp add: multipart_edge_def version_edge_def)

section \<open>Part sizes\<close>

lemma sql_loop_step:
  "0 < p \<Longrightarrow> n \<le> 10000 * p \<Longrightarrow> sql_part_size_loop n p = Inr p"
  "0 < p \<Longrightarrow> 10000 * p < n \<Longrightarrow> p * 2 \<le> 5368709120 \<Longrightarrow>
     sql_part_size_loop n p = sql_part_size_loop n (p * 2)"
  using ceil_div_le [of p n 10000]
  by (simp_all add: sql_part_size_loop.simps [of n p] ceil_div_def)

lemma sql_part_size:
  assumes "5000000000 < n" "n \<le> 5000000000000"
  shows "expected_multipart_part_size n = Inr (protocol_part_size n)"
  using assms sql_loop_step [of 67108864 n] sql_loop_step [of "67108864 * 2" n]
    sql_loop_step [of "67108864 * 4" n] sql_loop_step [of "67108864 * 8" n]
  by (simp add: expected_multipart_part_size_def protocol_part_size_def limit_defs)

lemma part_sizes_agree:
  "expected_multipart_part_size n
     = (case select_multipart_part_size n of Inl _ \<Rightarrow> Inl DatabaseError | Inr p \<Rightarrow> Inr p)"
proof (cases "MAX_SINGLE_PUT_BYTES < n \<and> n \<le> MAX_MULTIPART_BLOB_BYTES")
  case True
  then show ?thesis
    using sql_part_size [of n]
    by (simp add: select_multipart_part_size_def select_part_size_closed limit_defs)
next
  case False
  then show ?thesis
    by (auto simp: select_multipart_part_size_def expected_multipart_part_size_def limit_defs)
qed

text \<open>
  The part size function the migration installs in the database gives, for every blob size,
  the part size the domain selects, and refuses exactly the sizes the domain refuses.
\<close>

theorem sql_part_size_is_domain_size:
  "expected_multipart_part_size n
     = (case select_multipart_part_size n of Inl _ \<Rightarrow> Inl DatabaseError | Inr p \<Rightarrow> Inr p)"
  by (rule part_sizes_agree)

section \<open>The frozen plan\<close>

definition row_definition :: "part_row \<Rightarrow> part_definition" where
  "row_definition p =
     \<lparr>pd_number = up_number p, pd_offset = up_offset p, pd_size = up_size p,
      pd_sha = Sha256Digest (up_sha p)\<rparr>"

lemma esc_hex: "hex_val c \<noteq> None \<Longrightarrow> esc_char c = [c]"
  by (auto simp: hex_val_def esc_char_def split: if_splits)

lemma dumps_sha: "sha_text s \<Longrightarrow> dumps_str s = 34 # s @ [34]"
proof -
  assume "sha_text s"
  then have "\<forall>c \<in> set s. esc_char c = [c]" by (auto simp: sha_text_def esc_hex)
  then have "concat (map esc_char s) = s" by (induction s) auto
  then show ?thesis by (simp add: dumps_str_def)
qed

lemma sql_part_text_dumps:
  "sha_text (up_sha p) \<Longrightarrow> sql_part_text p = dumps (part_json (row_definition p))"
  by (simp add: sql_part_text_def part_json_def row_definition_def dumps_sha)
     (simp add: dumps_str_def esc_char_def)

lemma dumps_items_join: "dumps_items vs = join_with 44 (map dumps vs)"
  by (induction vs rule: induct_list012) simp_all

lemma sql_plan_text_dumps:
  assumes "\<forall>p \<in> set ps. sha_text (up_sha p)"
    and "pp_parts plan = map row_definition (sort_key up_number ps)"
  shows "sql_plan_text (pp_schema_version plan) (pp_blob_size plan) (pp_part_size plan)
       (part_count plan) ps = dumps (part_plan_json plan)"
proof -
  have "map sql_part_text (sort_key up_number ps) = map dumps (map part_json (pp_parts plan))"
    using assms sql_part_text_dumps by simp
  then show ?thesis
    by (simp add: sql_plan_text_def part_plan_json_def dumps_items_join)
       (simp add: dumps_str_def esc_char_def)
qed

lemma range_loop_sum:
  "range_loop p c i k rs = Inr n \<Longrightarrow> n = k + sum_list (map (\<lambda>(num, off, sz). sz) rs)"
proof (induction rs arbitrary: i k)
  case (Cons r rs)
  obtain num off sz where r: "r = (num, off, sz)" by (cases r)
  then have "range_loop p c (i + 1) (k + sz) rs = Inr n"
    using Cons.prems by (auto split: if_splits)
  from Cons.IH [OF this] show ?case by (simp add: r)
qed simp

lemma ranges_sum: "0 < p \<Longrightarrow> 0 < n \<Longrightarrow> n \<le> MAX_PARTS * p \<Longrightarrow>
    sum_list (map (\<lambda>(num, off, sz). sz) (ranges n p)) = n"
  using validate_ranges_ok [of p n] range_loop_sum [of p _ 1 0 "ranges n p"]
  by (auto simp: validate_ranges_def res_bind_eq_Inr split: if_splits)

text \<open>Rows with the numbers \<open>1, \<dots>, c\<close>, in order.\<close>

lemma numbers_upto:
  assumes "distinct (map f xs)" "int (length xs) = c" "\<forall>x \<in> set xs. 1 \<le> f x \<and> f x \<le> c"
  shows "map f (sort_key f xs) = [1..c :: int]"
proof -
  have "set (map f xs) \<subseteq> {1..c}" using assms(3) by auto
  moreover have "card (set (map f xs)) = card {1..c}"
    using distinct_card [OF assms(1)] assms(2) by simp
  ultimately have "set (map f xs) = {1..c}" by (simp add: card_subset_eq)
  then have "set (map f (sort_key f xs)) = set [1..c]" by simp
  moreover have "distinct (map f (sort_key f xs))"
    using assms(1) distinct_map_mset [of "sort_key f xs" xs f] by simp
  ultimately show ?thesis
    by (intro sorted_distinct_set_unique) simp_all
qed

lemma row_range: "definition_range (row_definition r) = (up_number r, up_offset r, up_size r)"
  by (simp add: definition_range_def row_definition_def)

lemma set_ordered [simp]: "set (sort_key f xs) = set xs"
  by simp

text \<open>Rows the SQL checks accept have, in order, the ranges the planner computes.\<close>

lemma sql_ranges_determined:
  assumes ok: "sql_ranges_ok n p c ps" and d: "distinct (map up_number ps)"
    and p: "0 < p" and c: "c = ceil_div n p" and n: "0 < n"
  shows "map (\<lambda>r. definition_range (row_definition r)) (sort_key up_number ps) = ranges n p"
proof -
  have len: "int (length ps) = c" using ok by (simp add: sql_ranges_ok_def)
  have each: "1 \<le> up_number r \<and> up_number r \<le> c \<and> up_offset r = (up_number r - 1) * p
      \<and> (up_number r < c \<longrightarrow> up_size r = p) \<and> (up_number r = c \<longrightarrow> up_size r = n - up_offset r)"
    if "r \<in> set ps" for r
    using ok that by (auto simp: sql_ranges_ok_def not_less)
  have upto: "map up_number (sort_key up_number ps) = [1..c]"
    using numbers_upto [OF d len] each by blast
  have "definition_range (row_definition r) = range_at n p (up_number r)" if "r \<in> set ps" for r
  proof (cases "up_number r < c")
    case True
    then have "up_number r * p \<le> (c - 1) * p" using p by (intro mult_right_mono) auto
    then have "p \<le> n - (up_number r - 1) * p"
      using ceil_div_lower [OF p, of n] c by (simp add: algebra_simps)
    then show ?thesis using each [OF that] True by (simp add: row_range range_at_def)
  next
    case False
    then have i: "up_number r = c" using each [OF that] by simp
    have "n - (c - 1) * p \<le> p" using ceil_div_upper [OF p, of n] c by (simp add: algebra_simps)
    then show ?thesis using each [OF that] i by (simp add: row_range range_at_def)
  qed
  then have "map (\<lambda>r. definition_range (row_definition r)) (sort_key up_number ps)
      = map (range_at n p) (map up_number (sort_key up_number ps))" by simp
  then show ?thesis by (simp add: upto ranges_def c)
qed

lemma ranges_sql:
  assumes r: "map (\<lambda>r. definition_range (row_definition r)) (sort_key up_number ps) = ranges n p"
    and p: "0 < p" and n: "0 < n" "n \<le> MAX_PARTS * p" and c: "c = ceil_div n p"
  shows "sql_ranges_ok n p c ps"
proof -
  let ?qs = "sort_key up_number ps"
  have c1: "1 \<le> c" using ceil_div_pos [OF p n(1)] c by simp
  have nums: "map up_number ?qs = [1..c]"
  proof -
    have "map up_number ?qs = map fst (map (\<lambda>r. definition_range (row_definition r)) ?qs)"
      by (simp add: row_range)
    also have "\<dots> = map fst (ranges n p)" using r by simp
    also have "\<dots> = [1..c]" by (simp add: ranges_def range_at_def c comp_def)
    finally show ?thesis .
  qed
  then have set: "up_number ` set ps = {1..c}" by (metis list.set_map set_sort set_upto)
  have len: "int (length ps) = c"
    using arg_cong [OF nums, of length] c1 by simp
  have sum: "sum_list (map up_size ps) = n"
  proof -
    have "sum_list (map up_size ps) = sum_list (map up_size ?qs)"
      by (metis mset_map mset_sort sum_mset_sum_list)
    also have "map up_size ?qs = map (\<lambda>(num, off, sz). sz) (map (\<lambda>r. definition_range (row_definition r)) ?qs)"
      by (simp add: row_range)
    also have "sum_list \<dots> = n" using ranges_sum [OF p n] r by simp
    finally show ?thesis .
  qed
  have "up_offset x = (up_number x - 1) * p \<and> (up_number x < c \<longrightarrow> up_size x = p)
      \<and> (up_number x = c \<longrightarrow> up_size x = n - up_offset x)" if "x \<in> set ps" for x
  proof -
    have "definition_range (row_definition x) \<in> set (ranges n p)"
      using that r by (metis (no_types, lifting) image_eqI list.set_map set_sort)
    then have eq: "up_offset x = (up_number x - 1) * p" "up_size x = min p (n - (up_number x - 1) * p)"
      by (auto simp: row_range ranges_def range_at_def)
    have "up_number x * p \<le> (c - 1) * p" if "up_number x < c"
      using that p by (intro mult_right_mono) auto
    moreover have "(c - 1) * p < n" "n \<le> c * p"
      using ceil_div_lower [OF p] ceil_div_upper [OF p] c by auto
    ultimately show ?thesis using eq by (auto simp: algebra_simps)
  qed
  moreover have "1 \<le> up_number x \<and> up_number x \<le> c" if "x \<in> set ps" for x
    using set that by (metis atLeastAtMost_iff imageI)
  moreover have "Min {1..c} = 1" "Max {1..c} = c"
    using c1 by (auto intro: Min_eqI Max_eqI)
  moreover have "ps \<noteq> []" using len c1 by auto
  ultimately show ?thesis
    unfolding sql_ranges_ok_def set using len sum by (metis not_le)
qed

text \<open>The two halves of the plan validation: the ranges and the digest.\<close>

lemma row_ranges_iff:
  assumes n: "0 < n" "n \<le> MAX_PARTS * p" and p: "0 < p" and nums: "distinct (map up_number ps)"
    and sizes: "\<forall>x \<in> set ps. 0 < up_size x"
  shows "(validate_ranges n p (map definition_range (map row_definition (sort_key up_number ps))) = Inr ()
      \<and> c = int (length ps)) \<longleftrightarrow> c = ceil_div n p \<and> sql_ranges_ok n p c ps"
    (is "?l = Inr () \<and> _ \<longleftrightarrow> _")
proof
  assume l: "?l = Inr () \<and> c = int (length ps)"
  then have r: "map definition_range (map row_definition (sort_key up_number ps)) = ranges n p"
    using p sizes by (intro validate_ranges_unique) (auto simp: row_range)
  have "int (length ps) = ceil_div n p"
    using arg_cong [OF r, of length] length_ranges [of n p] ceil_div_pos [of p n] p n by simp
  then have c: "c = ceil_div n p" using l by simp
  then show "c = ceil_div n p \<and> sql_ranges_ok n p c ps"
    using r n p by (intro conjI ranges_sql) (auto simp: comp_def)
next
  assume r: "c = ceil_div n p \<and> sql_ranges_ok n p c ps"
  then have "map definition_range (map row_definition (sort_key up_number ps)) = ranges n p"
    unfolding map_map comp_def using p nums n
    by (intro sql_ranges_determined) auto
  then show "?l = Inr () \<and> c = int (length ps)"
    using r validate_ranges_ok [of p n] p n by (auto simp: sql_ranges_ok_def)
qed

lemma row_digest_iff:
  assumes "\<forall>x \<in> set ps. sha_text (up_sha x)"
    and "plan = \<lparr>pp_schema_version = 1, pp_blob_size = n, pp_part_size = p,
                  pp_parts = map row_definition (sort_key up_number ps)\<rparr>"
  shows "(case utf8_encode (sql_plan_text 1 n p (part_count plan) ps) of
            None \<Rightarrow> False | Some canonical \<Rightarrow> sha256_hex canonical = sha)
      \<longleftrightarrow> part_plan_sha256 plan = Inr (Sha256Digest sha)"
proof -
  have canon: "sql_plan_text 1 n p (part_count plan) ps = dumps (part_plan_json plan)"
    using sql_plan_text_dumps [OF assms(1), of plan] by (simp add: assms(2))
  show ?thesis
    unfolding canon part_plan_sha256_def canonical_part_plan_bytes_def
    using content_digest_wf
    by (auto simp: mk_digest_Inr content_digest_def split: option.splits)
qed

text \<open>
  C24: The plan validation installed in the database accepts a stored session exactly when the
  rows of its parts, in order, are a part plan the domain accepts whose canonical bytes have the
  stored digest: the text assembled in SQL is the canonical text of the plan.
\<close>

theorem sql_plan_is_domain_plan:
  assumes "wf_db d" "get_session d s = Some u" "us_strategy u = MULTIPART"
    and "get_blob d (us_blob_id u) = Some b" "us_part_size u = Some p" "us_part_count u = Some c"
    and "us_plan_schema u = Some schema" "us_plan_sha u = Some sha"
  shows "validate_multipart_plan d s \<longleftrightarrow>
    (\<exists>plan. mk_part_plan schema (bl_size b) p (map row_definition (sort_key up_number (parts_of d s)))
              = Inr plan
            \<and> c = part_count plan \<and> part_plan_sha256 plan = Inr (Sha256Digest sha))"
proof -
  let ?ps = "parts_of d s" and ?n = "bl_size b"
  let ?defs = "map row_definition (sort_key up_number ?ps)"
  have schema: "schema = 1"
    using assms get_id(4) [OF assms(2)]
    by (auto simp: wf_db_def checks_ok_def check_session_def check_multipart_plan_def)
  have shas: "\<forall>x \<in> set ?ps. sha_text (up_sha x)" and sizes: "\<forall>x \<in> set ?ps. 0 < up_size x"
    using assms(1) by (auto simp: wf_db_def checks_ok_def check_part_def parts_of_def)
  have "distinct (map part_key ?ps)"
    using assms(1) by (auto simp: wf_db_def keys_ok_def parts_of_def intro: distinct_map_filter)
  moreover have "map part_key ?ps = map (Pair s) (map up_number ?ps)"
    by (auto simp: part_key_def parts_of_def)
  ultimately have nums: "distinct (map up_number ?ps)" by (metis distinct_map)
  let ?plan = "\<lparr>pp_schema_version = 1, pp_blob_size = ?n, pp_part_size = p, pp_parts = ?defs\<rparr>"
  have len: "part_count ?plan = int (length ?ps)" by (simp add: part_count_def)
  show ?thesis
  proof (cases "MAX_SINGLE_PUT_BYTES < ?n \<and> ?n \<le> MAX_MULTIPART_BLOB_BYTES")
    case False
    then have "expected_multipart_part_size ?n = Inl DatabaseError"
      using part_sizes_agree by (auto simp: select_multipart_part_size_def)
    then show ?thesis using False assms by (simp add: validate_multipart_plan_def mk_part_plan_def)
  next
    case True
    then have n: "0 < ?n" "?n \<le> MAX_PARTS * protocol_part_size ?n"
      using protocol_part_size_bounds(3) by (auto simp: limit_defs)
    have valid: "validate_multipart_plan d s \<longleftrightarrow>
        p = protocol_part_size ?n \<and> c = ceil_div ?n p \<and> sql_ranges_ok ?n p c ?ps
        \<and> (case utf8_encode (sql_plan_text 1 ?n p c ?ps) of
              None \<Rightarrow> False | Some canonical \<Rightarrow> sha256_hex canonical = sha)"
      using assms True sql_part_size [of ?n] schema
      by (auto simp: validate_multipart_plan_def limit_defs ceil_div_def)
    have mk: "mk_part_plan schema ?n p ?defs = Inr plan \<longleftrightarrow>
        plan = ?plan \<and> p = protocol_part_size ?n
        \<and> validate_ranges ?n p (map definition_range ?defs) = Inr ()" for plan
      using True schema
      by (auto simp: mk_part_plan_def select_multipart_part_size_def select_part_size_closed
          PART_PLAN_SCHEMA_VERSION_def res_bind_eq_Inr)
    have "(validate_ranges ?n p (map definition_range ?defs) = Inr () \<and> c = part_count ?plan)
        \<longleftrightarrow> c = ceil_div ?n p \<and> sql_ranges_ok ?n p c ?ps" if "p = protocol_part_size ?n"
      using row_ranges_iff [OF n, OF protocol_part_size_pos nums sizes, of c] that len by simp
    then show ?thesis
      using valid mk row_digest_iff [OF shas refl, where n = ?n and p = p and sha = sha] by (metis (no_types, lifting))
  qed
qed

theorem sql_plan_is_domain_plan_witness:
  "validate_multipart_plan (sample_db V_DRAFT B_PENDING 5000000001 [sample_multipart M_CREATED]) 4
   \<longleftrightarrow> (\<exists>plan. mk_part_plan 1 5000000001 67108864
                (map row_definition
                   (sort_key up_number
                      (parts_of (sample_db V_DRAFT B_PENDING 5000000001 [sample_multipart M_CREATED]) 4)))
              = Inr plan
            \<and> 1 = part_count plan \<and> part_plan_sha256 plan = Inr (Sha256Digest sample_sha))"
proof -
  let ?d = "sample_db V_DRAFT B_PENDING 5000000001 [sample_multipart M_CREATED]"
  have wf: "wf_db ?d" by (rule sample_db_wf) (simp_all, simp_all add: sample_rows)
  show ?thesis
    using sql_plan_is_domain_plan [OF wf, of 4 "sample_multipart M_CREATED"
        "sample_blob B_PENDING 5000000001" 67108864 1 1 sample_sha]
    by (simp add: get_defs sample_db_def) (simp add: sample_rows)
qed

end
