(* ===== verification/RegistryRules.thy ===== *)
theory RegistryRules
  imports Samples
begin

text \<open>
  What the registry promises in every history of its operations: the state it reaches, what is
  permanent in it, and which calls a superseded client can still make.
\<close>

section \<open>Every reachable state\<close>

definition sample_env :: env where
  "sample_env = \<lparr>env_uuid = (\<lambda>i. word_of_nat (i + 1)), env_wall = int, env_clock = int\<rparr>"

text \<open>
  C13: Whatever the operations of the store, their arguments and their order, the committed
  database satisfies the schema, every version is sealed and its stored counts and totals are
  those of its entries and their blobs, every blob with a multipart upload
  agrees with its sessions (AVAILABLE exactly with an attested completion, no unfinished session
  left), and a READY version has only AVAILABLE blobs.
\<close>

theorem reachable_states_sound:
  assumes "reachable U d"
  shows "wf_db d \<and> db_deferred d = []
    \<and> (\<forall>v \<in> set (db_versions d). dv_sealed_at v \<noteq> None \<and> ordinals_ok d v \<and> summaries_ok d v)
    \<and> (\<forall>b \<in> set (db_blobs d). publication_states_ok d b)
    \<and> (\<forall>v \<in> set (db_versions d). dv_state v = V_READY \<longrightarrow> blobs_available d (dv_id v))"
  using reachable_committed [OF assms]
  by (auto simp: committed_def settled_def sealed_or_queued_def published_or_queued_def ready_ok_def
      totals_ok_def)


definition sample_name :: dataset_name where
  "sample_name = DatasetName (lit ''d'')"

lemma sample_name_wf: "mk_dataset_name ascii_unicode (lit ''d'') = Inr sample_name"
  by (simp add: sample_name_def mk_dataset_name_def ascii_unicode_def utf8_encode_def utf8_char_def
      lit_def MAX_DATASET_NAME_BYTES_def starts_with_def ends_with_def bad_segment_def bad_char_def Let_def
      dot_segments_def is_Cc_def is_Cs_def)

definition sample_request :: sha256_digest where
  "sample_request = Sha256Digest sample_sha"

definition sample_created :: db where
  "sample_created =
     empty_db\<lparr>db_datasets := [sample_dataset],
              db_idem := [dataset_idem (lit ''k'') sample_request sample_dataset 1]\<rparr>"

text \<open>The dataset of the sample created through the store.\<close>

lemma sample_create:
  "create_dataset ascii_unicode sample_env sample_name (lit ''k'') sample_request empty_db
     = Inr (\<lparr>dsr_id = 1, dsr_name = sample_name\<rparr>, sample_created)"
proof -
  have idem: "check_idem (dataset_idem (lit ''k'') sample_request sample_dataset 1)"
    by (simp add: check_idem_def dataset_idem_def varchar_def lit_def sample_request_def int4_def)
  have row: "\<lparr>ds_id = 1, ds_name = lit ''d'', ds_created_at = 0\<rparr> = sample_dataset"
    by (simp add: sample_dataset_def)
  have found: "find_or_add_dataset sample_env sample_name empty_db
      = Inr (sample_dataset, empty_db\<lparr>db_datasets := [sample_dataset]\<rparr>)"
    using row by (simp add: find_or_add_dataset_def sample_env_def sample_name_def empty_db_def
        insert_dataset_def)
  have rec: "to_dataset_record ascii_unicode sample_dataset = Inr \<lparr>dsr_id = 1, dsr_name = sample_name\<rparr>"
    using sample_name_wf by (simp add: to_dataset_record_def sample_dataset_def)
  have none: "get_idem empty_db DATASET_CREATE (lit ''k'') = None"
    by (simp add: get_idem_def empty_db_def)
  have env: "env_wall sample_env 1 = 1" "env_clock sample_env 0 = 0" by (simp_all add: sample_env_def)
  have ins: "insert_idem (dataset_idem (lit ''k'') sample_request sample_dataset 1)
      (empty_db\<lparr>db_datasets := [sample_dataset]\<rparr>) = Inr sample_created"
    using idem
    by (simp add: insert_idem_def guard_m2_idempotency_def sample_created_def empty_db_def)
       (simp add: dataset_idem_def m2_scopes_def)
  have "commit 0 r sample_created = Inr (r, sample_created)" for r :: dataset_record
    by (simp add: commit_def sample_created_def empty_db_def)
  then show ?thesis by (simp only: create_dataset_def none found rec env ins res_bind_simps
        option.simps prod.case)
qed

lemma sample_reachable: "reachable ascii_unicode sample_created"
  using sample_create initially by (rule after [rotated, OF do_create_dataset])

theorem reachable_states_sound_witness:
  "reachable ascii_unicode sample_created \<and> db_datasets sample_created = [sample_dataset]
   \<and> wf_db sample_created"
  using reachable_states_sound [OF sample_reachable] sample_reachable
  by (simp add: sample_created_def)

section \<open>What is permanent\<close>

lemma later_get:
  assumes "later U d d'" "committed d"
  shows "get_version d i = Some v \<Longrightarrow> \<exists>w. get_version d' i = Some w \<and> version_evolves v w"
    and "get_blob d i = Some b \<Longrightarrow> \<exists>c. get_blob d' i = Some c \<and> blob_evolves b c"
    and "get_session d i = Some s \<Longrightarrow> \<exists>t. get_session d' i = Some t \<and> session_evolves s t"
    and "get_part d i n = Some p \<Longrightarrow> \<exists>q. get_part d' i n = Some q \<and> part_evolves p q"
    and "get_dataset d i = Some x \<Longrightarrow> get_dataset d' i = Some x"
    and "get_idem d scope key = Some r \<Longrightarrow> get_idem d' scope key = Some r"
proof -
  have e: "db_evolves d d'" using later_evolves [OF assms] by blast
  show "get_version d i = Some v \<Longrightarrow> \<exists>w. get_version d' i = Some w \<and> version_evolves v w"
    using e growsD [of dv_id version_evolves "db_versions d" "db_versions d'" i v]
    by (simp add: db_evolves_def get_version_def)
  show "get_blob d i = Some b \<Longrightarrow> \<exists>c. get_blob d' i = Some c \<and> blob_evolves b c"
    using e growsD [of bl_id blob_evolves "db_blobs d" "db_blobs d'" i b]
    by (simp add: db_evolves_def get_blob_def)
  show "get_session d i = Some s \<Longrightarrow> \<exists>t. get_session d' i = Some t \<and> session_evolves s t"
    using e growsD [of us_id session_evolves "db_sessions d" "db_sessions d'" i s]
    by (simp add: db_evolves_def get_session_def)
  show "get_part d i n = Some p \<Longrightarrow> \<exists>q. get_part d' i n = Some q \<and> part_evolves p q"
    using e growsD [of part_key part_evolves "db_parts d" "db_parts d'" "(i, n)" p]
    by (simp add: db_evolves_def get_part_def)
  show "get_dataset d i = Some x \<Longrightarrow> get_dataset d' i = Some x"
    using e growsD [of ds_id "(=)" "db_datasets d" "db_datasets d'" i x]
    by (simp add: db_evolves_def get_dataset_def)
  show "get_idem d scope key = Some r \<Longrightarrow> get_idem d' scope key = Some r"
    using e growsD [of idem_key "(=)" "db_idem d" "db_idem d'" "(scope, key)" r]
    by (simp add: db_evolves_def get_idem_def)
qed

lemma sample_ready: "committed (sample_db V_READY B_AVAILABLE 7 [])"
  by (rule sample_committed) simp_all

text \<open>
  C14: A READY version is immutable: in every later state its row, its entries and its manifest
  are the same, and the blobs of its entries are still there, with the same digest and size, and
  AVAILABLE.
\<close>

theorem ready_version_is_permanent:
  assumes "committed d" "later U d d'" "get_version d i = Some v" "dv_state v = V_READY"
  shows "get_version d' i = Some v \<and> entries_of d' i = entries_of d i
    \<and> get_manifest U i d' = get_manifest U i d
    \<and> (\<forall>x \<in> set (entries_of d i). \<exists>b. get_blob d (de_blob_id x) = Some b
         \<and> bl_state b = B_AVAILABLE \<and> get_blob d' (de_blob_id x) = Some b)"
proof -
  have same: "get_version d' i = Some v"
    using later_get(1) [OF assms(2,1,3)] assms(4) by (auto simp: version_evolves_def)
  have v: "v \<in> set (db_versions d)" "dv_id v = i" using get_id(2) [OF assms(3)] by simp_all
  then have "dv_sealed_at v \<noteq> None" and avail: "blobs_available d i"
    using assms(1,4) by (auto simp: committed_def ready_ok_def)
  then have "entries_of d' i = entries_of d i"
    using later_evolves [OF assms(2,1)] assms(3) by (simp add: db_evolves_def entries_evolve_def)
  moreover have "\<exists>b. get_blob d (de_blob_id x) = Some b \<and> bl_state b = B_AVAILABLE
      \<and> get_blob d' (de_blob_id x) = Some b" if x: "x \<in> set (entries_of d i)" for x
  proof -
    obtain b where b: "get_blob d (de_blob_id x) = Some b" "bl_state b = B_AVAILABLE"
      using avail x by (auto simp: blobs_available_def)
    then have "get_blob d' (de_blob_id x) = Some b"
      using later_get(2) [OF assms(2,1) b(1)] by (auto simp: blob_evolves_def)
    then show ?thesis using b by blast
  qed
  ultimately show ?thesis using same assms(3) by (simp add: get_manifest_def)
qed

theorem ready_version_is_permanent_witness:
  "\<exists>b. get_blob (sample_db V_READY B_AVAILABLE 7 []) (de_blob_id sample_entry) = Some b
      \<and> bl_state b = B_AVAILABLE"
  using ready_version_is_permanent [OF sample_ready later.now, of 2 "sample_version V_READY 7"]
  by (auto simp: get_defs sample_defs entries_of_def)

text \<open>
  C16: What is recorded of an upload does not change: in every later state a session keeps its
  blob, version, strategy, generation and frozen plan, a provider upload identifier once set,
  and, once it has ended, its whole row; a part keeps its range and digest.
\<close>

theorem upload_history_is_frozen:
  assumes "committed d" "later U d d'" "get_session d i = Some s" "get_part d i n = Some p"
  shows "\<exists>t q. get_session d' i = Some t \<and> session_identity t = session_identity s
    \<and> plan_columns t = plan_columns s
    \<and> (us_provider_id s \<noteq> None \<longrightarrow> us_provider_id t = us_provider_id s)
    \<and> (ended s \<longrightarrow> t = s)
    \<and> get_part d' i n = Some q \<and> part_identity q = part_identity p"
  using later_get(3) [OF assms(2,1,3)] later_get(4) [OF assms(2,1,4)]
  by (auto simp: session_evolves_def part_evolves_def)

definition sample_aborting :: db where
  "sample_aborting =
     (sample_db V_UPLOADING B_UPLOADING 7
        [(sample_multipart M_FAILED)\<lparr>us_failure_code := Some MF_PROVIDER_ATTEMPT_INVALIDATED\<rparr>])
       \<lparr>db_parts := [sample_part]\<rparr>"

lemma sample_aborting_committed: "committed sample_aborting"
proof -
  have "check_session ((sample_multipart M_FAILED)\<lparr>us_failure_code := Some MF_PROVIDER_ATTEMPT_INVALIDATED\<rparr>)"
    by (simp add: sample_rows check_session_def check_multipart_plan_def check_provider_id_def
        check_completion_values_def check_verification_evidence_def session_widths_def int4_def
        int8_def)
  then have "committed (sample_db V_UPLOADING B_UPLOADING 7
      [(sample_multipart M_FAILED)\<lparr>us_failure_code := Some MF_PROVIDER_ATTEMPT_INVALIDATED\<rparr>])"
    by (intro sample_committed) (simp_all, simp_all add: sample_rows)
  then show ?thesis
    unfolding sample_aborting_def
    by (intro committed_with) (simp_all, simp_all add: sample_defs sample_part_def)
qed

theorem upload_history_is_frozen_witness:
  "\<exists>t. get_session sample_aborting 4 = Some t \<and> us_state t = M_FAILED
     \<and> us_failure_code t = Some MF_PROVIDER_ATTEMPT_INVALIDATED"
  using upload_history_is_frozen [OF sample_aborting_committed later.now, of 4
      "(sample_multipart M_FAILED)\<lparr>us_failure_code := Some MF_PROVIDER_ATTEMPT_INVALIDATED\<rparr>" 1
      sample_part]
  by (simp add: sample_aborting_def get_defs part_key_def sample_part_def sample_db_def)
     (simp add: sample_rows ended_def)

section \<open>Fences\<close>

lemma commit_committed: "committed d \<Longrightarrow> commit now x d = Inr (x, d)"
  by (simp add: committed_def commit_def)

text \<open>
  C17: A client that lost the admission lease is locked out: when the lease of a session passed
  to another owner, then in every later state each of the seven calls fenced by that lease
  (release, initiation, recording the provider upload or its ambiguity, recording a part,
  reconciling the parts, and the acceptance of completion) is refused with
  \<^verbatim>\<open>AdmissionLeaseLostError\<close> for the old owner and epoch, at any clock, and changes nothing. Only a
  check of the arguments can come first; of the acceptance, that the session is a multipart one,
  and an acceptance already recorded under the request identifier, which is replayed and changes
  nothing.
\<close>

theorem replaced_client_is_locked_out:
  assumes "committed d" "later U d d'" "later U d' d''"
    and "holds_admission d s w n t" "holds_admission d' s w' n' t'" "w' \<noteq> w"
  shows "release_multipart_lease e s w n d'' = Inl AdmissionLeaseLostError
    \<and> begin_provider_initiation e s w n d'' = Inl AdmissionLeaseLostError
    \<and> mark_multipart_initiation_ambiguous e s w n d'' = Inl AdmissionLeaseLostError
    \<and> record_uploaded_part e s w n receipt d'' = Inl AdmissionLeaseLostError
    \<and> record_provider_upload e s w n p d''
        = (if p = [] then Inl ContentConflictError else Inl AdmissionLeaseLostError)
    \<and> reconcile_parts e s w n seen a d''
        = (if duplicate_numbers seen then Inl ContentConflictError else Inl AdmissionLeaseLostError)
    \<and> accept_completion e s w n req d''
        = (case get_idem d'' MULTIPART_COMPLETION_ACCEPT (uuid_str req) of
             Some replay \<Rightarrow>
               res_bind (replay_accepted_completion replay
                   (multipart_request_sha ''multipart-completion-accept'' [uuid_str s]) req)
                 (\<lambda>r. Inr (r, d''))
           | None \<Rightarrow>
               Inl (if \<exists>u. get_session d'' s = Some u \<and> us_strategy u = MULTIPART
                    then AdmissionLeaseLostError else NotFoundError))"
proof -
  have e1: "committed d'" "db_evolves d d'" using later_evolves [OF assms(2,1)] by simp_all
  have e2: "committed d''" "db_evolves d' d''" using later_evolves [OF assms(3) e1(1)] by simp_all
  have no: "\<not> holds_admission d'' s w n now" for now
    using adm.replaced_holder(2) [OF e1(2) e2(2) assms(4-6)] .
  then have none: "fenced_session d'' s st w n now = None" for st now
    by (simp add: fenced_session_def split: option.split)
  have "accept_completion e s w n req d''
        = (case get_idem d'' MULTIPART_COMPLETION_ACCEPT (uuid_str req) of
             Some replay \<Rightarrow>
               res_bind (replay_accepted_completion replay
                   (multipart_request_sha ''multipart-completion-accept'' [uuid_str s]) req)
                 (\<lambda>r. Inr (r, d''))
           | None \<Rightarrow>
               Inl (if \<exists>u. get_session d'' s = Some u \<and> us_strategy u = MULTIPART
                    then AdmissionLeaseLostError else NotFoundError))"
    using no by (auto simp: accept_completion_def commit_committed [OF e2(1)] Let_def split: option.split)
  then show ?thesis
    by (simp add: release_multipart_lease_def begin_provider_initiation_def
        mark_multipart_initiation_ambiguous_def record_uploaded_part_def record_provider_upload_def
        reconcile_parts_def no none split: option.split)
qed

theorem replaced_client_is_locked_out_witness:
  "later ascii_unicode sample_leased sample_taken \<and> holds_admission sample_leased 4 5 1 0
   \<and> holds_admission sample_taken 4 6 2 20
   \<and> (\<forall>receipt. record_uploaded_part late_env 4 5 1 receipt sample_taken = Inl AdmissionLeaseLostError)
   \<and> accept_completion late_env 4 5 1 9 sample_taken = Inl AdmissionLeaseLostError"
proof -
  have r: "get_idem sample_taken MULTIPART_COMPLETION_ACCEPT (uuid_str 9) = None"
      "\<exists>u. get_session sample_taken 4 = Some u \<and> us_strategy u = MULTIPART"
    by (simp_all add: sample_taken_def sample_leased_def sample_defs get_defs) (simp_all add: sample_rows taken_idem_def multipart_idem_def idem_key_def)
  show ?thesis
    using replaced_client_is_locked_out [OF sample_leased_committed sample_handover(1) later.now
      sample_handover(2,3), of late_env _ _ _ _ 9] sample_handover r by simp
qed

text \<open>
  C18: A verifying worker that lost the completion lease can neither renew it, recover, publish
  nor move the phase: the calls with its old claim are refused in every later state.
\<close>

theorem replaced_worker_is_locked_out:
  assumes "committed d" "later U d d'" "later U d' d''"
    and "holds_completion d s w n t" "holds_completion d' s w' n' t'" "w' \<noteq> w"
    and "ccl_session_id claim = s" "cor_owner_id (ccl_lease claim) = w"
    and "cor_epoch (ccl_lease claim) = n"
  shows "record_verified_completion e claim vev d'' = Inl AdmissionLeaseLostError
    \<and> recover_partial_completion e claim ev d''
        = (if duplicate_numbers (pce_parts ev) then Inl ContentConflictError
           else Inl AdmissionLeaseLostError)
    \<and> renew_completion_lease e s w n ttl d''
        = (if ttl \<le> 0 then Inl ContentConflictError else Inl AdmissionLeaseLostError)
    \<and> (\<exists>err. set_completion_phase e claim phase f1 f2 f3 d'' = Inl err)"
proof -
  have e1: "committed d'" "db_evolves d d'" using later_evolves [OF assms(2,1)] by simp_all
  have e2: "db_evolves d' d''" using later_evolves [OF assms(3) e1(1)] by simp
  have no: "\<not> holds_completion d'' s w n now" for now
    using cmp.replaced_holder(2) [OF e1(2) e2 assms(4-6)] .
  then have none: "claimed_rows d'' claim now = None" for now
    using assms(7-9) by (auto simp: claimed_rows_def holds_completion_def not_le split: option.splits)
  show ?thesis
    using assms(7-9)
    by (simp add: record_verified_completion_def recover_partial_completion_def
        renew_completion_lease_def set_completion_phase_def no none res_bind_def
        split: option.split sum.split)
qed

definition stale_claim :: completion_claim where
  "stale_claim =
     \<lparr>ccl_session_id = 4,
      ccl_lease = \<lparr>cor_session_id = 4, cor_owner_id = 5, cor_epoch = 1,
                   cor_expires_at = Aware 10, cor_heartbeat_at = Aware 0\<rparr>,
      ccl_phase = C_PENDING\<rparr>"

theorem replaced_worker_is_locked_out_witness:
  "later ascii_unicode sample_claimed sample_reclaimed \<and> holds_completion sample_claimed 4 5 1 0
   \<and> holds_completion sample_reclaimed 4 6 2 20
   \<and> (\<forall>vev. record_verified_completion late_env stale_claim vev sample_reclaimed
              = Inl AdmissionLeaseLostError)"
  using replaced_worker_is_locked_out [OF sample_claimed_committed sample_reclaim_handover(1)
      later.now sample_reclaim_handover(2,3), of stale_claim late_env] sample_reclaim_handover
  by (simp add: stale_claim_def)

section \<open>Admission control\<close>

text \<open>The leases that are live at an instant.\<close>

definition live_admissions :: "db \<Rightarrow> int \<Rightarrow> admission_row list" where
  "live_admissions d now = filter (\<lambda>l. now < al_expires_at l) (db_admissions d)"

lemma live_put:
  assumes "distinct (map key rows)" "tab_get key (key r) rows = Some old"
  shows "length (filter P (tab_put key r rows)) \<le> length (filter P rows) + (if P old then 0 else 1)"
  using assms
proof (induction rows)
  case (Cons x rows)
  show ?case
  proof (cases "key x = key r")
    case True
    then have "old = x" "tab_put key r rows = rows"
      using Cons.prems tab_put_absent [of key r rows] by (auto simp: tab_get_def)
    then show ?thesis using True by (simp add: tab_put_def)
  next
    case False
    then show ?thesis using Cons by (auto simp: tab_put_def tab_get_def)
  qed
qed (simp add: tab_get_def)

lemma take_admission_live:
  assumes "take_admission now now2 w s i ttl cap d = Inr (l, d')" "keys_ok d"
    and "int (length (live_admissions d now)) \<le> cap"
  shows "int (length (live_admissions d' now)) \<le> cap"
proof -
  have d: "distinct (map al_session_id (db_admissions d))" using assms(2) by (simp add: keys_ok_def)
  have upd: "int (length (live_admissions d1 now))
      \<le> int (length (live_admissions d now)) + (if now < al_expires_at old then 0 else 1)"
    if "update_admission now2 r d = Inr d1" "get_admission d s = Some old" "al_session_id r = s"
    for r d1 old
    using that live_put [OF d, of r old "\<lambda>x. now < al_expires_at x"]
    by (auto simp: update_admission_def live_admissions_def get_admission_def split: if_splits)
  show ?thesis
  proof (cases "get_admission d s")
    case None
    then show ?thesis
      using assms(1)
      by (auto simp: take_admission_def live_admissions_def Let_def res_bind_eq_Inr
          insert_admission_def split: if_splits)
  next
    case (Some old)
    have s: "al_session_id old = s" using get_id(5) [OF Some] by simp
    show ?thesis
    proof (cases "now < al_expires_at old")
      case True
      then show ?thesis
        using assms(1,3) Some s upd [OF _ Some, of "old\<lparr>al_renewed_at := now, al_expires_at := now + seconds ttl\<rparr>"]
        by (auto simp: take_admission_def Let_def res_bind_eq_Inr split: if_splits)
    next
      case False
      then show ?thesis
        using assms(1) Some s upd [OF _ Some, of "old\<lparr>al_invocation_id := i, al_owner_id := w,
            al_epoch := al_epoch old + 1, al_acquired_at := now, al_renewed_at := now,
            al_expires_at := now + seconds ttl\<rparr>"]
        by (auto simp: take_admission_def Let_def res_bind_eq_Inr live_admissions_def split: if_splits)
    qed
  qed
qed

text \<open>
  C19: Admission control holds: a granted admission lease, new, renewed or taken over, never
  raises the number of live leases above the capacity, and it is live until the time to live
  after the reading of the clock.
\<close>

theorem admission_capacity_respected:
  assumes "acquire_multipart_lease e req i s ttl cap d = Inr (r, d')" "committed d"
    and "get_idem d MULTIPART_ADMISSION_ACQUIRE (uuid_str req) = None"
    and "int (length (live_admissions d (env_clock e 0))) \<le> cap"
  shows "int (length (live_admissions d' (env_clock e 0))) \<le> cap
    \<and> (\<exists>l. get_admission d' s = Some l \<and> al_invocation_id l = i
         \<and> al_expires_at l = env_clock e 0 + seconds ttl)"
proof -
  obtain l d1 where t: "take_admission (env_clock e 0) (env_clock e 1) (env_uuid e 0) s i ttl cap d = Inr (l, d1)"
      and d': "db_admissions d' = db_admissions d1"
    using assms(1,3)
    by (auto simp: acquire_multipart_lease_def Let_def res_bind_eq_Inr commit_Inr insert_idem_def
        split: if_splits option.splits)
  have k: "keys_ok d" using assms(2) by (simp add: committed_def wf_db_def)
  have "get_admission d1 s = Some l \<and> al_invocation_id l = i
      \<and> al_expires_at l = env_clock e 0 + seconds ttl"
    using t get_id(5) [of d s]
    by (auto simp: take_admission_def Let_def res_bind_eq_Inr update_admission_def
        insert_admission_def get_admission_def tab_get_put tab_get_snoc split: if_splits option.splits)
  then show ?thesis
    using take_admission_live [OF t k assms(4)] by (simp add: live_admissions_def get_admission_def d')
qed

theorem admission_capacity_respected_witness:
  "int (length (live_admissions sample_taken 20)) \<le> 1"
proof -
  obtain r where r: "acquire_multipart_lease late_env sample_request_id 7 4 10 1 sample_leased = Inr (r, sample_taken)"
    using sample_acquire by blast
  have e: "env_clock late_env 0 = 20" by (simp add: late_env_def)
  show ?thesis
    using admission_capacity_respected [OF r sample_leased_committed] unfolding e
    by (simp add: get_idem_def live_admissions_def sample_leased_def sample_admission_def sample_db_def
        empty_db_def)
qed

section \<open>Idempotency\<close>

text \<open>
  C20: Creating a dataset is idempotent for good: once a call with a key has succeeded, every
  later call with that key and the same request answers the same record and changes nothing,
  whatever name it carries; a call with the key and another request is a conflict.
\<close>

theorem create_dataset_idempotent:
  assumes "create_dataset U e name key q d = Inr (r, d')" "committed d" "later U d' d''"
  shows "create_dataset U e' name' key q d'' = Inr (r, d'')
    \<and> (q' \<noteq> q \<longrightarrow> create_dataset U e' name' key q' d'' = Inl IdempotencyConflictError)"
proof -
  have c: "committed d'" using step_committed [OF do_create_dataset [OF assms(1)] assms(2)] .
  then have c2: "committed d''" using later_evolves [OF assms(3)] by simp
  obtain x m where x: "get_idem d' DATASET_CREATE key = Some x" "ik_request_sha x = digest_value q"
      "ik_resource_id x = Some (ds_id m)" "get_dataset d' (ds_id m) = Some m"
      "to_dataset_record U m = Inr r"
  proof (cases "get_idem d DATASET_CREATE key")
    case None
    then obtain m d1 where m: "find_or_add_dataset e name d = Inr (m, d1)" "to_dataset_record U m = Inr r"
        "d' = (d1\<lparr>db_idem := db_idem d1 @ [dataset_idem key q m (env_wall e 1)]\<rparr>)\<lparr>db_deferred := []\<rparr>"
      using assms(1)
      by (auto simp: create_dataset_def res_bind_eq_Inr commit_Inr insert_idem_def split: if_splits)
    then have d1: "get_dataset d1 (ds_id m) = Some m" "db_idem d1 = db_idem d"
      using assms(2)
      by (auto simp: find_or_add_dataset_def Let_def res_bind_eq_Inr insert_dataset_def get_dataset_def
          find_Some_iff committed_def wf_db_def keys_ok_def tab_get_distinct tab_get_snoc
          split: option.splits if_splits)
    show ?thesis
      using None m d1
      by (intro that [of "dataset_idem key q m (env_wall e 1)" m])
         (auto simp: get_idem_def get_dataset_def tab_get_append dataset_idem_def idem_key_def)
  next
    case (Some x)
    then obtain m where "ik_request_sha x = digest_value q" "ik_resource_id x = Some (ds_id m)"
        "get_dataset d (ds_id m) = Some m" "to_dataset_record U m = Inr r" "d' = d\<lparr>db_deferred := []\<rparr>"
      using assms(1) get_id(1)
      by (fastforce simp: create_dataset_def res_bind_eq_Inr commit_Inr split: option.splits if_splits)
    then show ?thesis using Some that by (simp add: get_idem_def get_dataset_def)
  qed
  then have "get_idem d'' DATASET_CREATE key = Some x" "get_dataset d'' (ds_id m) = Some m"
    using later_get(5,6) [OF assms(3) c] by simp_all
  moreover have "q' \<noteq> q \<Longrightarrow> digest_value q \<noteq> digest_value q'" by (metis sha256_digest.expand)
  ultimately show ?thesis using x c2 by (auto simp: create_dataset_def commit_committed)
qed

theorem create_dataset_idempotent_witness:
  "create_dataset ascii_unicode late_env sample_name (lit ''k'') sample_request sample_created
     = Inr (\<lparr>dsr_id = 1, dsr_name = sample_name\<rparr>, sample_created)"
  using create_dataset_idempotent [OF sample_create empty_committed later.now] by blast

end
