(* ===== verification/VersionRules.thy ===== *)
theory VersionRules
  imports RegistryRules
begin

text \<open>
  Registering a version and reading it back: the stored manifest, its entries joined with their
  blobs, the number given, what registering it again does, and the entries a download asks for.
\<close>

section \<open>Adding the entries of a manifest\<close>

text \<open>\<open>entry_stored d v (k, m) x\<close>: the row \<open>x\<close> of version \<open>v\<close> holds the \<open>k\<close>-th entry \<open>m\<close>.\<close>

definition entry_stored :: "db \<Rightarrow> uuid \<Rightarrow> nat \<times> manifest_entry \<Rightarrow> entry_row \<Rightarrow> bool" where
  "entry_stored d v km x =
     (de_version_id x = v \<and> de_ordinal x = int (fst km) \<and> de_path x = rp_value (me_path (snd km))
      \<and> (\<exists>b. get_blob d (de_blob_id x) = Some b \<and> bl_sha b = digest_value (me_sha (snd km))
             \<and> bl_size b = me_size (snd km)))"

lemma entry_stored_evolves: "db_evolves d d' \<Longrightarrow> entry_stored d v km x \<Longrightarrow> entry_stored d' v km x"
proof -
  assume e: "db_evolves d d'" and s: "entry_stored d v km x"
  then obtain b where b: "get_blob d (de_blob_id x) = Some b" "bl_sha b = digest_value (me_sha (snd km))"
      "bl_size b = me_size (snd km)"
    by (auto simp: entry_stored_def)
  then obtain c where "get_blob d' (de_blob_id x) = Some c" "blob_evolves b c"
    using e growsD [of bl_id blob_evolves "db_blobs d" "db_blobs d'" "de_blob_id x" b]
    by (auto simp: db_evolves_def get_blob_def)
  then show ?thesis using s b by (auto simp: entry_stored_def blob_evolves_def)
qed

lemma entries_stored_evolve:
  "db_evolves d d' \<Longrightarrow> list_all2 (entry_stored d v) ks xs \<Longrightarrow> list_all2 (entry_stored d' v) ks xs"
  by (erule list_all2_mono) (rule entry_stored_evolves)

lemma get_or_create_blob_Inr:
  assumes "get_or_create_blob i now sha n d = Inr (b, d')" "wf_db d"
  shows "get_blob d' (bl_id b) = Some b" "bl_sha b = digest_value sha" "bl_size b = n"
    "db_entries d' = db_entries d" "wf_db d'" "db_evolves d d'" "db_versions d' = db_versions d"
proof -
  show w: "wf_db d'" "db_evolves d d'"
    using run_wf [OF get_or_create_blob_run [OF assms(1)] assms(2)] by simp_all
  let ?row = "\<lparr>bl_id = i, bl_sha = digest_value sha, bl_size = n, bl_object_key = object_key_for sha,
      bl_state = B_PENDING, bl_failure_code = None, bl_failure_detail = None, bl_created_at = now,
      bl_verified_at = None\<rparr>"
  have "b \<in> set (db_blobs d) \<and> bl_sha b = digest_value sha \<and> d' = d
        \<or> b = ?row \<and> d' = d\<lparr>db_blobs := db_blobs d @ [b]\<rparr>" and "bl_size b = n"
    using assms(1)
    by (auto simp: get_or_create_blob_def Let_def res_bind_eq_Inr insert_blob_def find_Some_iff
        split: if_splits option.splits)
  from this(1) have "b \<in> set (db_blobs d')" "bl_sha b = digest_value sha"
      "db_entries d' = db_entries d" "db_versions d' = db_versions d"
    by auto
  note facts = this \<open>bl_size b = n\<close>
  show "get_blob d' (bl_id b) = Some b" "bl_sha b = digest_value sha" "bl_size b = n"
      "db_entries d' = db_entries d" "db_versions d' = db_versions d"
    using facts w(1) by (simp_all add: get_blob_def wf_db_def keys_ok_def tab_get_distinct)
qed

lemma add_entries_Inr:
  "add_entries e v i ms d = Inr d' \<Longrightarrow> wf_db d \<Longrightarrow>
     wf_db d' \<and> db_evolves d d' \<and> db_versions d' = db_versions d
     \<and> (\<exists>xs. db_entries d' = db_entries d @ xs \<and> list_all2 (entry_stored d' v) (enumerate i ms) xs)"
proof (induction e v i ms d arbitrary: rule: add_entries.induct)
  case (1 e v i d)
  then show ?case by (simp add: db_evolves_refl)
next
  case (2 e v i m ms d)
  obtain b d1 d2 where s:
      "get_or_create_blob (env_uuid e (Suc i)) (env_wall e (Suc i)) (me_sha m) (me_size m) d = Inr (b, d1)"
      "insert_entry \<lparr>de_version_id = v, de_ordinal = int i, de_path = rp_value (me_path m),
                     de_blob_id = bl_id b\<rparr> d1 = Inr d2"
      "add_entries e v (Suc i) ms d2 = Inr d'"
    using 2(2) by (auto simp: res_bind_eq_Inr)
  note b = get_or_create_blob_Inr [OF s(1) 2(3)]
  let ?x = "\<lparr>de_version_id = v, de_ordinal = int i, de_path = rp_value (me_path m), de_blob_id = bl_id b\<rparr>"
  have d2: "d2 = d1\<lparr>db_entries := db_entries d1 @ [?x]\<rparr>" using insert_entry_Inr(1) [OF s(2)] .
  have w2: "wf_db d2" "db_evolves d1 d2"
    using stmt_wf [OF ins_entry [OF s(2)] b(5)] stmt_evolves [OF ins_entry [OF s(2)] b(5)] by simp_all
  from 2(1) [OF s(1) refl s(2) s(3) w2(1)] obtain xs where ih: "wf_db d'" "db_evolves d2 d'"
      "db_versions d' = db_versions d2" "db_entries d' = db_entries d2 @ xs"
      "list_all2 (entry_stored d' v) (enumerate (Suc i) ms) xs"
    by blast
  have "entry_stored d1 v (i, m) ?x" using b by (simp add: entry_stored_def)
  then have "entry_stored d' v (i, m) ?x"
    using entry_stored_evolves db_evolves_trans [OF w2(2) ih(2)] by blast
  then have "list_all2 (entry_stored d' v) (enumerate i (m # ms)) (?x # xs)" using ih(5) by simp
  moreover have "db_entries d' = db_entries d @ ?x # xs" using ih(4) b(4) by (simp add: d2)
  moreover have "db_evolves d d'"
    using db_evolves_trans [OF b(6) db_evolves_trans [OF w2(2) ih(2)]] .
  ultimately show ?case using ih(1,3) b(7) by (auto simp: d2)
qed

lemma entries_of_new:
  assumes "wf_db d" "v \<notin> dv_id ` set (db_versions d)" "db_entries d' = db_entries d @ xs"
    and "list_all2 (entry_stored d' v) ks xs"
  shows "entries_of d' v = xs"
proof -
  have "de_version_id x \<noteq> v" if "x \<in> set (db_entries d)" for x
    using assms(1,2) that by (auto simp: wf_db_def refs_ok_def)
  moreover have "de_version_id x = v" if "x \<in> set xs" for x
    using assms(4) that by (auto simp: entry_stored_def in_set_conv_nth list_all2_conv_all_nth)
  ultimately show ?thesis by (simp add: entries_of_def assms(3))
qed

lemma seal_new_version_Inr:
  assumes "seal_new_version e ds m d = Inr (v, d')" "wf_db d"
  shows "\<exists>t. v = (new_version_row e ds (next_version_number d ds) m)\<lparr>dv_sealed_at := Some t\<rparr>"
    and "get_version d' (dv_id v) = Some v"
    and "list_all2 (entry_stored d' (dv_id v)) (enumerate 0 (mf_entries m)) (entries_of d' (dv_id v))"
proof -
  define draft where "draft = new_version_row e ds (next_version_number d ds) m"
  obtain t d1 d2 where s: "insert_version draft d = Inr d1"
      "add_entries e (dv_id draft) 0 (mf_entries m) d1 = Inr d2"
      "update_version (draft\<lparr>dv_sealed_at := Some t\<rparr>) d2 = Inr d'" "v = draft\<lparr>dv_sealed_at := Some t\<rparr>"
    using assms(1) by (auto simp: seal_new_version_def Let_def res_bind_eq_Inr draft_def)
  then show "\<exists>t. v = (new_version_row e ds (next_version_number d ds) m)\<lparr>dv_sealed_at := Some t\<rparr>"
    by (auto simp: draft_def)
  have w1: "wf_db d1" using stmt_wf [OF ins_version [OF s(1)] assms(2)] .
  have new: "dv_id draft \<notin> dv_id ` set (db_versions d)" "db_entries d1 = db_entries d"
    using s(1) by (auto simp: insert_version_def split: if_splits)
  obtain xs where a: "wf_db d2" "db_entries d2 = db_entries d1 @ xs"
      "list_all2 (entry_stored d2 (dv_id draft)) (enumerate 0 (mf_entries m)) xs"
    using add_entries_Inr [OF s(2) w1] by blast
  have xs: "entries_of d2 (dv_id draft) = xs"
    using entries_of_new [OF assms(2) new(1) _ a(3)] a(2) new(2) by simp
  have e: "db_evolves d2 d'" using stmt_evolves [OF upd_version [OF s(3)] a(1)] .
  obtain old where old: "get_version d2 (dv_id v) = Some old"
      "d' = d2\<lparr>db_versions := tab_put dv_id v (db_versions d2),
               db_deferred := db_deferred d2 @ [RequireSealed (dv_id v)]\<rparr>"
    using s(3,4) by (auto elim!: update_version_Inr)
  have "dv_id v \<in> dv_id ` set (db_versions d2)" using get_id(2) [OF old(1)] by (metis imageI)
  then have "db_entries d' = db_entries d2" "get_version d' (dv_id v) = Some v"
    by (simp_all add: old(2) get_version_def tab_get_put)
  then show "get_version d' (dv_id v) = Some v"
    and "list_all2 (entry_stored d' (dv_id v)) (enumerate 0 (mf_entries m)) (entries_of d' (dv_id v))"
    using entries_stored_evolve [OF e a(3)] xs s(4) by (simp_all add: entries_of_def)
qed

text \<open>What registering a manifest that the dataset does not have does.\<close>

lemma register_new_Inr:
  assumes "register_version U e ds supplied key q d = Inr (r, d')" "committed d"
    and "get_idem d VERSION_REGISTER key = None"
    and "\<forall>v \<in> set (db_versions d). dv_dataset_id v = ds \<longrightarrow> dv_manifest_sha v \<noteq> digest_value (mf_sha256 supplied)"
  obtains m v t where "from_canonical_bytes U (mf_canonical supplied) = Inr m"
    "mf_sha256 m = mf_sha256 supplied"
    "v = (new_version_row e ds (next_version_number d ds) m)\<lparr>dv_sealed_at := Some t\<rparr>"
    "vsr_id r = dv_id v" "vsr_number r = dv_number v" "get_version d' (dv_id v) = Some v"
    "list_all2 (entry_stored d' (dv_id v)) (enumerate 0 (mf_entries m)) (entries_of d' (dv_id v))"
proof -
  obtain m v d1 where m: "from_canonical_bytes U (mf_canonical supplied) = Inr m"
      "mf_sha256 m = mf_sha256 supplied" "find_or_seal_version e ds m d = Inr (v, d1)"
      "vsr_id r = dv_id v" "vsr_number r = dv_number v"
      "d' = d1\<lparr>db_idem := db_idem d', db_deferred := []\<rparr>"
    using assms(1,3)
    by (auto simp: register_version_def register_transaction_def to_version_record_def insert_idem_def
        res_bind_eq_Inr commit_Inr split: if_splits option.splits)
  have "find (\<lambda>v. dv_dataset_id v = ds \<and> dv_manifest_sha v = digest_value (mf_sha256 m)) (db_versions d) = None"
    using assms(4) m(2) by (auto simp: find_None_iff)
  then have s: "seal_new_version e ds m d = Inr (v, d1)" using m(3) by (simp add: find_or_seal_version_def)
  have w: "wf_db d" using assms(2) by (simp add: committed_def)
  note n = seal_new_version_Inr [OF s w]
  have "get_version d' i = get_version d1 i" "entries_of d' i = entries_of d1 i"
      "entry_stored d' i km x = entry_stored d1 i km x" for i km x
    by (subst m(6), simp add: get_version_def entries_of_def entry_stored_def get_blob_def)+
  then show thesis using that [OF m(1,2)] n m(4,5) by (metis (mono_tags, lifting) list_all2_mono)
qed

section \<open>A sample registration\<close>

definition one_entry :: manifest_entry where
  "one_entry = \<lparr>me_path = RelativePath (lit ''a''), me_size = 7, me_sha = Sha256Digest sample_sha\<rparr>"

definition one_manifest :: manifest where
  "one_manifest =
     (let c = map of_nat (dumps (manifest_json [one_entry]))
      in \<lparr>mf_entries = [one_entry], mf_canonical = c, mf_sha256 = content_digest c,
          mf_schema_version = 1\<rparr>)"

lemma one_entry_wf: "wf_entry ascii_unicode one_entry"
  by (simp add: one_entry_def wf_entry_def wf_path_def mk_relative_path_def Let_def
      ascii_unicode_def utf8_encode_def utf8_char_def starts_with_def drive_qualified_def
      bad_segment_def dot_segments_def bad_char_def is_Cc_def is_Cs_def limit_defs
      flip: sha_text_wf)

lemma one_dumps:
  "\<forall>c \<in> set (dumps (manifest_json [one_entry])). c < 0x80"
  "length (dumps (manifest_json [one_entry])) \<le> MAX_MANIFEST_BYTES"
  by (simp_all add: one_entry_def manifest_json_def entry_json_def dumps_str_def esc_char_def
      int_str_def nat_str.simps sample_sha_def limit_defs)

lemma one_built: "build ascii_unicode [one_entry] = Inr one_manifest"
proof -
  have "utf8_encode (rp_value (me_path one_entry)) \<noteq> None \<and> int_fits (me_size one_entry)"
    by (simp add: one_entry_def utf8_encode_def utf8_char_def int_fits_def nat_str.simps max_int_digits_def)
  then show ?thesis
    using one_dumps(2)
    by (auto simp: build_def Let_def one_manifest_def utf8_encode_ascii [OF one_dumps(1)] limit_defs)
qed

lemma one_parses: "from_canonical_bytes ascii_unicode (mf_canonical one_manifest) = Inr one_manifest"
  using build_Inr [OF one_built] one_entry_wf by (intro from_canonical_built) auto

definition one_version :: version_row where
  "one_version = (new_version_row late_env 1 1 one_manifest)\<lparr>dv_sealed_at := Some 2\<rparr>"

definition one_blob :: blob_row where
  "one_blob = (sample_blob B_PENDING 7)\<lparr>bl_id := 7, bl_created_at := 1\<rparr>"

definition one_registered :: db where
  "one_registered =
     sample_created
       \<lparr>db_versions := [one_version],
        db_blobs := [one_blob],
        db_entries := [\<lparr>de_version_id = 6, de_ordinal = 0, de_path = lit ''a'', de_blob_id = 7\<rparr>],
        db_idem := db_idem sample_created @ [version_idem (lit ''v'') sample_request one_version 3]\<rparr>"

lemma one_blob_ok: "check_blob one_blob"
  using sample_row_checks(4) [of 7 B_PENDING] by (simp add: one_blob_def check_blob_def)

lemma late_env_simps [simp]:
  "env_uuid late_env n = word_of_nat (n + 6)" "env_wall late_env n = int n" "env_clock late_env n = 20 + int n"
  by (simp_all add: late_env_def)

lemma one_sha: "sha_text (digest_value (mf_sha256 one_manifest))"
  by (simp add: one_manifest_def Let_def content_digest_def digest_sha_text)

lemma one_row: "check_version (one_version\<lparr>dv_sealed_at := t\<rparr>)"
  using one_sha
  by (simp add: check_version_def one_version_def new_version_row_def int8_def)
     (simp add: one_manifest_def Let_def file_count_def logical_bytes_def unique_blob_count_def
        unique_blob_bytes_def one_entry_def digest_dict_def)

lemma one_totals:
  "mf_entries one_manifest = [one_entry]" "file_count one_manifest = 1" "logical_bytes one_manifest = 7"
  "unique_blob_count one_manifest = 1" "unique_blob_bytes one_manifest = 7"
  by (simp_all add: one_manifest_def Let_def file_count_def logical_bytes_def unique_blob_count_def
        unique_blob_bytes_def one_entry_def digest_dict_def)

lemma one_seal:
  "seal_new_version late_env 1 one_manifest sample_created
     = Inr (one_version,
            (one_registered\<lparr>db_idem := db_idem sample_created,
                            db_deferred := [RequireSealed 6, RequireSealed 6]\<rparr>))"
proof -
  let ?e = "\<lparr>de_version_id = 6, de_ordinal = 0, de_path = [97], de_blob_id = 7\<rparr>"
  let ?draft = "one_version\<lparr>dv_sealed_at := None\<rparr>"
  let ?d1 = "sample_created\<lparr>db_versions := [?draft], db_deferred := [RequireSealed 6]\<rparr>"
  let ?d2 = "?d1\<lparr>db_blobs := [one_blob], db_entries := [?e]\<rparr>"
  have draft: "new_version_row late_env 1 (next_version_number sample_created 1) one_manifest = ?draft"
    by (simp add: next_version_number_def sample_created_def empty_db_def max0_def one_version_def
        new_version_row_def)
  have ids: "dv_id one_version = 6" "dv_dataset_id one_version = 1" "dv_state one_version = V_DRAFT"
     "dv_file_count one_version = 1" "dv_logical_bytes one_version = 7"
     "dv_unique_blob_count one_version = 1" "dv_unique_blob_bytes one_version = 7"
     "dv_sealed_at one_version = Some 2" "one_version\<lparr>dv_sealed_at := Some 2\<rparr> = one_version"
    by (simp_all add: one_version_def new_version_row_def one_totals)
  have d1: "insert_version ?draft sample_created = Inr ?d1"
    using one_row [of None]
    by (simp add: insert_version_def ids sample_created_def empty_db_def sample_dataset_def)
  have b: "get_or_create_blob 7 1 (me_sha one_entry) (me_size one_entry) ?d1
      = Inr (one_blob, ?d1\<lparr>db_blobs := [one_blob]\<rparr>)"
    using one_blob_ok
    by (simp add: get_or_create_blob_def Let_def insert_blob_def one_entry_def sample_created_def
        empty_db_def one_blob_def sample_blob_def object_key_for_def key_of_sha_def)
  have d2: "add_entries late_env 6 0 [one_entry] ?d1 = Inr ?d2"
    using b
    by (simp add: insert_entry_def guard_dataset_entry_def get_version_def ids check_entry_def int8_def
        octets_at_most_def utf8_encode_def utf8_char_def one_blob_def sample_created_def empty_db_def)
       (simp add: one_entry_def lit_def utf8_char_def)
  have j: "joined ?d2 6 = [(?e, one_blob)]"
    by (simp add: joined_def entries_of_def get_blob_def one_blob_def)
  have d3: "update_version one_version ?d2 = Inr (one_registered\<lparr>db_idem := db_idem sample_created,
      db_deferred := [RequireSealed 6, RequireSealed 6]\<rparr>)"
    using one_row [of "Some 2"] j
    by (simp add: update_version_def get_version_def ids guard_dataset_version_def ordinals_ok_def
        summaries_ok_def entries_of_def one_registered_def Let_def version_clash_def tab_put_def)
       (simp add: sample_created_def empty_db_def sample_dataset_def one_blob_def sample_blob_def)
  show ?thesis
    unfolding seal_new_version_def Let_def draft
    using d1 d2 d3 by (simp add: ids one_totals)
qed

definition one_record :: version_record where
  "one_record =
     \<lparr>vsr_id = 6, vsr_dataset_id = 1, vsr_dataset_name = sample_name, vsr_number = 1,
      vsr_manifest_sha = mf_sha256 one_manifest, vsr_state = V_DRAFT, vsr_file_count = 1,
      vsr_logical_bytes = 7, vsr_unique_blob_count = 1, vsr_unique_blob_bytes = 7,
      vsr_failure_code = None, vsr_failure_detail = None\<rparr>"

lemma one_version_record: "to_version_record ascii_unicode one_version (lit ''d'') = Inr one_record"
proof -
  have "mk_digest (digest_value (mf_sha256 one_manifest)) = Inr (mf_sha256 one_manifest)"
    using sha_text_parse [OF one_sha] by simp
  moreover have "mk_dataset_name ascii_unicode [100] = Inr sample_name"
    using sample_name_wf by simp
  ultimately show ?thesis
    by (simp add: to_version_record_def one_version_def new_version_row_def one_totals one_record_def)
qed

lemma one_register:
  "register_version ascii_unicode late_env 1 one_manifest (lit ''v'') sample_request sample_created
     = Inr (one_record, one_registered)"
proof -
  have get: "get_dataset sample_created 1 = Some sample_dataset"
      "get_idem sample_created VERSION_REGISTER (lit ''v'') = None"
    by (simp_all add: sample_created_def empty_db_def get_defs sample_dataset_def idem_key_def
        dataset_idem_def)
  have none: "find_or_seal_version late_env 1 one_manifest sample_created
      = seal_new_version late_env 1 one_manifest sample_created"
    by (simp add: find_or_seal_version_def sample_created_def empty_db_def)
  have idem: "guard_m2_idempotency (version_idem (lit ''v'') sample_request one_version 3)
      \<and> check_idem (version_idem (lit ''v'') sample_request one_version 3)"
    by (simp add: version_idem_def guard_m2_idempotency_def m2_scopes_def check_idem_def varchar_def
        sample_request_def int4_def)
  have ins: "insert_idem (version_idem (lit ''v'') sample_request one_version 3)
      (one_registered\<lparr>db_idem := db_idem sample_created,
                      db_deferred := [RequireSealed 6, RequireSealed 6]\<rparr>)
      = Inr (one_registered\<lparr>db_deferred := [RequireSealed 6, RequireSealed 6]\<rparr>)"
    using idem
    by (simp add: insert_idem_def one_registered_def sample_created_def)
       (simp add: idem_key_def version_idem_def dataset_idem_def)
  have com: "commit 20 one_record (one_registered\<lparr>db_deferred := [RequireSealed 6, RequireSealed 6]\<rparr>)
      = Inr (one_record, one_registered)"
    by (simp add: commit_def deferred_ok_def require_sealed_version_def one_registered_def
        one_version_def sample_created_def empty_db_def)
  have "register_transaction ascii_unicode late_env 1 one_manifest (lit ''v'') sample_request sample_created
      = Inr (one_record, one_registered)"
    unfolding register_transaction_def get option.simps none one_seal
    using one_version_record ins com by (simp add: one_totals sample_dataset_def)
  then show ?thesis by (simp add: register_version_def one_parses)
qed

lemma created_committed: "committed sample_created"
  using reachable_committed [OF sample_reachable] .

section \<open>What a registered version is\<close>

lemma parsed_bytes: "from_canonical_bytes U data = Inr m \<Longrightarrow> mf_canonical m = data"
  by (auto simp: from_canonical_bytes_def from_payload_def res_bind_eq_Inr
      split: json.splits if_splits option.splits sum.splits)

text \<open>
  C21: A manifest registered for the first time is stored faithfully and for good: the version
  gets the number after the dataset's greatest, and in every later state its manifest reads back
  as the canonical manifest supplied, and its entry rows, in order, have the paths of the
  manifest and point at blobs with their digests and sizes.
\<close>

theorem registered_version_reads_back:
  assumes "register_version U e ds supplied key q d = Inr (r, d')" "committed d" "later U d' d''"
    and "get_idem d VERSION_REGISTER key = None"
    and "\<forall>v \<in> set (db_versions d). dv_dataset_id v = ds \<longrightarrow> dv_manifest_sha v \<noteq> digest_value (mf_sha256 supplied)"
  shows "\<exists>m. from_canonical_bytes U (mf_canonical supplied) = Inr m
    \<and> get_manifest U (vsr_id r) d'' = Inr m
    \<and> vsr_number r = next_version_number d ds
    \<and> list_all2 (entry_stored d'' (vsr_id r)) (enumerate 0 (mf_entries m)) (entries_of d'' (vsr_id r))"
  using assms(1,2,4,5)
proof (cases rule: register_new_Inr)
  case (1 m v t)
  have c: "committed d'" using step_committed [OF do_register_version [OF assms(1)] assms(2)] .
  have e: "db_evolves d' d''" using later_evolves [OF assms(3) c] by simp
  have v: "mf_canonical m = dv_manifest_bytes v" "dv_sealed_at v \<noteq> None"
      "dv_number v = next_version_number d ds"
    by (simp_all add: 1(3) new_version_row_def)
  obtain w where "get_version d'' (dv_id v) = Some w" "dv_manifest_bytes w = dv_manifest_bytes v"
    using later_get(1) [OF assms(3) c 1(6)] v(2) by (auto simp: version_evolves_def sealed_columns_def)
  then have "get_manifest U (vsr_id r) d'' = Inr m"
    using 1(1,4) v(1) parsed_bytes [OF 1(1)] by (simp add: get_manifest_def)
  moreover have "entries_of d'' (dv_id v) = entries_of d' (dv_id v)"
    using e 1(6) v(2) by (simp add: db_evolves_def entries_evolve_def)
  ultimately show ?thesis
    using 1(1,4,5) v(3) entries_stored_evolve [OF e 1(7)] by simp
qed

theorem registered_version_reads_back_witness:
  "get_manifest ascii_unicode 6 one_registered = Inr one_manifest
   \<and> list_all2 (entry_stored one_registered 6) [(0, one_entry)] (entries_of one_registered 6)"
  using registered_version_reads_back [OF one_register created_committed later.now] one_parses
  by (simp add: one_record_def one_totals sample_created_def empty_db_def get_idem_def idem_key_def
      dataset_idem_def)

lemma find_unique:
  assumes "x \<in> set xs" "P x" "\<And>y. y \<in> set xs \<Longrightarrow> P y \<Longrightarrow> y = x"
  shows "find P xs = Some x"
proof (cases "find P xs")
  case None
  then show ?thesis using assms(1,2) by (simp add: find_None_iff)
next
  case (Some y)
  then show ?thesis using assms(3) [of y] by (auto simp: find_Some_iff)
qed

text \<open>The version that a call under a fresh key finds or seals, as its transaction leaves it.\<close>

lemma register_fresh_Inr:
  assumes "register_version U e ds supplied key q d = Inr (r, d')" "committed d"
    and "get_idem d VERSION_REGISTER key = None"
  obtains m s v x where "from_canonical_bytes U (mf_canonical supplied) = Inr m"
    "mf_sha256 m = mf_sha256 supplied" "get_dataset d ds = Some s"
    "to_version_record U v (ds_name s) = Inr r" "get_version d' (dv_id v) = Some v"
    "dv_dataset_id v = ds" "dv_manifest_sha v = digest_value (mf_sha256 supplied)" "dv_sealed_at v \<noteq> None"
    "get_idem d' VERSION_REGISTER key = Some x" "ik_request_sha x = digest_value q"
    "ik_resource_id x = Some (dv_id v)"
proof -
  have w: "wf_db d" using assms(2) by (simp add: committed_def)
  obtain m s v d1 t d2 where m: "from_canonical_bytes U (mf_canonical supplied) = Inr m"
      "mf_sha256 m = mf_sha256 supplied" "get_dataset d ds = Some s"
      "find_or_seal_version e ds m d = Inr (v, d1)" "to_version_record U v (ds_name s) = Inr r"
      "insert_idem (version_idem key q v t) d1 = Inr d2" "d' = d2\<lparr>db_deferred := []\<rparr>"
    using assms(1,3)
    by (auto simp: register_version_def register_transaction_def res_bind_eq_Inr commit_Inr
        split: if_splits option.splits)
  have d2: "d2 = d1\<lparr>db_idem := db_idem d1 @ [version_idem key q v t]\<rparr>"
      "(VERSION_REGISTER, key) \<notin> idem_key ` set (db_idem d1)"
    using m(6) by (auto simp: insert_idem_def idem_key_def version_idem_def split: if_splits)
  then have "tab_get idem_key (VERSION_REGISTER, key) (db_idem d1) = None"
    by (auto simp: tab_get_None dest: notin_image)
  then have key: "get_idem d' VERSION_REGISTER key = Some (version_idem key q v t)"
    using m(7) d2 by (simp add: get_idem_def tab_get_append idem_key_def version_idem_def)
  have "get_version d1 (dv_id v) = Some v \<and> dv_dataset_id v = ds
      \<and> dv_manifest_sha v = digest_value (mf_sha256 m) \<and> dv_sealed_at v \<noteq> None"
  proof (cases "d1 = d \<and> v \<in> set (db_versions d) \<and> dv_dataset_id v = ds
      \<and> dv_manifest_sha v = digest_value (mf_sha256 m)")
    case True
    then show ?thesis
      using assms(2) w tab_get_distinct [of dv_id "db_versions d" v]
      by (auto simp: committed_def settled_def sealed_or_queued_def wf_db_def keys_ok_def get_version_def)
  next
    case False
    then have "seal_new_version e ds m d = Inr (v, d1)"
      using m(4) by (auto simp: find_or_seal_version_def find_Some_iff split: option.splits)
    from seal_new_version_Inr(1,2) [OF this w] show ?thesis by (auto simp: new_version_row_def)
  qed
  then show thesis
    using that [OF m(1,2,3,5)] m(2,7) d2(1) key by (auto simp: get_version_def version_idem_def)
qed

text \<open>
  C15: Registering a manifest again adds no version: once a call under a fresh key has registered
  it, in every later state the same call answers the version as it is then and changes nothing,
  the key with another request is a conflict, and a call for the manifest under a fresh key
  answers that same version, by identifier, number and digest, and adds one idempotency row only.
\<close>

theorem registering_again_adds_no_version:
  assumes "register_version U e ds supplied key q d = Inr (r, d')" "committed d" "later U d' d''"
    and "get_idem d VERSION_REGISTER key = None"
    and "get_idem d'' VERSION_REGISTER key' = None" "varchar 255 key'" "sha_text (digest_value q')"
  shows "\<exists>r' x. register_version U e' ds supplied key q d'' = Inr (r', d'')
    \<and> (q' \<noteq> q \<longrightarrow> register_version U e' ds supplied key q' d'' = Inl IdempotencyConflictError)
    \<and> register_version U e' ds supplied key' q' d'' = Inr (r', d''\<lparr>db_idem := db_idem d'' @ [x]\<rparr>)
    \<and> vsr_id r' = vsr_id r \<and> vsr_number r' = vsr_number r
    \<and> vsr_manifest_sha r' = vsr_manifest_sha r \<and> vsr_dataset_id r' = ds"
  using assms(1,2,4)
proof (cases rule: register_fresh_Inr)
  case (1 m s v x)
  have c: "committed d'" using step_committed [OF do_register_version [OF assms(1)] assms(2)] .
  then have c2: "committed d''" using later_evolves [OF assms(3)] by simp
  note grown = later_get [OF assms(3) c]
  obtain w where w: "get_version d'' (dv_id v) = Some w" "dv_id w = dv_id v" "sealed_columns w = sealed_columns v"
    using grown(1) [OF 1(5)] 1(8) by (auto simp: version_evolves_def)
  have same: "dv_dataset_id w = ds" "dv_manifest_sha w = digest_value (mf_sha256 m)" "dv_number w = dv_number v"
    using w(3) 1(2,6,7) by (simp_all add: sealed_columns_def)
  have "get_dataset d' ds = Some s"
    using later_get(5) [OF _ assms(2) 1(3)] do_register_version [OF assms(1)] by (blast intro: later.intros)
  then have s: "get_dataset d'' ds = Some s" using grown(5) by simp
  have only: "u = w" if "u \<in> set (db_versions d'')" "dv_dataset_id u = ds" "dv_manifest_sha u = dv_manifest_sha w" for u
  proof -
    have "w \<in> set (db_versions d'')" "wf_db d''" using get_id(2) [OF w(1)] c2 by (simp_all add: committed_def)
    then have "\<not> version_clash w u" "distinct (map dv_id (db_versions d''))"
      using that(1) by (auto simp: wf_db_def unique_ok_def keys_ok_def)
    then show ?thesis using that same \<open>w \<in> _\<close> by (auto simp: version_clash_def distinct_map dest: inj_onD)
  qed
  have "w \<in> set (db_versions d'')" using get_id(2) [OF w(1)] by simp
  then have "find (\<lambda>v. dv_dataset_id v = ds \<and> dv_manifest_sha v = digest_value (mf_sha256 m)) (db_versions d'') = Some w"
    by (rule find_unique) (simp_all add: only same)
  then have f: "find_or_seal_version e' ds m d'' = Inr (w, d'')" by (simp add: find_or_seal_version_def)
  obtain r' where r': "to_version_record U w (ds_name s) = Inr r'" "vsr_id r' = vsr_id r" "vsr_number r' = vsr_number r"
      "vsr_manifest_sha r' = vsr_manifest_sha r" "vsr_dataset_id r' = ds"
    using 1(4,7) w(2) same 1(2) by (auto simp: to_version_record_def res_bind_eq_Inr)
  let ?x = "version_idem key' q' w (env_wall e' (length (mf_entries m) + 2))"
  have "insert_idem ?x d'' = Inr (d''\<lparr>db_idem := db_idem d'' @ [?x]\<rparr>)"
    using assms(5-7)
    by (auto simp: insert_idem_def guard_m2_idempotency_def m2_scopes_def check_idem_def version_idem_def int4_def
        get_idem_def idem_key_def tab_get_None)
  moreover have "commit t r' (d''\<lparr>db_idem := db_idem d'' @ [?x]\<rparr>) = Inr (r', d''\<lparr>db_idem := db_idem d'' @ [?x]\<rparr>)" for t
    using c2 by (simp add: commit_def committed_def)
  ultimately have "register_version U e' ds supplied key' q' d'' = Inr (r', d''\<lparr>db_idem := db_idem d'' @ [?x]\<rparr>)"
    using 1(1,2) s assms(5) f r'(1) by (simp add: register_version_def register_transaction_def)
  moreover have "register_version U e' ds supplied key q d'' = Inr (r', d'')"
    using 1(1,2,10,11) s grown(6) [OF 1(9)] w(1) r'(1) commit_committed [OF c2]
    by (simp add: register_version_def register_transaction_def)
  moreover have "register_version U e' ds supplied key q' d'' = Inl IdempotencyConflictError" if "q' \<noteq> q"
    using that 1(1,2,10) s grown(6) [OF 1(9)] sha256_digest.expand [of q q']
    by (auto simp: register_version_def register_transaction_def)
  ultimately show ?thesis using r' by blast
qed

theorem registering_again_adds_no_version_witness:
  "\<exists>r' x. register_version ascii_unicode late_env 1 one_manifest (lit ''w'') sample_request one_registered
      = Inr (r', one_registered\<lparr>db_idem := db_idem one_registered @ [x]\<rparr>)
    \<and> vsr_id r' = 6 \<and> vsr_number r' = 1"
proof -
  have "get_idem sample_created VERSION_REGISTER (lit ''v'') = None" "varchar 255 (lit ''w'')"
      "get_idem one_registered VERSION_REGISTER (lit ''w'') = None" "sha_text (digest_value sample_request)"
    by (simp_all add: sample_created_def one_registered_def empty_db_def get_idem_def idem_key_def
        dataset_idem_def version_idem_def varchar_def sample_request_def)
  from registering_again_adds_no_version [OF one_register created_committed later.now this(1,3,2,4)]
  show ?thesis by (simp add: one_record_def) blast
qed

section \<open>Download entries\<close>

text \<open>The rows of a stored manifest joined with their blobs, selected by ordinal.\<close>

definition row_of :: "db \<Rightarrow> entry_row \<Rightarrow> (entry_row \<times> blob_row) list" where
  "row_of d x = (case get_blob d (de_blob_id x) of None \<Rightarrow> [] | Some b \<Rightarrow> [(x, b)])"

lemma select_ordinal:
  "list_all2 (entry_stored d v) (enumerate i es) xs \<Longrightarrow> i + k < i + length es \<Longrightarrow>
     \<exists>x b. filter (\<lambda>(x, b). de_ordinal x = int (i + k)) (concat (map (row_of d) xs)) = [(x, b)]
       \<and> de_path x = rp_value (me_path (es ! k)) \<and> bl_sha b = digest_value (me_sha (es ! k))
       \<and> bl_size b = me_size (es ! k)"
proof (induction es arbitrary: i k xs)
  case (Cons e es)
  then obtain x ys where xs: "xs = x # ys" "entry_stored d v (i, e) x"
      "list_all2 (entry_stored d v) (enumerate (Suc i) es) ys"
    by (auto simp: list_all2_Cons1)
  obtain b where b: "row_of d x = [(x, b)]" "bl_sha b = digest_value (me_sha e)" "bl_size b = me_size e"
    using xs(2) by (auto simp: entry_stored_def row_of_def)
  show ?case
  proof (cases k)
    case 0
    have "de_ordinal y \<noteq> int i" if "y \<in> set ys" for y
      using xs(3) that by (auto simp: list_all2_conv_all_nth in_set_conv_nth entry_stored_def nth_enumerate_eq)
    then have "filter (\<lambda>(x, b). de_ordinal x = int i) (concat (map (row_of d) ys)) = []"
      by (auto simp: row_of_def filter_empty_conv split: option.splits)
    then show ?thesis using 0 xs b by (auto simp: entry_stored_def)
  next
    case (Suc j)
    then show ?thesis using Cons.IH [OF xs(3), of j] Cons.prems(2) xs b by (auto simp: entry_stored_def)
  qed
qed simp

lemma stored_download:
  assumes "list_all2 (entry_stored d v) (enumerate 0 es) (entries_of d v)"
    and "\<forall>e \<in> set es. wf_entry U e" "k < length es"
  shows "get_download_entry U v (int k) d = Inr (Some (es ! k))"
proof -
  obtain x b where s: "filter (\<lambda>(x, b). de_ordinal x = int k) (joined d v) = [(x, b)]"
      "de_path x = rp_value (me_path (es ! k))" "bl_sha b = digest_value (me_sha (es ! k))"
      "bl_size b = me_size (es ! k)"
    using select_ordinal [OF assms(1), of k] assms(3)
    by (auto simp: joined_def row_of_def [abs_def])
  have "wf_entry U (es ! k)" using assms(2,3) by simp
  then have "mk_relative_path U (de_path x) = Inr (me_path (es ! k))"
      "mk_digest (bl_sha b) = Inr (me_sha (es ! k))" "0 \<le> me_size (es ! k)"
    using s by (simp_all add: wf_entry_def wf_path_def wf_digest_def)
  then show ?thesis
    using s by (simp add: get_download_entry_def one_or_none_def mk_manifest_entry_def)
qed

text \<open>
  C22: What is downloaded is what was registered: in every later state the download entry at
  each ordinal of the version is the manifest entry at that position.
\<close>

theorem download_entries_are_manifest_entries:
  assumes "register_version U e ds supplied key q d = Inr (r, d')" "committed d" "later U d' d''"
    and "get_idem d VERSION_REGISTER key = None" "unicode_laws U"
    and "\<forall>v \<in> set (db_versions d). dv_dataset_id v = ds \<longrightarrow> dv_manifest_sha v \<noteq> digest_value (mf_sha256 supplied)"
    and "from_canonical_bytes U (mf_canonical supplied) = Inr m" "k < length (mf_entries m)"
  shows "get_download_entry U (vsr_id r) (int k) d'' = Inr (Some (mf_entries m ! k))"
  using assms(1,2,4,6)
proof (cases rule: register_new_Inr)
  case (1 m' v t)
  have c: "committed d'" using step_committed [OF do_register_version [OF assms(1)] assms(2)] .
  have e: "db_evolves d' d''" using later_evolves [OF assms(3) c] by simp
  have "dv_sealed_at v \<noteq> None" by (simp add: 1(3))
  then have "entries_of d'' (dv_id v) = entries_of d' (dv_id v)"
    using e 1(6) by (simp add: db_evolves_def entries_evolve_def)
  moreover have "m' = m" using 1(1) assms(7) by simp
  moreover have "\<forall>x \<in> set (mf_entries m). wf_entry U x"
    using assms(5,7) from_payload_Inr
    by (auto simp: from_canonical_bytes_def res_bind_eq_Inr split: if_splits option.splits sum.splits)
  ultimately show ?thesis
    using stored_download entries_stored_evolve [OF e 1(7)] 1(4) assms(8) by simp
qed

theorem download_entries_are_manifest_entries_witness:
  "get_download_entry ascii_unicode 6 0 one_registered = Inr (Some one_entry)"
  using download_entries_are_manifest_entries [OF one_register created_committed later.now _
      ascii_unicode_laws _ one_parses, of 0]
  by (simp add: one_record_def one_totals sample_created_def empty_db_def get_idem_def idem_key_def
      dataset_idem_def)

end
