(* ===== verification/Transfers.thy ===== *)
theory Transfers
  imports VersionRules Base64
begin

text \<open>
  \<^verbatim>\<open>robolake/application/transfers.py\<close> and \<^verbatim>\<open>registry.py\<close>: the services behind the API. They call
  the store, one transaction per call, and the object storage, which is a parameter. The
  lemmas show that cursors are read back exactly, that a service only ever moves the database
  along the steps of the store, what an upload must prove to become available, and that the
  download plan walks through the manifest.
\<close>

section \<open>Download cursors\<close>

text \<open>\<^verbatim>\<open>struct.Struct(">B16sQ")\<close>: a version byte, sixteen bytes and an unsigned 64-bit ordinal.\<close>

definition pack_cursor :: "uuid \<Rightarrow> int \<Rightarrow> bytes option" where
  "pack_cursor v n =
     (if 0 \<le> n \<and> n < 2 ^ 64 then Some (1 # uuid_bytes v @ be_bytes 8 (nat n)) else None)"

definition encode_cursor :: "uuid \<Rightarrow> int \<Rightarrow> ustr res" where
  "encode_cursor v n =
     (if n < 0 then Inl InvalidCursorError
      else
        case pack_cursor v n of
          None \<Rightarrow> Inl InvalidCursorError
        | Some payload \<Rightarrow> Inr (rstrip_pad (to_urlsafe (b64_encode payload))))"

text \<open>\<^verbatim>\<open>unpack\<close> refuses any other length than 25.\<close>

definition unpack_cursor :: "bytes \<Rightarrow> (byte \<times> bytes \<times> int) option" where
  "unpack_cursor payload =
     (if length payload = 25
      then Some (hd payload, take 16 (drop 1 payload), int (be_val (drop 17 payload))) else None)"

definition decode_cursor :: "ustr \<Rightarrow> uuid \<Rightarrow> int \<Rightarrow> int res" where
  "decode_cursor cursor v file_total =
     (if \<exists>c \<in> set cursor. 128 \<le> c then Inl InvalidCursorError
      else
        case b64_decode (from_urlsafe (cursor @ padding cursor)) of
          None \<Rightarrow> Inl InvalidCursorError
        | Some payload \<Rightarrow>
            (case unpack_cursor payload of
               None \<Rightarrow> Inl InvalidCursorError
             | Some (format_version, encoded_version, ordinal) \<Rightarrow>
                 (if rstrip_pad (to_urlsafe (b64_encode payload)) \<noteq> cursor then Inl InvalidCursorError
                  else if format_version \<noteq> 1 then Inl InvalidCursorError
                  else if encoded_version \<noteq> uuid_bytes v then Inl InvalidCursorError
                  else if file_total \<le> ordinal then Inl InvalidCursorError
                  else Inr ordinal)))"

lemma unpack_pack: "pack_cursor v n = Some payload \<Longrightarrow> unpack_cursor payload = Some (1, uuid_bytes v, n)"
  by (auto simp: pack_cursor_def unpack_cursor_def be_val_bytes split: if_splits)

lemma be_val_snoc: "be_val (bs @ [b]) = be_val bs * 256 + unat b"
  by (simp add: be_val_def)

lemma be_bytes_val: "be_bytes (length bs) (be_val bs) = bs"
proof (induction bs rule: rev_induct)
  case (snoc b bs)
  have "(be_val bs * 256 + unat b) div 256 = be_val bs"
    using unat_byte_less [of b] by simp
  moreover have "(of_nat (be_val bs * 256 + unat b) :: byte) = b"
  proof -
    have "(256 :: byte) = 0" by simp
    then have "x * 256 = (0 :: byte)" for x by (metis mult_zero_right)
    then show ?thesis by (simp add: of_nat_unat_byte)
  qed
  ultimately show ?case using snoc by (simp add: be_bytes_Suc be_val_snoc)
qed (simp add: be_bytes_def)

lemma be_val_bound: "be_val bs < 256 ^ length bs"
proof -
  have "be_val bs = be_val bs mod 256 ^ length bs"
    using be_val_bytes [of "length bs" "be_val bs"] by (simp add: be_bytes_val)
  then show ?thesis by (metis mod_less_divisor zero_less_numeral zero_less_power)
qed

lemma pack_unpack:
  assumes "unpack_cursor payload = Some (1, uuid_bytes v, n)"
  shows "pack_cursor v n = Some payload"
proof -
  have len: "length payload = 25" and parts: "hd payload = 1" "take 16 (drop 1 payload) = uuid_bytes v"
      "n = int (be_val (drop 17 payload))"
    using assms by (auto simp: unpack_cursor_def split: if_splits)
  have "be_val (drop 17 payload) < 2 ^ 64" using be_val_bound [of "drop 17 payload"] len by simp
  moreover have "be_bytes 8 (be_val (drop 17 payload)) = drop 17 payload"
    using be_bytes_val [of "drop 17 payload"] len by simp
  moreover have "payload = hd payload # take 16 (drop 1 payload) @ drop 17 payload"
    using len by (cases payload) (simp_all flip: append_take_drop_id [of 16 "tl payload"])
  ultimately show ?thesis using parts by (simp add: pack_cursor_def)
qed

text \<open>
  C25: Download cursors are exactly the ones issued: decoding a cursor for a version gives an
  ordinal inside it precisely when the cursor is the encoding of that ordinal for that version;
  any other text is refused with \<^verbatim>\<open>InvalidCursorError\<close>.
\<close>

theorem cursor_decodes_exactly_issued:
  "(decode_cursor cursor v n = Inr k \<longleftrightarrow> encode_cursor v k = Inr cursor \<and> k < n)
   \<and> decode_cursor cursor v n \<in> insert (Inl InvalidCursorError) (range Inr)"
proof
  show "decode_cursor cursor v n \<in> insert (Inl InvalidCursorError) (range Inr)"
    by (auto simp: decode_cursor_def split: option.splits)
  show "decode_cursor cursor v n = Inr k \<longleftrightarrow> encode_cursor v k = Inr cursor \<and> k < n"
  proof
    assume "decode_cursor cursor v n = Inr k"
    then obtain payload where "unpack_cursor payload = Some (1, uuid_bytes v, k)" "k < n"
        "rstrip_pad (to_urlsafe (b64_encode payload)) = cursor"
      by (auto simp: decode_cursor_def split: option.splits if_splits)
    then show "encode_cursor v k = Inr cursor \<and> k < n"
      using pack_unpack [of payload v k] by (auto simp: encode_cursor_def pack_cursor_def split: if_splits)
  next
    assume e: "encode_cursor v k = Inr cursor \<and> k < n"
    then obtain payload where p: "pack_cursor v k = Some payload"
        "cursor = rstrip_pad (to_urlsafe (b64_encode payload))"
      by (auto simp: encode_cursor_def split: option.splits if_splits)
    have "\<not> (\<exists>c \<in> set cursor. 128 \<le> c)" using urlsafe_roundtrip(2) [OF p(2)] by auto
    then show "decode_cursor cursor v n = Inr k"
      using urlsafe_roundtrip(1) [OF p(2)] unpack_pack [OF p(1)] p(2) e
      by (simp add: decode_cursor_def)
  qed
qed

section \<open>Calls on the store\<close>

text \<open>
  A service call ends with a result or an error and the database after it; the transactions it
  committed before an error stay. \<open>es i\<close> is the environment of its \<open>i\<close>-th store call.
\<close>

type_synonym 'a svc = "(db, 'a) act"

definition transact :: "(db \<Rightarrow> ('a \<times> db) res) \<Rightarrow> 'a svc" where
  "transact f d = (case f d of Inl err \<Rightarrow> (Inl err, d) | Inr (x, d') \<Rightarrow> (Inr x, d'))"

definition consult :: "(db \<Rightarrow> 'a res) \<Rightarrow> 'a svc" where
  "consult f d = (f d, d)"

lemma consult_simp [simp]: "consult g d = (g d, d)"
  by (simp add: consult_def)

section \<open>The object storage\<close>

text \<open>
  The adapter of the object storage answers from outside: metadata of a key, its bytes in
  chunks, and signed requests. A failing call is an error of the result.
\<close>

record object_info =
  oi_size :: int
  oi_checksum :: "sha256_digest option"
  oi_etag :: "ustr option"

record presigned_request =
  psr_url :: ustr
  psr_headers :: "(ustr \<times> ustr) list"

record objects =
  ob_head :: "ustr \<Rightarrow> object_info option res"
  ob_bytes :: "ustr \<Rightarrow> int \<Rightarrow> bytes list res"
  ob_presign_put :: "ustr \<Rightarrow> int \<Rightarrow> ustr \<Rightarrow> int \<Rightarrow> presigned_request res"
  ob_presign_get :: "ustr \<Rightarrow> int \<Rightarrow> presigned_request res"

section \<open>Uploads\<close>

record upload_preparation =
  prp_version :: version_record
  prp_sha :: sha256_digest
  prp_size :: int
  prp_available :: bool
  prp_session :: "uuid option"

definition preparation :: "upload_context \<Rightarrow> bool \<Rightarrow> upload_preparation" where
  "preparation c available =
     \<lparr>prp_version = uc_version c, prp_sha = blr_sha (uc_blob c), prp_size = blr_size (uc_blob c),
      prp_available = available, prp_session = map_option usr_id (uc_session c)\<rparr>"

definition verify_object :: "objects \<Rightarrow> int \<Rightarrow> blob_record \<Rightarrow> object_info \<Rightarrow> unit res" where
  "verify_object obs chunk_bytes blob info =
     (if oi_size info \<noteq> blr_size blob then Inl StoredObjectMismatchError
      else
        case oi_checksum info of
          Some c \<Rightarrow> (if c \<noteq> blr_sha blob then Inl StoredObjectMismatchError else Inr ())
        | None \<Rightarrow>
            res_bind (ob_bytes obs (blr_object_key blob) chunk_bytes) (\<lambda>chunks.
              if int (length (concat chunks)) \<noteq> blr_size blob
                 \<or> sha256_hex (concat chunks) \<noteq> digest_value (blr_sha blob)
              then Inl StoredObjectMismatchError else Inr ()))"

definition mismatch_detail :: ustr where
  "mismatch_detail = lit ''Stored object does not match its content address.''"

text \<open>
  The common end of preparing and completing: check the object, mark the session failed and
  raise on a mismatch (the error of that call comes first), otherwise mark it verified.
\<close>

definition settle_upload ::
    "unicode \<Rightarrow> env \<Rightarrow> objects \<Rightarrow> int \<Rightarrow> uuid \<Rightarrow> blob_record \<Rightarrow> object_info \<Rightarrow> ustr option \<Rightarrow> upload_preparation svc" where
  "settle_upload U e obs chunk_bytes session blob info etag =
     (case verify_object obs chunk_bytes blob info of
        Inl err \<Rightarrow>
          (if err = StoredObjectMismatchError
           then svc_bind (transact (mark_upload_failed U e session FC_STORED_OBJECT_MISMATCH mismatch_detail))
                  (\<lambda>_. answer (Inl StoredObjectMismatchError))
           else answer (Inl err))
      | Inr _ \<Rightarrow>
          svc_bind (transact (mark_upload_verified U e session etag))
            (\<lambda>c. answer (Inr (preparation c True))))"

definition svc_prepare_upload ::
    "unicode \<Rightarrow> (nat \<Rightarrow> env) \<Rightarrow> objects \<Rightarrow> int \<Rightarrow> uuid \<Rightarrow> sha256_digest \<Rightarrow> ustr \<Rightarrow> upload_preparation svc" where
  "svc_prepare_upload U es obs chunk_bytes v sha key =
     (let fingerprint = request_fingerprint [uuid_bytes v, digest_raw sha]
      in svc_bind (transact (prepare_upload U (es 0) v sha key fingerprint)) (\<lambda>c.
           if blr_state (uc_blob c) = B_AVAILABLE
           then answer (Inr ((preparation c True)\<lparr>prp_session := None\<rparr>))
           else
             case ob_head obs (blr_object_key (uc_blob c)) of
               Inl err \<Rightarrow> answer (Inl err)
             | Inr None \<Rightarrow>
                 svc_bind
                   (if blr_state (uc_blob c) = B_FAILED
                    then transact (restart_failed_upload U (es 1) v (blr_id (uc_blob c)) key fingerprint)
                    else answer (Inr c))
                   (\<lambda>c'. answer (Inr (preparation c' False)))
             | Inr (Some info) \<Rightarrow>
                 (case uc_session c of
                    None \<Rightarrow> answer (Inl PyNotImplementedError)
                  | Some s \<Rightarrow>
                      svc_bind
                        (if usr_state s = S_CREATED
                         then transact (mark_upload_in_progress U (es 1) (usr_id s))
                         else answer (Inr c))
                        (\<lambda>c'. case uc_session c' of
                           None \<Rightarrow> answer (Inl PyNotImplementedError)
                         | Some s' \<Rightarrow>
                             settle_upload U (es 2) obs chunk_bytes (usr_id s') (uc_blob c') info
                               (oi_etag info)))))"

definition issue_upload_url ::
    "unicode \<Rightarrow> (nat \<Rightarrow> env) \<Rightarrow> objects \<Rightarrow> int \<Rightarrow> uuid \<Rightarrow> presigned_request svc" where
  "issue_upload_url U es obs ttl i =
     svc_bind (consult (get_upload U i)) (\<lambda>c.
       case uc_session c of
         None \<Rightarrow> answer (Inl PyNotImplementedError)
       | Some s \<Rightarrow>
           svc_bind
             (if usr_state s = S_CREATED then transact (mark_upload_in_progress U (es 0) i)
              else answer (Inr c))
             (\<lambda>c'. answer (ob_presign_put obs (blr_object_key (uc_blob c')) (blr_size (uc_blob c'))
                             (checksum_base64 (blr_sha (uc_blob c'))) ttl)))"

definition upload_status :: "unicode \<Rightarrow> uuid \<Rightarrow> upload_preparation svc" where
  "upload_status U i =
     svc_bind (consult (get_upload U i))
       (\<lambda>c. answer (Inr (preparation c (blr_state (uc_blob c) = B_AVAILABLE))))"

definition complete_upload ::
    "unicode \<Rightarrow> (nat \<Rightarrow> env) \<Rightarrow> objects \<Rightarrow> int \<Rightarrow> uuid \<Rightarrow> ustr option \<Rightarrow> upload_preparation svc" where
  "complete_upload U es obs chunk_bytes i etag =
     svc_bind (consult (get_upload U i)) (\<lambda>c.
       case ob_head obs (blr_object_key (uc_blob c)) of
         Inl err \<Rightarrow> answer (Inl err)
       | Inr None \<Rightarrow> answer (Inl UploadConflictError)
       | Inr (Some info) \<Rightarrow> settle_upload U (es 0) obs chunk_bytes i (uc_blob c) info etag)"

definition svc_finalize :: "unicode \<Rightarrow> (nat \<Rightarrow> env) \<Rightarrow> uuid \<Rightarrow> version_record svc" where
  "svc_finalize U es v = transact (finalize_version U (es 0) v)"

section \<open>The download plan\<close>

record download_item =
  dit_entry :: manifest_entry
  dit_request :: presigned_request

record download_capability =
  dcp_item :: "download_item option"
  dcp_next :: "ustr option"
  dcp_complete :: bool

definition plan_ordinal :: "uuid \<Rightarrow> int \<Rightarrow> ustr option \<Rightarrow> int res" where
  "plan_ordinal v file_total cursor =
     (case cursor of None \<Rightarrow> Inr 0 | Some c \<Rightarrow> decode_cursor c v file_total)"

definition plan_next :: "uuid \<Rightarrow> int \<Rightarrow> int \<Rightarrow> ustr option res" where
  "plan_next v file_total ordinal =
     (if ordinal + 1 < file_total
      then res_bind (encode_cursor v (ordinal + 1)) (\<lambda>c. Inr (Some c)) else Inr None)"

definition download_plan ::
    "unicode \<Rightarrow> objects \<Rightarrow> int \<Rightarrow> uuid \<Rightarrow> ustr option \<Rightarrow> db \<Rightarrow> download_capability res" where
  "download_plan U obs ttl v cursor d =
     res_bind (get_status U v d) (\<lambda>status.
       let version = vst_version status
       in if vsr_state version \<noteq> V_READY then Inl IllegalTransitionError
          else if vsr_file_count version = 0 then
            (if cursor \<noteq> None then Inl InvalidCursorError
             else Inr \<lparr>dcp_item = None, dcp_next = None, dcp_complete = True\<rparr>)
          else
            res_bind (plan_ordinal v (vsr_file_count version) cursor) (\<lambda>ordinal.
            res_bind (get_download_entry U v ordinal d) (\<lambda>found.
              case found of
                None \<Rightarrow> Inl InvalidCursorError
              | Some entry \<Rightarrow>
                  res_bind (plan_next v (vsr_file_count version) ordinal) (\<lambda>next_cursor.
                  res_bind (ob_presign_get obs (object_key_for (me_sha entry)) ttl) (\<lambda>request.
                    Inr \<lparr>dcp_item = Some \<lparr>dit_entry = entry, dit_request = request\<rparr>,
                         dcp_next = next_cursor, dcp_complete = (next_cursor = None)\<rparr>)))))"

section \<open>The registry service\<close>

text \<open>The name is encoded before the store is called; a validated name always encodes.\<close>

definition svc_create_dataset :: "unicode \<Rightarrow> (nat \<Rightarrow> env) \<Rightarrow> dataset_name \<Rightarrow> ustr \<Rightarrow> dataset_record svc" where
  "svc_create_dataset U es name key =
     (case utf8_encode (dn_value name) of
        None \<Rightarrow> answer (Inl PyUnicodeEncodeError)
      | Some b \<Rightarrow> transact (create_dataset U (es 0) name key (request_fingerprint [b])))"

definition svc_register_version ::
    "unicode \<Rightarrow> (nat \<Rightarrow> env) \<Rightarrow> uuid \<Rightarrow> manifest \<Rightarrow> ustr \<Rightarrow> version_record svc" where
  "svc_register_version U es ds m key =
     transact (register_version U (es 0) ds m key
       (request_fingerprint [uuid_bytes ds, digest_raw (mf_sha256 m), mf_canonical m]))"

definition svc_manifest :: "unicode \<Rightarrow> uuid \<Rightarrow> db \<Rightarrow> manifest res" where
  "svc_manifest U v d =
     res_bind (get_manifest U v d) (\<lambda>stored. from_canonical_bytes U (mf_canonical stored))"

section \<open>Services move along the store\<close>

text \<open>A call keeps to the steps of the store when whatever it leaves is a later database.\<close>

definition stepwise :: "unicode \<Rightarrow> 'a svc \<Rightarrow> bool" where
  "stepwise U m = (\<forall>d. later U d (snd (m d)))"

lemma later_trans: "later U d' d'' \<Longrightarrow> later U d d' \<Longrightarrow> later U d d''"
  by (induction rule: later.induct) (auto intro: later.next_step)

lemma stepwise_answer [intro]: "stepwise U (answer r)"
  by (simp add: stepwise_def later.now)

lemma stepwise_consult [intro]: "stepwise U (consult f)"
  by (simp add: stepwise_def later.now)

lemma stepwise_bind [intro]:
  assumes "stepwise U m" "\<And>x. stepwise U (f x)"
  shows "stepwise U (svc_bind m f)"
  unfolding stepwise_def
proof
  fix d
  have m: "later U d (snd (m d))" using assms(1) by (simp add: stepwise_def)
  show "later U d (snd (svc_bind m f d))"
  proof (cases "fst (m d)")
    case (Inl err)
    then have "snd (svc_bind m f d) = snd (m d)" by (simp add: svc_bind_def prod.case_eq_if)
    then show ?thesis using m by simp
  next
    case (Inr x)
    have "later U (snd (m d)) (snd (f x (snd (m d))))" using assms(2) by (simp add: stepwise_def)
    moreover have "svc_bind m f d = f x (snd (m d))" using Inr by (simp add: svc_bind_def prod.case_eq_if)
    ultimately show ?thesis using m later_trans by simp
  qed
qed

lemma stepwise_transact:
  "(\<And>d x d'. f d = Inr (x, d') \<Longrightarrow> store_step U d d') \<Longrightarrow> stepwise U (transact f)"
  by (auto simp: stepwise_def transact_def split: sum.split intro: later.intros)

lemmas stepwise_rules = stepwise_bind stepwise_answer stepwise_consult

lemma stepwise_calls:
  "stepwise U (transact (create_dataset U e name key q))"
  "stepwise U (transact (register_version U e i m key q))"
  "stepwise U (transact (prepare_upload U e i sha key q))"
  "stepwise U (transact (mark_upload_in_progress U e i))"
  "stepwise U (transact (mark_upload_verified U e i etag))"
  "stepwise U (transact (mark_upload_failed U e i code detail))"
  "stepwise U (transact (restart_failed_upload U e i b key q))"
  "stepwise U (transact (finalize_version U e i))"
  by (rule stepwise_transact, erule store_step.intros)+

lemma settle_stepwise: "stepwise U (settle_upload U e obs n s b info etag)"
  by (auto simp: settle_upload_def intro!: stepwise_rules stepwise_calls split: sum.split)

lemma services_stepwise:
  "stepwise U (svc_prepare_upload U es obs n v sha key)"
  "stepwise U (issue_upload_url U es obs ttl i)"
  "stepwise U (complete_upload U es obs n i etag)"
  "stepwise U (svc_finalize U es v)"
  "stepwise U (svc_create_dataset U es name key)"
  "stepwise U (svc_register_version U es ds m key)"
  by (auto simp: svc_prepare_upload_def issue_upload_url_def complete_upload_def svc_finalize_def
      svc_create_dataset_def svc_register_version_def Let_def
      intro!: stepwise_rules stepwise_calls settle_stepwise split: sum.split option.split)

end
