(* ===== verification/TransferRules.thy ===== *)
theory TransferRules
  imports Transfers
begin

text \<open>
  What the upload services promise: an upload completes only against an object the storage
  attests, whether it is completed or found there when it is prepared, and what happens when a
  failed upload is prepared again.
\<close>

section \<open>Completing an upload\<close>

lemma update_blob_Inr:
  assumes "update_blob r d = Inr d'"
  obtains old where "get_blob d (bl_id r) = Some old" "guard_blob old r"
    "d' = d\<lparr>db_blobs := tab_put bl_id r (db_blobs d),
            db_deferred := db_deferred d @ [RequirePublication (bl_id r)]\<rparr>"
  using assms by (auto simp: update_blob_def split: if_splits option.splits)

lemma finish_upload_Inr:
  "finish_upload U e v b u d = Inr (c, d') \<Longrightarrow> d' = d\<lparr>db_deferred := []\<rparr>"
  by (auto simp: finish_upload_def res_bind_eq_Inr commit_Inr split: option.splits)

lemma verified_blob:
  assumes "mark_upload_verified U e i etag d = Inr (c, d')" "get_session d i = Some u"
    and "us_state u \<noteq> M_COMPLETED"
  shows "\<exists>b. get_blob d (us_blob_id u) = Some b
    \<and> get_blob d' (us_blob_id u)
        = Some (b\<lparr>bl_state := B_AVAILABLE, bl_verified_at := Some (env_wall e 0)\<rparr>)
    \<and> get_session d' i = Some (u\<lparr>us_state := M_COMPLETED, us_etag := etag,
        us_completed_at := Some (env_wall e 0), us_last_activity_at := env_wall e 0\<rparr>)"
proof -
  obtain b v d1 d2 d3 where l: "load_upload i d = Inr (u, b, v)" "get_blob d (us_blob_id u) = Some b"
      and s: "update_blob (b\<lparr>bl_state := B_VERIFYING\<rparr>) d = Inr d1"
        "update_blob (b\<lparr>bl_state := B_AVAILABLE, bl_verified_at := Some (env_wall e 0)\<rparr>) d1 = Inr d2"
        "update_session (u\<lparr>us_state := M_COMPLETED, us_etag := etag,
           us_completed_at := Some (env_wall e 0), us_last_activity_at := env_wall e 0\<rparr>) d2 = Inr d3"
        "d' = d3\<lparr>db_deferred := []\<rparr>"
    using assms
    by (auto simp: mark_upload_verified_def load_upload_def res_bind_eq_Inr Let_def
        dest!: finish_upload_Inr split: option.splits if_splits)
  have id: "bl_id b = us_blob_id u" using get_id(3) [OF l(2)] by simp
  have ui: "us_id u = i" using get_id(4) [OF assms(2)] by simp
  have d3: "db_blobs d3 = db_blobs d2" "db_blobs d2 = tab_put bl_id (b\<lparr>bl_state := B_AVAILABLE,
      bl_verified_at := Some (env_wall e 0)\<rparr>) (db_blobs d1)"
      "us_blob_id u \<in> bl_id ` set (db_blobs d1)"
      "db_sessions d3 = tab_put us_id (u\<lparr>us_state := M_COMPLETED, us_etag := etag,
           us_completed_at := Some (env_wall e 0), us_last_activity_at := env_wall e 0\<rparr>) (db_sessions d2)"
      "i \<in> us_id ` set (db_sessions d2)"
    using s(2,3) id ui
    by (auto elim!: update_blob_Inr update_session_Inr dest!: get_id(3,4) intro: rev_image_eqI)
  show ?thesis
    using l(2) d3 id ui by (auto simp: s(4) get_blob_def get_session_def tab_get_put)
qed

lemma to_blob_record_Inr:
  "to_blob_record b = Inr r \<Longrightarrow> blr_object_key r = bl_object_key b \<and> blr_id r = bl_id b
     \<and> blr_state r = bl_state b \<and> digest_value (blr_sha r) = bl_sha b \<and> blr_size r = bl_size b"
  by (auto simp: to_blob_record_def res_bind_eq_Inr mk_digest_Inr)

text \<open>What the object storage must answer for an upload to be accepted.\<close>

definition attested :: "objects \<Rightarrow> int \<Rightarrow> blob_row \<Rightarrow> object_info \<Rightarrow> bool" where
  "attested obs chunk_bytes b info =
     (oi_size info = bl_size b
      \<and> (case oi_checksum info of
           Some c \<Rightarrow> digest_value c = bl_sha b
         | None \<Rightarrow>
             (case ob_bytes obs (bl_object_key b) chunk_bytes of
                Inl _ \<Rightarrow> False
              | Inr pieces \<Rightarrow> int (length (concat pieces)) = bl_size b
                              \<and> sha256_hex (concat pieces) = bl_sha b)))"

lemma verify_attested:
  assumes "verify_object obs n r info = Inr ()" "to_blob_record b = Inr r"
  shows "attested obs n b info"
  using assms
  by (auto simp: verify_object_def attested_def to_blob_record_def res_bind_eq_Inr mk_digest_Inr
      split: if_splits option.splits sum.splits)

text \<open>
  C27: An upload completes only against attested content: when completing an unfinished session
  succeeds, the object storage listed the blob's object with its exact size, and with its digest
  as checksum or, where it keeps none, streamed bytes that hash to the digest; the blob is then
  AVAILABLE and the session COMPLETED with the given ETag.
\<close>

theorem completed_upload_is_attested:
  assumes "complete_upload U es obs n i etag d = (Inr p, d')"
    and "get_session d i = Some u" "us_state u \<noteq> M_COMPLETED"
  shows "\<exists>b info t. get_blob d (us_blob_id u) = Some b
    \<and> ob_head obs (bl_object_key b) = Inr (Some info) \<and> attested obs n b info
    \<and> get_blob d' (us_blob_id u) = Some (b\<lparr>bl_state := B_AVAILABLE, bl_verified_at := Some t\<rparr>)
    \<and> get_session d' i = Some (u\<lparr>us_state := M_COMPLETED, us_etag := etag, us_completed_at := Some t,
        us_last_activity_at := t\<rparr>)
    \<and> prp_available p"
proof -
  obtain c where c: "get_upload U i d = Inr c"
    using assms(1) by (cases "get_upload U i d") (auto simp: complete_upload_def svc_bind_def)
  obtain b where b: "get_blob d (us_blob_id u) = Some b" "to_blob_record b = Inr (uc_blob c)"
    using c assms(2) by (auto simp: get_upload_def mk_upload_context_def res_bind_eq_Inr split: option.splits)
  have key: "blr_object_key (uc_blob c) = bl_object_key b"
    using to_blob_record_Inr [OF b(2)] by simp
  obtain info where info: "ob_head obs (bl_object_key b) = Inr (Some info)"
      "settle_upload U (es 0) obs n i (uc_blob c) info etag d = (Inr p, d')"
    using assms(1) c
    by (auto simp: complete_upload_def svc_bind_def key split: sum.splits option.splits)
  then obtain c' where s: "verify_object obs n (uc_blob c) info = Inr ()"
      "mark_upload_verified U (es 0) i etag d = Inr (c', d')" "p = preparation c' True"
    by (auto simp: settle_upload_def svc_bind_def transact_def split: sum.splits if_splits)
  show ?thesis
    using verified_blob [OF s(2) assms(2,3)] verify_attested [OF s(1) b(2)] b(1) info(1) s(3)
    by (auto simp: preparation_def)
qed

definition sample_objects :: "object_info option \<Rightarrow> objects" where
  "sample_objects info =
     \<lparr>ob_head = (\<lambda>_. Inr info), ob_bytes = (\<lambda>_ _. Inl StorageError),
      ob_presign_put = (\<lambda>_ _ _ _. Inl StorageError),
      ob_presign_get = (\<lambda>_ _. Inr \<lparr>psr_url = lit ''u'', psr_headers = []\<rparr>)\<rparr>"

definition sample_info :: object_info where
  "sample_info = \<lparr>oi_size = 7, oi_checksum = Some (Sha256Digest sample_sha), oi_etag = None\<rparr>"

definition sample_put :: db where
  "sample_put = sample_db V_UPLOADING B_UPLOADING 7 [sample_single_put M_IN_PROGRESS]"

lemma sample_put_rows:
  "get_session sample_put 4 = Some (sample_single_put M_IN_PROGRESS)"
  "get_blob sample_put 3 = Some (sample_blob B_UPLOADING 7)"
  "get_version sample_put 2 = Some (sample_version V_UPLOADING 7)"
  "get_dataset sample_put 1 = Some sample_dataset"
  by (simp_all add: sample_put_def sample_db_def get_defs) (simp_all add: sample_rows)

lemma sample_record_ok:
  "\<exists>r. to_blob_record (sample_blob bs k) = Inr r \<and> blr_size r = k \<and> blr_sha r = Sha256Digest sample_sha
     \<and> blr_object_key r = key_of_sha sample_sha"
  "\<exists>r. to_version_record ascii_unicode (sample_version vs k) (lit ''d'') = Inr r"
  using sample_name_wf sha_text_parse [OF sample_sha_text]
  by (simp_all add: to_blob_record_def to_version_record_def sample_blob_def sample_version_def)

lemma sample_put_columns:
  "us_blob_id (sample_single_put M_IN_PROGRESS) = 3"
  "us_version_id (sample_single_put M_IN_PROGRESS) = 2"
  "us_strategy (sample_single_put M_IN_PROGRESS) = SINGLE_PUT"
  "us_state (sample_single_put M_IN_PROGRESS) = M_IN_PROGRESS"
  "dv_dataset_id (sample_version V_UPLOADING 7) = 1"
  "ds_name sample_dataset = [100]"
  "bl_state (sample_blob B_UPLOADING 7) = B_UPLOADING"
  by (simp_all add: sample_rows)

lemma sample_mark:
  "\<exists>c d'. mark_upload_verified ascii_unicode sample_env 4 None (sample_put\<lparr>db_idem := q\<rparr>) = Inr (c, d')"
proof -
  let ?d0 = "sample_put\<lparr>db_idem := q\<rparr>"
  note rows = sample_put_rows [unfolded get_defs]
  obtain w where w: "to_version_record ascii_unicode (sample_version V_UPLOADING 7) [100] = Inr w"
    using sample_record_ok(2) by auto
  have l: "load_upload 4 ?d0 = Inr (sample_single_put M_IN_PROGRESS, sample_blob B_UPLOADING 7,
      sample_version V_UPLOADING 7)"
    by (simp add: load_upload_def get_defs rows sample_put_columns require_single_put_def)
  let ?b1 = "(sample_blob B_UPLOADING 7)\<lparr>bl_state := B_VERIFYING\<rparr>"
  let ?b2 = "(sample_blob B_UPLOADING 7)\<lparr>bl_state := B_AVAILABLE, bl_verified_at := Some (env_wall sample_env 0)\<rparr>"
  let ?u = "(sample_single_put M_IN_PROGRESS)\<lparr>us_state := M_COMPLETED, us_etag := None,
    us_completed_at := Some (env_wall sample_env 0), us_last_activity_at := env_wall sample_env 0\<rparr>"
  let ?d1 = "?d0\<lparr>db_blobs := [?b1], db_deferred := [RequirePublication 3]\<rparr>"
  let ?d2 = "?d0\<lparr>db_blobs := [?b2], db_deferred := [RequirePublication 3, RequirePublication 3]\<rparr>"
  let ?d3 = "?d0\<lparr>db_blobs := [?b2], db_sessions := [?u],
      db_deferred := [RequirePublication 3, RequirePublication 3, RequirePublication 3]\<rparr>"
  have ok: "check_blob (sample_blob B_VERIFYING 7)" "check_blob ?b2"
    using sample_row_checks(4) [of 7 B_VERIFYING] by (simp_all add: check_blob_def sample_blob_def)
  have s1: "update_blob ?b1 ?d0 = Inr ?d1"
    using ok(1)
    by (simp add: update_blob_def get_blob_def guard_blob_def blob_edge_def sample_put_def sample_db_def
        empty_db_def tab_put_def sample_blob_def)
  have s2: "update_blob ?b2 ?d1 = Inr ?d2"
    using ok(2)
    by (simp add: update_blob_def guard_blob_def blob_edge_def get_blob_def tab_put_def sample_blob_def)
  have s3: "update_session ?u ?d2 = Inr ?d3"
    using sample_session_checks(1) [of M_COMPLETED]
    by (simp add: update_session_def get_session_def sample_put_def sample_db_def empty_db_def
        guard_upload_session_def guard_single_put_def session_identity_def single_put_edge_def
        session_clash_def tab_put_def check_session_def check_multipart_plan_def check_provider_id_def
        check_completion_values_def check_verification_evidence_def session_widths_def)
       (simp add: sample_rows)
  have b2: "\<exists>r. to_blob_record ?b2 = Inr r" "\<exists>r. to_upload_session_record ?u = Inr r"
    using sha_text_parse [OF sample_sha_text]
    by (simp_all add: to_blob_record_def sample_blob_def to_upload_session_record_def
        require_single_put_def session_state_of_def sample_put_columns)
  have "validate_m2_publication ?d3 3 t" for t
    by (simp add: validate_m2_publication_def get_blob_def publication_states_ok_def
        no_invalidated_owner_def multipart_sessions_def sessions_of_def sample_put_columns)
  then have com: "commit t x ?d3 = Inr (x, ?d3\<lparr>db_deferred := []\<rparr>)" for t and x :: upload_context
    by (simp add: commit_def deferred_ok_def)
  have ds: "get_dataset ?d3 1 = Some sample_dataset"
    using sample_put_rows(4) by (simp add: get_dataset_def)
  obtain rb ru where r': "to_blob_record ?b2 = Inr rb" "to_upload_session_record ?u = Inr ru"
    using b2 by blast
  have fin: "finish_upload ascii_unicode sample_env (sample_version V_UPLOADING 7) ?b2 ?u ?d3
      = Inr (\<lparr>uc_version = w, uc_blob = rb, uc_session = Some ru\<rparr>, ?d3\<lparr>db_deferred := []\<rparr>)"
    unfolding finish_upload_def sample_put_columns(5) ds option.simps mk_upload_context_def sample_put_columns(6) w r' res_bind_simps com ..
  show ?thesis
    using s1 s2 s3 fin by (simp add: mark_upload_verified_def l sample_put_columns Let_def)
qed

lemma sample_completes:
  "\<exists>p d'. complete_upload ascii_unicode (\<lambda>_. sample_env) (sample_objects (Some sample_info)) 1 4 None
     sample_put = (Inr p, d')"
proof -
  obtain r where r: "to_blob_record (sample_blob B_UPLOADING 7) = Inr r" "blr_size r = 7"
      "blr_sha r = Sha256Digest sample_sha" "blr_object_key r = key_of_sha sample_sha"
    using sample_record_ok(1) by blast
  obtain w where w: "to_version_record ascii_unicode (sample_version V_UPLOADING 7) [100] = Inr w"
    using sample_record_ok(2) by auto
  obtain su where su: "to_upload_session_record (sample_single_put M_IN_PROGRESS) = Inr su"
    by (simp add: to_upload_session_record_def require_single_put_def session_state_of_def sample_put_columns)
  have "get_upload ascii_unicode 4 sample_put = Inr \<lparr>uc_version = w, uc_blob = r, uc_session = Some su\<rparr>"
    by (simp add: get_upload_def sample_put_rows sample_put_columns require_single_put_def mk_upload_context_def w r su)
  moreover have "verify_object (sample_objects (Some sample_info)) 1 r sample_info = Inr ()"
    by (simp add: verify_object_def sample_info_def r)
  moreover obtain c d' where "mark_upload_verified ascii_unicode sample_env 4 None sample_put = Inr (c, d')"
    using sample_mark [of "[]"] by (auto simp: sample_put_def sample_db_def empty_db_def)
  ultimately show ?thesis
    by (simp add: complete_upload_def svc_bind_def sample_objects_def settle_upload_def transact_def)
qed

theorem completed_upload_is_attested_witness:
  "\<exists>p d' b. complete_upload ascii_unicode (\<lambda>_. sample_env) (sample_objects (Some sample_info)) 1 4 None
     sample_put = (Inr p, d') \<and> get_blob d' 3 = Some b \<and> bl_state b = B_AVAILABLE \<and> prp_available p"
proof -
  obtain p d' where c: "complete_upload ascii_unicode (\<lambda>_. sample_env) (sample_objects (Some sample_info)) 1 4 None
      sample_put = (Inr p, d')"
    using sample_completes by blast
  have u: "us_blob_id (sample_single_put M_IN_PROGRESS) = 3" "us_state (sample_single_put M_IN_PROGRESS) \<noteq> M_COMPLETED"
    by (simp_all add: sample_rows)
  show ?thesis
    using completed_upload_is_attested [OF c sample_put_rows(1) u(2)] c u(1) by auto
qed

section \<open>Failed uploads\<close>

lemma found_blob:
  assumes "find (\<lambda>b. bl_sha b = digest_value sha) (map snd (joined d v)) = Some b'" "committed d"
    and "get_blob d bid = Some b" "bl_sha b = digest_value sha"
  shows "b' = b"
proof -
  have "b' \<in> set (map snd (joined d v))" "bl_sha b' = digest_value sha"
    using assms(1) by (auto simp: find_Some_iff intro!: imageI nth_mem)
  then have "b' \<in> set (db_blobs d)" by (auto simp: joined_mem dest: get_id(3))
  moreover have "inj_on bl_sha (set (db_blobs d))"
    using assms(2) by (simp add: committed_def wf_db_def unique_ok_def distinct_map)
  ultimately show ?thesis
    using assms(4) \<open>bl_sha b' = digest_value sha\<close> get_id(3) [OF assms(3)] by (metis inj_onD)
qed

lemma context_session:
  "mk_upload_context U v n b (Some u) = Inr c \<Longrightarrow>
     to_blob_record b = Inr (uc_blob c) \<and> (\<exists>s. uc_session c = Some s \<and> to_upload_session_record u = Inr s)"
  by (auto simp: mk_upload_context_def res_bind_eq_Inr)

lemma to_session_Inr:
  "to_upload_session_record u = Inr s \<Longrightarrow>
     usr_id s = us_id u \<and> (usr_state s = S_CREATED \<longleftrightarrow> us_state u = M_CREATED)"
  by (auto simp: to_upload_session_record_def res_bind_eq_Inr session_state_of_def split: multipart_state.splits)

lemma restart_replay:
  "restart_failed_upload U e v b key q d = Inr (c, d') \<Longrightarrow>
     get_idem d UPLOAD_SESSION_CREATE key = Some x \<Longrightarrow>
     d' = d\<lparr>db_deferred := []\<rparr> \<and> (\<exists>s u. uc_session c = Some s \<and> get_session d (usr_id s) = Some u)"
  by (auto simp: restart_failed_upload_def res_bind_eq_Inr commit_Inr split: option.split_asm if_split_asm
      dest!: context_session to_session_Inr)
    (metis get_id(4))+

text \<open>Preparing a FAILED blob in the store binds the key to an old session, or replays it.\<close>

lemma prepare_failed_blob:
  assumes "prepare_upload U e v sha key q d = Inr (c, d')" "committed d"
    and "get_blob d bid = Some b" "bl_sha b = digest_value sha" "bl_state b = B_FAILED"
  shows "to_blob_record b = Inr (uc_blob c)"
    and "d' = d\<lparr>db_idem := db_idem d'\<rparr>"
    and "\<exists>x. get_idem d' UPLOAD_SESSION_CREATE key = Some x"
proof -
  have def: "db_deferred d = []" using assms(2) by (simp add: committed_def)
  obtain b' where f: "find (\<lambda>b. bl_sha b = digest_value sha) (map snd (joined d v)) = Some b'"
    using assms(1) by (auto simp: prepare_upload_def split: option.splits)
  have b': "b' = b" using found_blob [OF f assms(2-4)] .
  note defs = prepare_upload_def find_or_start_upload_def mk_upload_context_def insert_idem_def
    res_bind_eq_Inr commit_Inr def f b' assms(5)
  show "to_blob_record b = Inr (uc_blob c)"
    using assms(1) by (auto simp: defs split: option.splits if_splits)
  show "d' = d\<lparr>db_idem := db_idem d'\<rparr>"
    using assms(1) def by (auto simp: defs split: option.splits if_splits)
  show "\<exists>x. get_idem d' UPLOAD_SESSION_CREATE key = Some x"
    using assms(1)
    by (auto simp: defs get_idem_def idem_key_def upload_idem_def tab_get_append
        split: option.splits if_splits)
qed

text \<open>
  C28: As the code stands, a failed upload is never restarted by preparing it again: for a FAILED
  blob whose object is gone, a successful \<^verbatim>\<open>prepare_upload\<close> of the service, under any key, answers
  with a session that was there before and leaves every session, blob and version as it was,
  because the restart it asks the store for finds the key the same call has just recorded and
  replays it. The plan and the unit test of the service, which runs over a store of its own, mean
  a new session: the manifest lists the difference as a finding.
\<close>

theorem failed_upload_is_not_restarted:
  assumes "svc_prepare_upload U es obs n v sha key d = (Inr p, d')" "committed d"
    and "get_blob d bid = Some b" "bl_sha b = digest_value sha" "bl_state b = B_FAILED"
    and "ob_head obs (bl_object_key b) = Inr None"
  shows "db_sessions d' = db_sessions d \<and> db_blobs d' = db_blobs d \<and> db_versions d' = db_versions d
    \<and> \<not> prp_available p \<and> (\<exists>i u. prp_session p = Some i \<and> get_session d i = Some u)"
proof -
  let ?q = "request_fingerprint [uuid_bytes v, digest_raw sha]"
  obtain c d1 where c: "prepare_upload U (es 0) v sha key ?q d = Inr (c, d1)"
    using assms(1)
    by (auto simp: svc_prepare_upload_def svc_bind_def transact_def Let_def split: sum.splits)
  note f = prepare_failed_blob [OF c assms(2-5)]
  note r = to_blob_record_Inr [OF f(1)]
  obtain x where x: "get_idem d1 UPLOAD_SESSION_CREATE key = Some x" using f(3) by blast
  obtain c' where c': "restart_failed_upload U (es 1) v (blr_id (uc_blob c)) key ?q d1 = Inr (c', d')"
      "p = preparation c' False"
    using assms(1,5,6) c r
    by (auto simp: svc_prepare_upload_def svc_bind_def transact_def Let_def split: sum.splits)
  have d1: "db_sessions d1 = db_sessions d" "db_blobs d1 = db_blobs d" "db_versions d1 = db_versions d"
    by (subst f(2), simp)+
  moreover obtain s u where "d' = d1\<lparr>db_deferred := []\<rparr>" "uc_session c' = Some s" "get_session d1 (usr_id s) = Some u"
    using restart_replay [OF c'(1) x] by blast
  ultimately show ?thesis using c'(2) by (simp add: preparation_def get_session_def)
qed

definition sample_failed :: db where
  "sample_failed = sample_db V_UPLOADING B_FAILED 7 [sample_single_put M_FAILED]"

lemma sample_failed_rows:
  "get_session sample_failed 4 = Some (sample_single_put M_FAILED)"
  "get_blob sample_failed 3 = Some (sample_blob B_FAILED 7)"
  "get_version sample_failed 2 = Some (sample_version V_UPLOADING 7)"
  "get_dataset sample_failed 1 = Some sample_dataset"
  "joined sample_failed 2 = [(sample_entry, sample_blob B_FAILED 7)]"
  "entries_of sample_failed 2 = [sample_entry]"
  "sessions_of sample_failed 3 = [sample_single_put M_FAILED]"
  "get_idem sample_failed sc k = None"
  "db_deferred sample_failed = []"
  by (simp_all add: sample_failed_def sample_db_def get_defs joined_def entries_of_def sessions_of_def)
     (simp_all add: sample_rows empty_db_def)

lemma sample_failed_prepares:
  assumes "sha_text (digest_value q)"
  shows "\<exists>c d1 c' d2.
    prepare_upload ascii_unicode sample_env 2 (Sha256Digest sample_sha) [107] q sample_failed = Inr (c, d1)
    \<and> restart_failed_upload ascii_unicode sample_env 2 3 [107] q d1 = Inr (c', d2)
    \<and> blr_state (uc_blob c) = B_FAILED \<and> blr_id (uc_blob c) = 3"
proof -
  obtain rb where rb: "to_blob_record (sample_blob B_FAILED 7) = Inr rb"
    using sample_record_ok(1) by blast
  obtain w where w: "to_version_record ascii_unicode (sample_version V_UPLOADING 7) [100] = Inr w"
    using sample_record_ok(2) by auto
  have u: "us_blob_id (sample_single_put M_FAILED) = 3" "us_version_id (sample_single_put M_FAILED) = 2"
      "us_strategy (sample_single_put M_FAILED) = SINGLE_PUT" "us_state (sample_single_put M_FAILED) = M_FAILED"
      "dv_dataset_id (sample_version V_UPLOADING 7) = 1" "ds_name sample_dataset = [100]"
      "bl_state (sample_blob B_FAILED 7) = B_FAILED" "bl_id (sample_blob B_FAILED 7) = 3"
      "bl_sha (sample_blob B_FAILED 7) = sample_sha" "us_id (sample_single_put M_FAILED) = 4"
      "de_blob_id sample_entry = 3"
    by (simp_all add: sample_rows)
  obtain su where su: "to_upload_session_record (sample_single_put M_FAILED) = Inr su"
    by (simp add: to_upload_session_record_def require_single_put_def session_state_of_def u)
  let ?r = "upload_idem [107] q 4 (env_wall sample_env (Suc 0))"
  let ?d1 = "sample_failed\<lparr>db_idem := [?r]\<rparr>"
  let ?c = "\<lparr>uc_version = w, uc_blob = rb, uc_session = Some su\<rparr>"
  have i: "insert_idem ?r sample_failed = Inr ?d1"
    using assms
    by (simp add: insert_idem_def guard_m2_idempotency_def check_idem_def m2_scopes_def varchar_def
        int4_def sample_failed_def sample_db_def empty_db_def upload_idem_def)
  have g: "get_session ?d1 = get_session sample_failed" "get_blob ?d1 = get_blob sample_failed"
      "get_version ?d1 = get_version sample_failed" "get_dataset ?d1 = get_dataset sample_failed"
      "entries_of ?d1 2 = entries_of sample_failed 2" "get_idem ?d1 UPLOAD_SESSION_CREATE [107] = Some ?r"
      "db_deferred ?d1 = []"
    by (simp_all add: get_defs fun_eq_iff entries_of_def sample_failed_rows(9) idem_key_def upload_idem_def)
  have idem: "ik_request_sha ?r = digest_value q" "ik_resource_id ?r = Some 4"
    by (simp_all add: upload_idem_def)
  have com: "commit t x ?d1 = Inr (x, ?d1)" for t and x :: upload_context
    by (simp add: commit_def sample_failed_def sample_db_def empty_db_def)
  have "prepare_upload ascii_unicode sample_env 2 (Sha256Digest sample_sha) [107] q sample_failed
      = Inr (?c, ?d1)"
    using i by (simp add: prepare_upload_def sample_failed_rows u find_or_start_upload_def
        require_single_put_def mk_upload_context_def rb w su com)
  moreover have "restart_failed_upload ascii_unicode sample_env 2 3 [107] q ?d1
      = Inr (?c, ?d1)"
    by (simp add: com g restart_failed_upload_def sample_failed_rows u g
        require_single_put_def mk_upload_context_def rb w su idem)
  ultimately show ?thesis using to_blob_record_Inr [OF rb] u by auto
qed

theorem failed_upload_is_not_restarted_witness:
  "\<exists>p d'. svc_prepare_upload ascii_unicode (\<lambda>_. sample_env) (sample_objects None) 1 2
     (Sha256Digest sample_sha) [107] sample_failed = (Inr p, d')
     \<and> db_sessions d' = db_sessions sample_failed \<and> \<not> prp_available p"
proof -
  obtain c d1 c' d2 where c:
    "prepare_upload ascii_unicode sample_env 2 (Sha256Digest sample_sha) [107]
       (request_fingerprint [uuid_bytes 2, digest_raw (Sha256Digest sample_sha)]) sample_failed = Inr (c, d1)"
    "restart_failed_upload ascii_unicode sample_env 2 3 [107]
       (request_fingerprint [uuid_bytes 2, digest_raw (Sha256Digest sample_sha)]) d1 = Inr (c', d2)"
    "blr_state (uc_blob c) = B_FAILED" "blr_id (uc_blob c) = 3"
    using sample_failed_prepares digest_sha_text
    by (metis request_fingerprint_def content_digest_def sha256_digest.sel)
  have call: "svc_prepare_upload ascii_unicode (\<lambda>_. sample_env) (sample_objects None) 1 2
     (Sha256Digest sample_sha) [107] sample_failed = (Inr (preparation c' False), d2)"
    using c by (simp add: svc_prepare_upload_def svc_bind_def transact_def answer_def sample_objects_def Let_def)
  have "committed sample_failed"
    unfolding sample_failed_def by (rule sample_committed) (simp_all, simp_all add: sample_rows)
  then show ?thesis
    using failed_upload_is_not_restarted [OF call _ sample_failed_rows(2)] call
    by (auto simp: sample_objects_def sample_blob_def)
qed

section \<open>Preparing an upload whose object is there\<close>

lemma latest_mem: "latest ss = Some s \<Longrightarrow> s \<in> set ss"
  by (induction ss) (auto split: option.splits if_splits)

text \<open>The session an upload is given, and the rows after it: a new one, or one that was there.\<close>

lemma find_or_start_session:
  assumes "find_or_start_upload e v b d = Inr (u, d1)" "keys_ok d"
  shows "get_session d1 (us_id u) = Some u" "us_blob_id u = bl_id b" "db_blobs d1 = db_blobs d"
    "us_state u \<noteq> M_CREATED \<Longrightarrow> get_session d (us_id u) = Some u"
proof -
  have there: "get_session d (us_id x) = Some x \<and> us_blob_id x = bl_id b" if "x \<in> set (sessions_of d (bl_id b))" for x
    using that assms(2) tab_get_distinct [of us_id "db_sessions d" x]
    by (simp add: sessions_of_def keys_ok_def get_session_def)
  have "(u \<in> set (sessions_of d (bl_id b)) \<and> d1 = d)
      \<or> (u = new_single_put (env_uuid e 0) (bl_id b) v (env_wall e 0) \<and> insert_session u d = Inr d1)"
    using assms(1)
    by (auto simp: find_or_start_upload_def Let_def res_bind_eq_Inr find_Some_iff
        split: option.split_asm if_split_asm dest: latest_mem)
  moreover have "get_session d1 (us_id u) = Some u \<and> db_blobs d1 = db_blobs d" if "insert_session u d = Inr d1"
    using that by (auto simp: insert_session_def get_session_def tab_get_snoc simp del: tab_get_append split: if_splits)
  ultimately show "get_session d1 (us_id u) = Some u" "us_blob_id u = bl_id b" "db_blobs d1 = db_blobs d"
      "us_state u \<noteq> M_CREATED \<Longrightarrow> get_session d (us_id u) = Some u"
    using there by (auto simp: new_single_put_def)
qed

text \<open>A key is bound to the blob \<open>bid\<close> when the session it was used for uploads that blob.\<close>

definition key_uploads :: "db \<Rightarrow> ustr \<Rightarrow> uuid \<Rightarrow> bool" where
  "key_uploads d key bid =
     (case get_idem d UPLOAD_SESSION_CREATE key of
        None \<Rightarrow> True
      | Some x \<Rightarrow>
          (case ik_resource_id x of
             None \<Rightarrow> True
           | Some i \<Rightarrow> (case get_session d i of None \<Rightarrow> True | Some u \<Rightarrow> us_blob_id u = bid)))"

lemma prepare_context:
  assumes "prepare_upload U e v sha key q d = Inr (c, d1)" "committed d"
    and "get_blob d bid = Some b" "bl_sha b = digest_value sha" "bl_state b \<noteq> B_AVAILABLE" "key_uploads d key bid"
  obtains u s where "to_blob_record b = Inr (uc_blob c)" "get_blob d1 bid = Some b"
    "uc_session c = Some s" "to_upload_session_record u = Inr s" "get_session d1 (us_id u) = Some u"
    "us_blob_id u = bid" "us_state u \<noteq> M_CREATED \<Longrightarrow> get_session d (us_id u) = Some u"
proof -
  have k: "keys_ok d" "bl_id b = bid" using assms(2) get_id(3) [OF assms(3)] by (auto simp: committed_def wf_db_def)
  obtain version dataset b' where f: "get_version d v = Some version"
      "get_dataset d (dv_dataset_id version) = Some dataset"
      "find (\<lambda>b. bl_sha b = digest_value sha) (map snd (joined d v)) = Some b'"
    using assms(1) by (auto simp: prepare_upload_def split: option.splits)
  have b': "b' = b" using found_blob [OF f(3) assms(2-4)] .
  show ?thesis
  proof (cases "get_idem d UPLOAD_SESSION_CREATE key")
    case None
    then obtain u d2 d3 where u: "find_or_start_upload e v b d = Inr (u, d2)"
        "mk_upload_context U version (ds_name dataset) b (Some u) = Inr c"
        "insert_idem (upload_idem key q (us_id u) (env_wall e 1)) d2 = Inr d3" "d1 = d3\<lparr>db_deferred := []\<rparr>"
      using assms(1,5) f b' by (auto simp: prepare_upload_def res_bind_eq_Inr commit_Inr)
    note fs = find_or_start_session [OF u(1) k(1)]
    have "db_sessions d1 = db_sessions d2" "db_blobs d1 = db_blobs d2"
      using u(3,4) by (auto simp: insert_idem_def split: if_splits)
    then have "get_session d1 (us_id u) = Some u" "get_blob d1 bid = Some b"
      using fs(1,3) assms(3) by (simp_all add: get_session_def get_blob_def)
    then show ?thesis using that context_session [OF u(2)] fs(2,4) k(2) by blast
  next
    case (Some x)
    then obtain i u where u: "ik_resource_id x = Some i" "get_session d i = Some u"
        "mk_upload_context U version (ds_name dataset) b (Some u) = Inr c" "d1 = d\<lparr>db_deferred := []\<rparr>"
      using assms(1,5) f b' by (auto simp: prepare_upload_def res_bind_eq_Inr commit_Inr split: if_splits option.splits)
    have "us_id u = i" "us_blob_id u = bid"
      using get_id(4) [OF u(2)] assms(6) Some u(1,2) by (auto simp: key_uploads_def)
    then show ?thesis
      using that [of _ u] context_session [OF u(3)] u(2,4) assms(3) by (auto simp: get_session_def get_blob_def)
  qed
qed

lemma update_version_Inr_rows:
  "update_version r d = Inr d' \<Longrightarrow> db_blobs d' = db_blobs d \<and> db_sessions d' = db_sessions d"
  by (auto simp: update_version_def split: option.splits if_splits)

text \<open>Starting the session moves a PENDING blob to UPLOADING and changes nothing else of it.\<close>

lemma start_context:
  assumes "mark_upload_in_progress U e i d = Inr (c, d')" "get_session d i = Some u" "us_state u = M_CREATED"
    and "get_blob d (us_blob_id u) = Some b"
  obtains u' b' s where "b' = b \<or> b' = b\<lparr>bl_state := B_UPLOADING\<rparr>" "to_blob_record b' = Inr (uc_blob c)"
    "get_blob d' (us_blob_id u) = Some b'" "uc_session c = Some s" "usr_id s = i"
    "get_session d' i = Some u'" "us_state u' = M_IN_PROGRESS" "us_blob_id u' = us_blob_id u"
proof -
  let ?u = "u\<lparr>us_state := M_IN_PROGRESS, us_last_activity_at := env_wall e 0\<rparr>"
  obtain v v' b' d1 d2 d3 where s: "start_blob b d = Inr (b', d1)" "start_version v d1 = Inr (v', d2)"
      "update_session ?u d2 = Inr d3" "finish_upload U e v' b' ?u d3 = Inr (c, d')"
    using assms by (auto simp: mark_upload_in_progress_def load_upload_def res_bind_eq_Inr Let_def split: option.splits)
  have id: "us_id u = i" "bl_id b = us_blob_id u" using get_id(3,4) assms(2,4) by blast+
  have b1: "(b' = b \<or> b' = b\<lparr>bl_state := B_UPLOADING\<rparr>) \<and> get_blob d1 (us_blob_id u) = Some b'"
    using s(1) assms(4) id tab_get_mem [OF assms(4) [unfolded get_blob_def]]
    by (auto simp: start_blob_def Let_def res_bind_eq_Inr get_blob_def tab_get_put split: if_splits elim!: update_blob_Inr)
  have d2: "db_blobs d2 = db_blobs d1" "db_sessions d2 = db_sessions d1"
    using s(2) by (auto simp: start_version_def Let_def res_bind_eq_Inr split: if_splits dest: update_version_Inr_rows)
  obtain old where old: "get_session d2 (us_id ?u) = Some old"
      "d3 = d2\<lparr>db_sessions := tab_put us_id ?u (db_sessions d2),
              db_deferred := db_deferred d2 @ [RequirePublication (us_blob_id ?u)]\<rparr>"
    using s(3) by (rule update_session_Inr)
  have d': "d' = d3\<lparr>db_deferred := []\<rparr>" using finish_upload_Inr [OF s(4)] .
  obtain n where "mk_upload_context U v' n b' (Some ?u) = Inr c"
    using s(4) by (auto simp: finish_upload_def res_bind_eq_Inr commit_Inr split: option.splits)
  note c = context_session [OF this]
  have "get_blob d' (us_blob_id u) = Some b'" using b1 d2(1) old(2) d' by (simp add: get_blob_def)
  moreover have "get_session d' i = Some ?u"
    using old(2) id tab_get_mem [OF old(1) [unfolded get_session_def]] get_id(4) [OF old(1)]
    by (simp add: d' get_session_def tab_get_put)
  ultimately show ?thesis using that b1 c to_session_Inr id by fastforce
qed

lemma settle_result:
  assumes "settle_upload U e obs n i r info etag d = (Inr p, d')" "get_session d i = Some u"
    and "get_blob d (us_blob_id u) = Some b" "to_blob_record b = Inr r"
  shows "attested obs n b info \<and> prp_available p \<and> prp_session p = Some i
    \<and> (us_state u = M_COMPLETED
       \<or> (\<exists>t. get_blob d' (us_blob_id u) = Some (b\<lparr>bl_state := B_AVAILABLE, bl_verified_at := Some t\<rparr>)))"
proof -
  obtain c where s: "verify_object obs n r info = Inr ()" "mark_upload_verified U e i etag d = Inr (c, d')"
      "p = preparation c True"
    using assms(1) by (auto simp: settle_upload_def svc_bind_def transact_def split: sum.splits if_splits)
  have "us_id u = i" using get_id(4) [OF assms(2)] by simp
  have "\<exists>s. uc_session c = Some s \<and> usr_id s = i"
    using s(2) assms(2) \<open>us_id u = i\<close>
    by (auto simp: mark_upload_verified_def load_upload_def res_bind_eq_Inr Let_def finish_upload_def commit_Inr
        split: option.split_asm if_split_asm dest!: context_session to_session_Inr)
  then show ?thesis
    using verified_blob [OF s(2) assms(2)] assms(3) verify_attested [OF s(1) assms(4)] s(3)
    by (auto simp: preparation_def)
qed

text \<open>
  C26: Preparing an upload reconciles with what the storage holds: for content that is not AVAILABLE yet,
  a successful \<^verbatim>\<open>prepare_upload\<close> of the service tells it available exactly when the storage has an
  object under the deterministic key, and then that object has the blob's exact size and its digest,
  as checksum or by its streamed bytes, and the blob is AVAILABLE afterwards, unless the session of the
  key had ended before. The key must not have been used for a session of other content.
\<close>

theorem prepared_upload_is_attested:
  assumes "svc_prepare_upload U es obs n v sha key d = (Inr p, d')" "committed d"
    and "get_blob d bid = Some b" "bl_sha b = digest_value sha" "bl_state b \<noteq> B_AVAILABLE"
    and "key_uploads d key bid"
  shows "(prp_available p \<longleftrightarrow> (\<exists>info. ob_head obs (bl_object_key b) = Inr (Some info)))
    \<and> (\<forall>info. ob_head obs (bl_object_key b) = Inr (Some info) \<longrightarrow>
         attested obs n b info
         \<and> (\<exists>i. prp_session p = Some i
              \<and> ((\<exists>t. get_blob d' bid = Some (b\<lparr>bl_state := B_AVAILABLE, bl_verified_at := Some t\<rparr>))
                 \<or> (\<exists>u. get_session d i = Some u \<and> us_state u = M_COMPLETED))))"
proof -
  let ?q = "request_fingerprint [uuid_bytes v, digest_raw sha]"
  obtain c d1 where c: "prepare_upload U (es 0) v sha key ?q d = Inr (c, d1)"
    using assms(1)
    by (auto simp: svc_prepare_upload_def svc_bind_def transact_def Let_def split: sum.splits)
  obtain u s where f: "to_blob_record b = Inr (uc_blob c)" "get_blob d1 bid = Some b"
      "uc_session c = Some s" "to_upload_session_record u = Inr s" "get_session d1 (us_id u) = Some u"
      "us_blob_id u = bid" "us_state u \<noteq> M_CREATED \<Longrightarrow> get_session d (us_id u) = Some u"
    using prepare_context [OF c assms(2-6)] by blast
  note r = to_blob_record_Inr [OF f(1)] and us = to_session_Inr [OF f(4)]
  show ?thesis
  proof (cases "ob_head obs (bl_object_key b)")
    case (Inl err)
    then show ?thesis
      using assms(1,5) c r by (auto simp: svc_prepare_upload_def svc_bind_def transact_def Let_def)
  next
    case (Inr found)
    show ?thesis
    proof (cases found)
      case None
      then have "\<not> prp_available p"
        using assms(1,5) c r Inr
        by (auto simp: svc_prepare_upload_def svc_bind_def transact_def Let_def preparation_def
            split: sum.splits if_splits)
      then show ?thesis using Inr None by simp
    next
      case (Some info)
      note unfolded = svc_prepare_upload_def svc_bind_def transact_def Let_def
      show ?thesis
      proof (cases "us_state u = M_CREATED")
        case False
        then have "settle_upload U (es 2) obs n (us_id u) (uc_blob c) info (oi_etag info) d1 = (Inr p, d')"
          using assms(1,5) c r Inr Some f(3) us by (simp add: unfolded)
        from settle_result [OF this f(5)] f(1,2,6) have
          "attested obs n b info \<and> prp_available p \<and> prp_session p = Some (us_id u)
            \<and> (us_state u = M_COMPLETED
               \<or> (\<exists>t. get_blob d' bid = Some (b\<lparr>bl_state := B_AVAILABLE, bl_verified_at := Some t\<rparr>)))"
          by simp
        then show ?thesis using Inr Some f(7) [OF False] by auto
      next
        case True
        then obtain c' d2 where m: "mark_upload_in_progress U (es 1) (us_id u) d1 = Inr (c', d2)"
          using assms(1,5) c r Inr Some f(3) us by (auto simp: unfolded split: sum.splits)
        obtain u' b' s' where st: "b' = b \<or> b' = b\<lparr>bl_state := B_UPLOADING\<rparr>" "to_blob_record b' = Inr (uc_blob c')"
            "get_blob d2 bid = Some b'" "uc_session c' = Some s'" "usr_id s' = us_id u"
            "get_session d2 (us_id u) = Some u'" "us_state u' = M_IN_PROGRESS" "us_blob_id u' = bid"
          by (rule start_context [OF m f(5) True, unfolded f(6), OF f(2)])
        have "usr_state s = S_CREATED" "usr_id s = us_id u" "blr_state (uc_blob c) \<noteq> B_AVAILABLE"
            "ob_head obs (blr_object_key (uc_blob c)) = Inr (Some info)"
          using us True r assms(5) Inr Some by simp_all
        then have "svc_prepare_upload U es obs n v sha key d
            = settle_upload U (es 2) obs n (us_id u) (uc_blob c') info (oi_etag info) d2"
          by (simp add: unfolded c f(3) m [simplified] st(4,5))
        then have "settle_upload U (es 2) obs n (us_id u) (uc_blob c') info (oi_etag info) d2 = (Inr p, d')"
          using assms(1) by metis
        from settle_result [OF this st(6), unfolded st(7,8), OF st(3,2)] have
          "attested obs n b' info \<and> prp_available p \<and> prp_session p = Some (us_id u)
            \<and> (\<exists>t. get_blob d' bid = Some (b'\<lparr>bl_state := B_AVAILABLE, bl_verified_at := Some t\<rparr>))"
          by simp
        moreover have "attested obs n b' info = attested obs n b info"
            "b'\<lparr>bl_state := B_AVAILABLE, bl_verified_at := Some t\<rparr> = b\<lparr>bl_state := B_AVAILABLE, bl_verified_at := Some t\<rparr>" for t
          using st(1) by (auto simp: attested_def split: option.splits sum.splits)
        ultimately show ?thesis using Inr Some by simp
      qed
    qed
  qed
qed

lemma sample_put_prepares:
  assumes "sha_text (digest_value q)"
  shows "\<exists>c d1 s c' d2.
    prepare_upload ascii_unicode sample_env 2 (Sha256Digest sample_sha) [107] q sample_put = Inr (c, d1)
    \<and> to_blob_record (sample_blob B_UPLOADING 7) = Inr (uc_blob c)
    \<and> uc_session c = Some s \<and> usr_id s = 4 \<and> usr_state s \<noteq> S_CREATED
    \<and> mark_upload_verified ascii_unicode sample_env 4 None d1 = Inr (c', d2)"
proof -
  obtain rb where rb: "to_blob_record (sample_blob B_UPLOADING 7) = Inr rb"
    using sample_record_ok(1) by blast
  obtain w where w: "to_version_record ascii_unicode (sample_version V_UPLOADING 7) [100] = Inr w"
    using sample_record_ok(2) by auto
  obtain su where su: "to_upload_session_record (sample_single_put M_IN_PROGRESS) = Inr su"
    by (simp add: to_upload_session_record_def require_single_put_def session_state_of_def sample_put_columns)
  have more: "joined sample_put 2 = [(sample_entry, sample_blob B_UPLOADING 7)]"
      "sessions_of sample_put 3 = [sample_single_put M_IN_PROGRESS]" "get_idem sample_put sc k = None"
      "bl_id (sample_blob B_UPLOADING 7) = 3" "bl_sha (sample_blob B_UPLOADING 7) = sample_sha"
      "us_id (sample_single_put M_IN_PROGRESS) = 4" for sc k
    by (simp_all add: sample_put_def sample_db_def get_defs joined_def entries_of_def sessions_of_def)
       (simp_all add: sample_rows empty_db_def)
  let ?r = "upload_idem [107] q 4 (env_wall sample_env (Suc 0))"
  let ?d1 = "sample_put\<lparr>db_idem := [?r]\<rparr>"
  have "insert_idem ?r sample_put = Inr ?d1"
    using assms
    by (simp add: insert_idem_def guard_m2_idempotency_def check_idem_def m2_scopes_def varchar_def
        int4_def sample_put_def sample_db_def empty_db_def upload_idem_def)
  moreover have "commit t x ?d1 = Inr (x, ?d1)" for t and x :: upload_context
    by (simp add: commit_def sample_put_def sample_db_def empty_db_def)
  ultimately have "prepare_upload ascii_unicode sample_env 2 (Sha256Digest sample_sha) [107] q sample_put
      = Inr (\<lparr>uc_version = w, uc_blob = rb, uc_session = Some su\<rparr>, ?d1)"
    by (simp add: prepare_upload_def sample_put_rows more sample_put_columns find_or_start_upload_def
        require_single_put_def mk_upload_context_def rb w su)
  then show ?thesis
    using sample_mark [of "[?r]"] rb to_session_Inr [OF su] more sample_put_columns by auto
qed

theorem prepared_upload_is_attested_witness:
  "\<exists>p d' t. svc_prepare_upload ascii_unicode (\<lambda>_. sample_env) (sample_objects (Some sample_info)) 1 2
     (Sha256Digest sample_sha) [107] sample_put = (Inr p, d')
     \<and> prp_available p
     \<and> get_blob d' 3 = Some ((sample_blob B_UPLOADING 7)\<lparr>bl_state := B_AVAILABLE, bl_verified_at := Some t\<rparr>)"
proof -
  obtain c d1 s c' d2 where c:
    "prepare_upload ascii_unicode sample_env 2 (Sha256Digest sample_sha) [107]
       (request_fingerprint [uuid_bytes 2, digest_raw (Sha256Digest sample_sha)]) sample_put = Inr (c, d1)"
    "to_blob_record (sample_blob B_UPLOADING 7) = Inr (uc_blob c)"
    "uc_session c = Some s" "usr_id s = 4" "usr_state s \<noteq> S_CREATED"
    "mark_upload_verified ascii_unicode sample_env 4 None d1 = Inr (c', d2)"
    using sample_put_prepares digest_sha_text
    by (metis request_fingerprint_def content_digest_def sha256_digest.sel)
  have r: "blr_state (uc_blob c) \<noteq> B_AVAILABLE" "blr_size (uc_blob c) = 7"
      "blr_sha (uc_blob c) = Sha256Digest sample_sha"
    using to_blob_record_Inr [OF c(2)] sample_record_ok(1) [of B_UPLOADING 7] c(2) by (auto simp: sample_rows)
  have v: "verify_object (sample_objects (Some sample_info)) 1 (uc_blob c) sample_info = Inr ()"
    by (simp add: verify_object_def sample_info_def r)
  have call: "svc_prepare_upload ascii_unicode (\<lambda>_. sample_env) (sample_objects (Some sample_info)) 1 2
     (Sha256Digest sample_sha) [107] sample_put = (Inr (preparation c' True), d2)"
    using c(1,3-6) v r(1)
    by (simp add: svc_prepare_upload_def svc_bind_def transact_def settle_upload_def sample_objects_def
        sample_info_def Let_def)
  have "committed sample_put"
    unfolding sample_put_def by (rule sample_committed) (simp_all, simp_all add: sample_rows)
  moreover have "key_uploads sample_put [107] 3"
    by (simp add: key_uploads_def get_idem_def sample_put_def sample_db_def empty_db_def)
  ultimately have "(\<exists>t. get_blob d2 3 = Some ((sample_blob B_UPLOADING 7)\<lparr>bl_state := B_AVAILABLE, bl_verified_at := Some t\<rparr>))
      \<or> (\<exists>i u. get_session sample_put i = Some u \<and> us_state u = M_COMPLETED)"
    using prepared_upload_is_attested [OF call _ sample_put_rows(2)]
    by (fastforce simp: sample_objects_def sample_blob_def)
  moreover have "us_state u \<noteq> M_COMPLETED" if "get_session sample_put i = Some u" for i u
    using that by (auto simp: sample_put_def sample_db_def empty_db_def get_session_def sample_rows split: if_splits)
  ultimately show ?thesis using call by (auto simp: preparation_def)
qed

end
