(* ===== verification/Provider.thy ===== *)
theory Provider
  imports TransferRules
begin

text \<open>
  The adapters of the object storage: \<^verbatim>\<open>robolake/infrastructure/multipart_storage.py\<close> and
  \<^verbatim>\<open>object_storage.py\<close>, with the value classes of \<^verbatim>\<open>application/contracts.py\<close> they build. The
  S3 client is a parameter, a function of the operation and its arguments. What it answers is
  untrusted, so the adapters check the Python type of every value they read.
\<close>

section \<open>Answers of the S3 client\<close>

text \<open>
  A value in a response; a \<^verbatim>\<open>bool\<close> is not an \<^verbatim>\<open>int\<close> for \<^verbatim>\<open>type(x) is int\<close>. \<open>PyOther\<close> is any value
  that is none of the others and equals none of them.
\<close>

datatype pyval =
    PyNone
  | PyBool bool
  | PyInt int
  | PyStr ustr
  | PyTime datetime
  | PyList "pyval list"
  | PyMap "(ustr \<times> pyval) list"
  | PyOther

definition get_or :: "pyval \<Rightarrow> string \<Rightarrow> (ustr \<times> pyval) list \<Rightarrow> pyval" where
  "get_or missing k m = (case map_of m (lit k) of None \<Rightarrow> missing | Some v \<Rightarrow> v)"

abbreviation get_key :: "string \<Rightarrow> (ustr \<times> pyval) list \<Rightarrow> pyval" where
  "get_key \<equiv> get_or PyNone"

text \<open>
  How a call ends: with a response, with a \<^verbatim>\<open>ClientError\<close> of which the adapters read the error
  code as text and the HTTP status, or with a \<^verbatim>\<open>BotoCoreError\<close>.
\<close>

datatype 'a reply =
    Reply 'a
  | ClientError ustr pyval
  | CoreError

type_synonym s3_client = "string \<Rightarrow> (ustr \<times> pyval) list \<Rightarrow> pyval reply"

definition provider_status :: "pyval \<Rightarrow> int option" where
  "provider_status status = (case status of PyInt n \<Rightarrow> Some n | _ \<Rightarrow> None)"

definition client_failure :: "pyval \<Rightarrow> error" where
  "client_failure status =
     (case provider_status status of
        Some n \<Rightarrow> (if 500 \<le> n then TransientProviderFailureError else ProviderOperationRejectedError)
      | None \<Rightarrow> ProviderOperationRejectedError)"

definition has_control_character :: "ustr \<Rightarrow> bool" where
  "has_control_character s = (\<exists>c \<in> set s. is_Cc c)"

section \<open>Values of the contract\<close>

datatype provider_upload_id = ProviderUploadId (pui_value: ustr)

definition mk_provider_upload_id :: "ustr \<Rightarrow> provider_upload_id res" where
  "mk_provider_upload_id value =
     (if value = [] \<or> has_control_character value then Inl ProviderContractError
      else Inr (ProviderUploadId value))"

record upload_part_capability =
  upc_number :: int
  upc_size :: int
  upc_sha :: sha256_digest
  upc_request :: presigned_request
  upc_expires_at :: datetime

definition same_dict :: "(ustr \<times> ustr) list \<Rightarrow> (ustr \<times> ustr) list \<Rightarrow> bool" where
  "same_dict xs ys = (set (dict_of xs) = set (dict_of ys))"

definition part_headers :: "int \<Rightarrow> ustr \<Rightarrow> (ustr \<times> ustr) list" where
  "part_headers nbytes checksum =
     [(lit ''Content-Length'', int_str nbytes), (lit ''x-amz-checksum-sha256'', checksum)]"

definition mk_capability ::
    "int \<Rightarrow> int \<Rightarrow> sha256_digest \<Rightarrow> presigned_request \<Rightarrow> datetime \<Rightarrow> upload_part_capability res" where
  "mk_capability number nbytes sha request expires_at =
     (if \<not> (1 \<le> number \<and> number \<le> MAX_PARTS) \<or> nbytes \<le> 0 \<or> require_aware expires_at \<noteq> Inr ()
      then Inl ProviderContractError
      else if \<not> same_dict (psr_headers request) (part_headers nbytes (checksum_base64 sha))
      then Inl ProviderContractError
      else Inr \<lparr>upc_number = number, upc_size = nbytes, upc_sha = sha, upc_request = request,
                upc_expires_at = expires_at\<rparr>)"

record listed_part =
  lp_number :: int
  lp_size :: int
  lp_etag :: ustr
  lp_checksum :: ustr
  lp_modified_at :: "datetime option"

definition mk_listed_part ::
    "int \<Rightarrow> int \<Rightarrow> ustr \<Rightarrow> ustr \<Rightarrow> datetime option \<Rightarrow> listed_part res" where
  "mk_listed_part number nbytes etag checksum modified_at =
     (if \<not> (1 \<le> number \<and> number \<le> MAX_PARTS) \<or> nbytes \<le> 0 \<or> etag = []
         \<or> (case modified_at of None \<Rightarrow> False | Some t \<Rightarrow> require_aware t \<noteq> Inr ())
      then Inl ProviderContractError
      else
        case sha256_base64_to_digest checksum of
          Inl e \<Rightarrow> (if e = PartChecksumRejectedError then Inl ProviderContractError else Inl e)
        | Inr _ \<Rightarrow>
            Inr \<lparr>lp_number = number, lp_size = nbytes, lp_etag = etag, lp_checksum = checksum,
                 lp_modified_at = modified_at\<rparr>)"

datatype completion_outcome = COMPLETED | PRECONDITION_LOST | CONDITIONAL_CONFLICT

datatype abort_outcome = ABORTED | ALREADY_ABSENT

record final_object =
  fo_exists :: bool
  fo_size :: "int option"
  fo_etag :: "ustr option"
  fo_checksum :: "ustr option"
  fo_checksum_type :: "ustr option"

definition mk_final_object ::
    "bool \<Rightarrow> int option \<Rightarrow> ustr option \<Rightarrow> ustr option \<Rightarrow> ustr option \<Rightarrow> final_object res" where
  "mk_final_object present nbytes etag checksum kind =
     (let r = \<lparr>fo_exists = present, fo_size = nbytes, fo_etag = etag, fo_checksum = checksum,
               fo_checksum_type = kind\<rparr>
      in if \<not> present
         then (if nbytes \<noteq> None \<or> etag \<noteq> None \<or> checksum \<noteq> None \<or> kind \<noteq> None
               then Inl ProviderContractError else Inr r)
         else if (case nbytes of None \<Rightarrow> True | Some n \<Rightarrow> n < 0) \<or> etag = None \<or> etag = Some []
         then Inl ProviderContractError else Inr r)"

section \<open>Starting an upload\<close>

definition create_request :: "ustr \<Rightarrow> ustr \<Rightarrow> (ustr \<times> pyval) list" where
  "create_request bucket key =
     [(lit ''Bucket'', PyStr bucket), (lit ''Key'', PyStr key),
      (lit ''ChecksumAlgorithm'', PyStr (lit ''SHA256''))]"

definition s3_create_multipart :: "s3_client \<Rightarrow> ustr \<Rightarrow> ustr \<Rightarrow> provider_upload_id res" where
  "s3_create_multipart s3 bucket key =
     (case s3 ''create_multipart_upload'' (create_request bucket key) of
        ClientError _ status \<Rightarrow>
          (if 500 \<le> (case provider_status status of Some n \<Rightarrow> n | None \<Rightarrow> 0)
           then Inl MultipartInitiationAmbiguousError else Inl ProviderOperationRejectedError)
      | CoreError \<Rightarrow> Inl MultipartInitiationAmbiguousError
      | Reply (PyMap response) \<Rightarrow>
          (case get_key ''UploadId'' response of
             PyStr upload_id \<Rightarrow> mk_provider_upload_id upload_id
           | _ \<Rightarrow> Inl ProviderContractError)
      | Reply _ \<Rightarrow> Inl ProviderContractError)"

section \<open>Signed requests\<close>

text \<open>
  \<^verbatim>\<open>urllib.parse.urlsplit\<close> on a text without control characters, as far as the adapter reads
  it: the scheme and the network location. \<open>host_ok\<close> stands for the library's refusal of
  bracketed hosts that are no addresses and of hosts that normalise to other separators.
\<close>

definition scheme_char :: "codepoint \<Rightarrow> bool" where
  "scheme_char c =
     (97 \<le> c \<and> c \<le> 122 \<or> 65 \<le> c \<and> c \<le> 90 \<or> 48 \<le> c \<and> c \<le> 57 \<or> c \<in> {43, 45, 46})"

definition split_scheme :: "ustr \<Rightarrow> ustr \<times> ustr" where
  "split_scheme url =
     (let s = takeWhile (\<lambda>c. c \<noteq> 58) url; rest = dropWhile (\<lambda>c. c \<noteq> 58) url
      in if s \<noteq> [] \<and> rest \<noteq> [] \<and> (97 \<le> hd s \<and> hd s \<le> 122 \<or> 65 \<le> hd s \<and> hd s \<le> 90)
            \<and> (\<forall>c \<in> set s. scheme_char c)
         then (map ascii_lower s, tl rest) else ([], url))"

definition net_location :: "ustr \<Rightarrow> ustr" where
  "net_location rest =
     (if starts_with (lit ''//'') rest then takeWhile (\<lambda>c. c \<notin> {47, 63, 35}) (drop 2 rest) else [])"

definition is_safe_capability_url :: "(ustr \<Rightarrow> bool) \<Rightarrow> pyval \<Rightarrow> bool" where
  "is_safe_capability_url host_ok v =
     (case v of
        PyStr url \<Rightarrow>
          (if url = [] \<or> has_control_character url then False
           else
             case split_scheme (dropWhile (\<lambda>c. c = 32) url) of
               (scheme, rest) \<Rightarrow>
                 (let host = net_location rest
                  in if (91 \<in> set host) \<noteq> (93 \<in> set host) \<or> \<not> host_ok host then False
                     else scheme \<in> {lit ''http'', lit ''https''} \<and> host \<noteq> []))
      | _ \<Rightarrow> False)"

type_synonym signer = "string \<Rightarrow> (ustr \<times> pyval) list \<Rightarrow> int \<Rightarrow> string \<Rightarrow> pyval reply"

definition part_request :: "ustr \<Rightarrow> ustr \<Rightarrow> provider_upload_id \<Rightarrow> int \<Rightarrow> int \<Rightarrow> ustr \<Rightarrow> (ustr \<times> pyval) list" where
  "part_request bucket key u number nbytes checksum =
     [(lit ''Bucket'', PyStr bucket), (lit ''Key'', PyStr key), (lit ''UploadId'', PyStr (pui_value u)),
      (lit ''PartNumber'', PyInt number), (lit ''ContentLength'', PyInt nbytes),
      (lit ''ChecksumSHA256'', PyStr checksum)]"

definition presign_upload_part ::
    "(ustr \<Rightarrow> bool) \<Rightarrow> signer \<Rightarrow> int \<Rightarrow> ustr \<Rightarrow> ustr \<Rightarrow> provider_upload_id \<Rightarrow> int \<Rightarrow> int \<Rightarrow> ustr \<Rightarrow> int
     \<Rightarrow> upload_part_capability res" where
  "presign_upload_part host_ok sign now bucket key u number nbytes checksum expires =
     (if \<not> (1 \<le> number \<and> number \<le> 10000) \<or> nbytes \<le> 0 \<or> expires \<le> 0 then Inl ProviderContractError
      else
        case sha256_base64_to_digest checksum of
          Inl e \<Rightarrow> (if e = PartChecksumRejectedError then Inl ProviderContractError else Inl e)
        | Inr sha \<Rightarrow>
            (case sign ''upload_part'' (part_request bucket key u number nbytes checksum) expires ''PUT'' of
               CoreError \<Rightarrow> Inl ProviderContractError
             | ClientError _ _ \<Rightarrow> Inl StorageError
             | Reply v \<Rightarrow>
                 (case v of
                    PyStr url \<Rightarrow>
                      (if \<not> is_safe_capability_url host_ok v then Inl ProviderContractError
                       else mk_capability number nbytes sha
                              \<lparr>psr_url = url, psr_headers = part_headers nbytes checksum\<rparr>
                              (Aware (now + seconds expires)))
                  | _ \<Rightarrow> Inl ProviderContractError)))"

section \<open>Listing the parts\<close>

definition parse_listed_part :: "pyval \<Rightarrow> listed_part res" where
  "parse_listed_part raw =
     (case raw of
        PyMap m \<Rightarrow>
          (case (get_key ''PartNumber'' m, get_key ''Size'' m, get_key ''ETag'' m,
                 get_key ''ChecksumSHA256'' m) of
             (PyInt number, PyInt nbytes, PyStr etag, PyStr checksum) \<Rightarrow>
               (case get_key ''LastModified'' m of
                  PyNone \<Rightarrow> mk_listed_part number nbytes etag checksum None
                | PyTime t \<Rightarrow> mk_listed_part number nbytes etag checksum (Some t)
                | _ \<Rightarrow> Inl ProviderContractError)
           | _ \<Rightarrow> Inl ProviderContractError)
      | _ \<Rightarrow> Inl ProviderContractError)"

text \<open>The loop over the parts of one page; \<open>observed\<close> is the dict of the parts seen so far.\<close>

fun observe_parts :: "listed_part list \<Rightarrow> pyval list \<Rightarrow> listed_part list res" where
  "observe_parts observed [] = Inr observed"
| "observe_parts observed (raw # raws) =
     (case parse_listed_part raw of
        Inl e \<Rightarrow> Inl e
      | Inr part \<Rightarrow>
          (if lp_number part \<in> lp_number ` set observed then Inl ProviderContractError
           else observe_parts (observed @ [part]) raws))"

definition list_request :: "ustr \<Rightarrow> ustr \<Rightarrow> provider_upload_id \<Rightarrow> int option \<Rightarrow> (ustr \<times> pyval) list" where
  "list_request bucket key u marker =
     [(lit ''Bucket'', PyStr bucket), (lit ''Key'', PyStr key), (lit ''UploadId'', PyStr (pui_value u))]
     @ (case marker of None \<Rightarrow> [] | Some n \<Rightarrow> [(lit ''PartNumberMarker'', PyInt n)])"

text \<open>One page: its raw parts and, unless it is the last one, the value of the next marker.\<close>

definition read_page :: "pyval reply \<Rightarrow> (pyval list \<times> pyval option) res" where
  "read_page answered =
     (case answered of
        ClientError code status \<Rightarrow>
          (if code = lit ''NoSuchUpload'' then Inl MultipartSessionNotFoundError
           else Inl (client_failure status))
      | CoreError \<Rightarrow> Inl TransientProviderFailureError
      | Reply (PyMap response) \<Rightarrow>
          (case (get_or (PyList []) ''Parts'' response, get_key ''IsTruncated'' response) of
             (PyList parts, PyBool truncated) \<Rightarrow>
               Inr (parts, if truncated then Some (get_key ''NextPartNumberMarker'' response) else None)
           | _ \<Rightarrow> Inl ProviderContractError)
      | Reply _ \<Rightarrow> Inl ProviderContractError)"

definition next_marker :: "int list \<Rightarrow> int option \<Rightarrow> pyval \<Rightarrow> int res" where
  "next_marker seen marker v =
     (case v of
        PyInt n \<Rightarrow>
          (if n \<le> 0 \<or> n \<in> set seen \<or> (case marker of None \<Rightarrow> False | Some m \<Rightarrow> n \<le> m)
           then Inl ProviderContractError else Inr n)
      | _ \<Rightarrow> Inl ProviderContractError)"

text \<open>
  The loop over the pages. It may run for ever, so its value is an option: \<open>None\<close> when it does.
  A marker is never asked for twice, so a client that is a function of the request loses nothing.
\<close>

partial_function (option) list_loop ::
    "(int option \<Rightarrow> pyval reply) \<Rightarrow> int option \<Rightarrow> int list \<Rightarrow> listed_part list \<Rightarrow> listed_part list res option" where
  "list_loop page marker seen observed =
     (case read_page (page marker) of
        Inl e \<Rightarrow> Some (Inl e)
      | Inr (raws, further) \<Rightarrow>
          (case observe_parts observed raws of
             Inl e \<Rightarrow> Some (Inl e)
           | Inr observed' \<Rightarrow>
               (case further of
                  None \<Rightarrow> Some (Inr observed')
                | Some v \<Rightarrow>
                    (case next_marker seen marker v of
                       Inl e \<Rightarrow> Some (Inl e)
                     | Inr n \<Rightarrow> list_loop page (Some n) (n # seen) observed'))))"

definition list_parts :: "s3_client \<Rightarrow> ustr \<Rightarrow> ustr \<Rightarrow> provider_upload_id \<Rightarrow> listed_part list res option" where
  "list_parts s3 bucket key u =
     map_option (map_sum id (sort_key lp_number))
       (list_loop (\<lambda>marker. s3 ''list_parts'' (list_request bucket key u marker)) None [] [])"

section \<open>Completing, aborting and inspecting\<close>

definition complete_request ::
    "ustr \<Rightarrow> ustr \<Rightarrow> provider_upload_id \<Rightarrow> completed_part_receipt list \<Rightarrow> (ustr \<times> pyval) list" where
  "complete_request bucket key u ordered =
     [(lit ''Bucket'', PyStr bucket), (lit ''Key'', PyStr key), (lit ''UploadId'', PyStr (pui_value u)),
      (lit ''MultipartUpload'',
       PyMap [(lit ''Parts'',
               PyList (map (\<lambda>r. PyMap [(lit ''PartNumber'', PyInt (cpr_number r)),
                                        (lit ''ETag'', PyStr (cpr_etag r)),
                                        (lit ''ChecksumSHA256'', PyStr (cpr_checksum r))]) ordered))]),
      (lit ''IfNoneMatch'', PyStr (lit ''*''))]"

text \<open>\<^verbatim>\<open>metadata.get("HTTPStatusCode")\<close> of a response.\<close>

definition response_status :: "(ustr \<times> pyval) list \<Rightarrow> pyval option" where
  "response_status response =
     (case get_key ''ResponseMetadata'' response of
        PyMap metadata \<Rightarrow> Some (get_key ''HTTPStatusCode'' metadata)
      | _ \<Rightarrow> None)"

definition completion_answer :: "pyval reply \<Rightarrow> completion_outcome res" where
  "completion_answer answered =
     (case answered of
        ClientError code st \<Rightarrow>
          (let status = provider_status st
           in if code = lit ''NoSuchUpload'' then Inl MultipartSessionNotFoundError
              else if status = Some 412 \<or> code \<in> {lit ''PreconditionFailed'', lit ''ConditionalRequestFailed''}
              then Inr PRECONDITION_LOST
              else if status = Some 409 \<or> code = lit ''ConditionalRequestConflict''
              then Inr CONDITIONAL_CONFLICT
              else if status = Some 200 \<or> (case status of None \<Rightarrow> False | Some n \<Rightarrow> 500 \<le> n)
              then Inl MultipartCompletionAmbiguousError
              else Inl ProviderOperationRejectedError)
      | CoreError \<Rightarrow> Inl MultipartCompletionAmbiguousError
      | Reply (PyMap response) \<Rightarrow>
          (case get_key ''ETag'' response of
             PyStr _ \<Rightarrow>
               (if response_status response = Some (PyInt 200) then Inr COMPLETED
                else Inl ProviderContractError)
           | _ \<Rightarrow> Inl ProviderContractError)
      | Reply _ \<Rightarrow> Inl ProviderContractError)"

definition complete_multipart ::
    "s3_client \<Rightarrow> ustr \<Rightarrow> ustr \<Rightarrow> provider_upload_id \<Rightarrow> completed_part_receipt list \<Rightarrow> completion_outcome res" where
  "complete_multipart s3 bucket key u parts =
     (let ordered = sort_key cpr_number parts
      in if \<exists>r \<in> set ordered. cpr_etag r = [] \<or> has_control_character (cpr_etag r)
         then Inl ProviderContractError
         else if ordered = [] \<or> map cpr_number ordered \<noteq> [1..int (length ordered)]
         then Inl ProviderContractError
         else completion_answer (s3 ''complete_multipart_upload'' (complete_request bucket key u ordered)))"

definition abort_request :: "ustr \<Rightarrow> ustr \<Rightarrow> provider_upload_id \<Rightarrow> (ustr \<times> pyval) list" where
  "abort_request bucket key u =
     [(lit ''Bucket'', PyStr bucket), (lit ''Key'', PyStr key), (lit ''UploadId'', PyStr (pui_value u))]"

text \<open>A list or a mapping as status is not hashable, so the membership test raises \<^verbatim>\<open>TypeError\<close>.\<close>

definition abort_multipart :: "s3_client \<Rightarrow> ustr \<Rightarrow> ustr \<Rightarrow> provider_upload_id \<Rightarrow> abort_outcome res" where
  "abort_multipart s3 bucket key u =
     (case s3 ''abort_multipart_upload'' (abort_request bucket key u) of
        ClientError code st \<Rightarrow>
          (if code = lit ''NoSuchUpload'' then Inr ALREADY_ABSENT
           else
             case provider_status st of
               None \<Rightarrow> Inl MultipartAbortAmbiguousError
             | Some n \<Rightarrow> (if 500 \<le> n then Inl MultipartAbortAmbiguousError
                          else Inl ProviderOperationRejectedError))
      | CoreError \<Rightarrow> Inl MultipartAbortAmbiguousError
      | Reply (PyMap response) \<Rightarrow>
          (case response_status response of
             None \<Rightarrow> Inl ProviderContractError
           | Some (PyList _) \<Rightarrow> Inl PyTypeError
           | Some (PyMap _) \<Rightarrow> Inl PyTypeError
           | Some v \<Rightarrow> (if v \<in> {PyInt 200, PyInt 204} then Inr ABORTED else Inl ProviderContractError))
      | Reply _ \<Rightarrow> Inl ProviderContractError)"

definition optional_text :: "pyval \<Rightarrow> ustr option res" where
  "optional_text v =
     (case v of PyNone \<Rightarrow> Inr None | PyStr s \<Rightarrow> Inr (Some s) | _ \<Rightarrow> Inl ProviderContractError)"

definition head_request :: "ustr \<Rightarrow> ustr \<Rightarrow> (ustr \<times> pyval) list" where
  "head_request bucket key =
     [(lit ''Bucket'', PyStr bucket), (lit ''Key'', PyStr key), (lit ''ChecksumMode'', PyStr (lit ''ENABLED''))]"

definition missing_codes :: "ustr list" where
  "missing_codes = [lit ''404'', lit ''NoSuchKey'', lit ''NotFound'']"

definition inspect_final_object :: "s3_client \<Rightarrow> ustr \<Rightarrow> ustr \<Rightarrow> final_object res" where
  "inspect_final_object s3 bucket key =
     (case s3 ''head_object'' (head_request bucket key) of
        ClientError code st \<Rightarrow>
          (if code \<in> set missing_codes then mk_final_object False None None None None
           else Inl (client_failure st))
      | CoreError \<Rightarrow> Inl TransientProviderFailureError
      | Reply (PyMap response) \<Rightarrow>
          (case (get_key ''ContentLength'' response, get_key ''ETag'' response) of
             (PyInt n, PyStr etag) \<Rightarrow>
               (if n < 0 then Inl ProviderContractError
                else
                  res_bind (optional_text (get_key ''ChecksumSHA256'' response)) (\<lambda>checksum.
                  res_bind (optional_text (get_key ''ChecksumType'' response)) (\<lambda>kind.
                    mk_final_object True (Some n) (Some etag) checksum kind)))
           | _ \<Rightarrow> Inl ProviderContractError)
      | Reply _ \<Rightarrow> Inl ProviderContractError)"

section \<open>Receipts of uploaded parts\<close>

definition parse_upload_part_response ::
    "int \<Rightarrow> pyval \<Rightarrow> pyval \<Rightarrow> sha256_digest \<Rightarrow> completed_part_receipt res" where
  "parse_upload_part_response number status response expected =
     (case (status, response) of
        (PyInt n, PyMap m) \<Rightarrow>
          (if n \<noteq> 200 then Inl ProviderContractError
           else
             case (get_key ''ETag'' m, get_key ''ChecksumSHA256'' m) of
               (PyStr etag, PyStr checksum) \<Rightarrow>
                 (if etag = [] \<or> has_control_character etag then Inl ProviderContractError
                  else
                    case receipt_from_upload_response number etag checksum expected of
                      Inl e \<Rightarrow> (if e \<in> {ContentConflictError, PartChecksumRejectedError}
                                then Inl ProviderContractError else Inl e)
                    | Inr r \<Rightarrow> Inr r)
             | _ \<Rightarrow> Inl ProviderContractError)
      | _ \<Rightarrow> Inl ProviderContractError)"

section \<open>A listing is what the pages say\<close>

text \<open>
  The pages of a listing, read without a loop: markers are positive and increase, and only the
  last page is not truncated.
\<close>

inductive paged :: "(int option \<Rightarrow> pyval reply) \<Rightarrow> int option \<Rightarrow> pyval list list \<Rightarrow> bool"
  for page where
  last_page: "read_page (page m) = Inr (raws, None) \<Longrightarrow> paged page m [raws]"
| next_page: "read_page (page m) = Inr (raws, Some (PyInt n)) \<Longrightarrow> 0 < n \<Longrightarrow> (\<And>k. m = Some k \<Longrightarrow> k < n)
    \<Longrightarrow> paged page (Some n) rest \<Longrightarrow> paged page m (raws # rest)"

definition parts_read :: "pyval list \<Rightarrow> listed_part list \<Rightarrow> bool" where
  "parts_read raws os = (res_map parse_listed_part raws = Inr os)"

lemma parts_read_simps [simp]:
  "parts_read [] os \<longleftrightarrow> os = []"
  "parts_read (raw # raws) os \<longleftrightarrow> (\<exists>p ps. parse_listed_part raw = Inr p \<and> parts_read raws ps \<and> os = p # ps)"
  by (auto simp: parts_read_def split: sum.splits)

lemma parts_read_append:
  "parts_read (xs @ ys) os \<longleftrightarrow> (\<exists>as bs. parts_read xs as \<and> parts_read ys bs \<and> os = as @ bs)"
proof (induction xs arbitrary: os)
  case (Cons raw xs)
  show ?case
    by (cases "parse_listed_part raw") (simp_all add: Cons.IH, metis append_Cons)
qed simp

lemma observe_parts_iff:
  "distinct (map lp_number observed) \<Longrightarrow>
   observe_parts observed raws = Inr out \<longleftrightarrow>
     (\<exists>os. parts_read raws os \<and> out = observed @ os \<and> distinct (map lp_number (observed @ os)))"
proof (induction raws arbitrary: observed)
  case (Cons raw raws)
  show ?case
  proof (cases "parse_listed_part raw")
    case (Inr p)
    show ?thesis
    proof (cases "lp_number p \<in> lp_number ` set observed")
      case False
      then have "distinct (map lp_number (observed @ [p]))" using Cons.prems by simp
      from Cons.IH [OF this] show ?thesis using False Inr by auto
    qed (use Inr in auto)
  qed auto
qed auto

lemma next_marker_Inr:
  "next_marker seen m v = Inr n \<longleftrightarrow> v = PyInt n \<and> 0 < n \<and> n \<notin> set seen \<and> (\<forall>k. m = Some k \<longrightarrow> k < n)"
  by (auto simp: next_marker_def split: pyval.splits option.splits)

lemma list_loop_sound:
  assumes "list_loop page m seen observed = Some r" "r = Inr out" "distinct (map lp_number observed)"
  shows "\<exists>pages os. paged page m pages \<and> parts_read (concat pages) os \<and> out = observed @ os
    \<and> distinct (map lp_number out)"
  using assms(2,3)
proof (induction arbitrary: out rule: list_loop.raw_induct [OF _ assms(1)])
  case (1 loop page m seen observed r)
  obtain raws further where p: "read_page (page m) = Inr (raws, further)"
    using 1(2,3) by (auto split: sum.splits)
  obtain o1 where o: "observe_parts observed raws = Inr o1"
    using 1(2,3) p by (auto split: sum.splits)
  then obtain os where os: "parts_read raws os" "o1 = observed @ os" "distinct (map lp_number o1)"
    using observe_parts_iff [OF 1(4)] by auto
  show ?case
  proof (cases further)
    case None
    then show ?thesis using 1(2,3) p o os by (auto intro!: exI [of _ "[raws]"] last_page)
  next
    case (Some v)
    then obtain n where n: "next_marker seen m v = Inr n" "loop page (Some n) (n # seen) o1 = Some r"
      using 1(2,3) p o by (auto split: sum.splits)
    from 1(1) [OF n(2) 1(3) os(3)] obtain pages os' where
      "paged page (Some n) pages" "parts_read (concat pages) os'" "out = o1 @ os'" "distinct (map lp_number out)"
      by blast
    then have "paged page m (raws # pages)" "parts_read (concat (raws # pages)) (os @ os')" "out = observed @ os @ os'"
      using n(1) p Some os by (auto simp: next_marker_Inr parts_read_append intro!: next_page)
    then show ?thesis using \<open>distinct (map lp_number out)\<close> by blast
  qed
qed

lemma list_loop_complete:
  "paged page m pages \<Longrightarrow> parts_read (concat pages) os \<Longrightarrow> distinct (map lp_number (observed @ os)) \<Longrightarrow>
   \<forall>k \<in> set seen. \<exists>j. m = Some j \<and> k \<le> j \<Longrightarrow>
   list_loop page m seen observed = Some (Inr (observed @ os))"
proof (induction arbitrary: observed seen os rule: paged.induct)
  case (last_page m raws)
  then show ?case
    using observe_parts_iff [of observed raws "observed @ os"]
    by (subst list_loop.simps) auto
next
  case (next_page m raws n rest)
  obtain as bs where o: "parts_read raws as" "parts_read (concat rest) bs" "os = as @ bs"
    using next_page.prems(1) by (auto simp: parts_read_append)
  have "observe_parts observed raws = Inr (observed @ as)"
    using observe_parts_iff [of observed raws "observed @ as"] next_page.prems(2) o by auto
  moreover have "next_marker seen m (PyInt n) = Inr n"
    using next_page.hyps(2,3) next_page.prems(3) by (fastforce simp: next_marker_Inr)
  moreover have "list_loop page (Some n) (n # seen) (observed @ as) = Some (Inr ((observed @ as) @ bs))"
    using next_page.hyps(3) next_page.prems(2,3) o
    by (intro next_page.IH) (fastforce simp: less_imp_le)+
  ultimately show ?case
    using next_page.hyps(1) o(3) by (subst list_loop.simps) simp
qed

text \<open>
  C29: A listing of parts is exactly what the pages of the provider hold: it succeeds with a result
  if and only if the pages, followed along increasing markers to the first one that is not
  truncated, hold only valid parts with pairwise distinct numbers, and then the result is those
  parts by number.
\<close>

theorem listing_is_what_pages_hold:
  "list_parts s3 bucket key u = Some (Inr ps) \<longleftrightarrow>
     (\<exists>pages os. paged (\<lambda>m. s3 ''list_parts'' (list_request bucket key u m)) None pages
        \<and> parts_read (concat pages) os \<and> distinct (map lp_number os) \<and> ps = sort_key lp_number os)"
proof
  assume "list_parts s3 bucket key u = Some (Inr ps)"
  then obtain out where
    "list_loop (\<lambda>m. s3 ''list_parts'' (list_request bucket key u m)) None [] [] = Some (Inr out)"
    "ps = sort_key lp_number out"
    by (auto simp: list_parts_def elim: sum.exhaust split: sum.splits) (metis Inl_Inr_False map_sum.simps(1) sum.inject(2) old.sum.exhaust map_sum.simps(2))
  then show "\<exists>pages os. paged (\<lambda>m. s3 ''list_parts'' (list_request bucket key u m)) None pages
        \<and> parts_read (concat pages) os \<and> distinct (map lp_number os) \<and> ps = sort_key lp_number os"
    using list_loop_sound [of _ None "[]" "[]"] by fastforce
next
  assume "\<exists>pages os. paged (\<lambda>m. s3 ''list_parts'' (list_request bucket key u m)) None pages
        \<and> parts_read (concat pages) os \<and> distinct (map lp_number os) \<and> ps = sort_key lp_number os"
  then show "list_parts s3 bucket key u = Some (Inr ps)"
    using list_loop_complete [of _ None _ _ "[]" "[]"] by (fastforce simp: list_parts_def)
qed

section \<open>A listing ends\<close>

lemma parse_listed_part_number: "parse_listed_part raw = Inr p \<Longrightarrow> lp_number p \<in> {1..10000}"
  by (auto simp: parse_listed_part_def mk_listed_part_def MAX_PARTS_def
      split: pyval.splits if_splits sum.splits)

lemma parts_read_numbers: "parts_read raws os \<Longrightarrow> lp_number ` set os \<subseteq> {1..10000} \<and> length os = length raws"
proof (induction raws arbitrary: os)
  case (Cons raw raws)
  then obtain p ps where "parse_listed_part raw = Inr p" "parts_read raws ps" "os = p # ps" by auto
  then show ?case using Cons.IH [of ps] parse_listed_part_number [of raw p] by simp
qed simp

lemma list_loop_ends:
  assumes "\<And>m raws v. read_page (page m) = Inr (raws, Some v) \<Longrightarrow> raws \<noteq> []"
    and "distinct (map lp_number observed)" "lp_number ` set observed \<subseteq> {1..10000}"
  shows "list_loop page m seen observed \<noteq> None"
  using assms(2,3)
proof (induction "10000 - length observed" arbitrary: m seen observed rule: less_induct)
  case less
  show ?case
  proof (cases "read_page (page m)")
    case (Inr p)
    obtain raws further where p: "p = (raws, further)" by (cases p)
    show ?thesis
    proof (cases "observe_parts observed raws")
      case o: (Inr out)
      then obtain os where os: "parts_read raws os" "out = observed @ os" "distinct (map lp_number out)"
        using observe_parts_iff [OF less.prems(1)] by auto
      have nums: "lp_number ` set out \<subseteq> {1..10000}"
        using os(2) less.prems(2) parts_read_numbers [OF os(1)] by (simp add: image_Un)
      show ?thesis
      proof (cases further)
        case (Some v)
        have "length out = card (lp_number ` set out)"
          using os(3) by (metis distinct_card length_map list.set_map)
        also have "\<dots> \<le> card {1..10000 :: int}" using nums by (intro card_mono) auto
        finally have "length out \<le> 10000" by simp
        moreover have "length observed < length out"
          using assms(1) [of m raws v] Inr p Some os parts_read_numbers by fastforce
        ultimately have "10000 - length out < 10000 - length observed" by simp
        then show ?thesis
          using less.hyps [of out] os(3) nums Inr p Some o
          by (subst list_loop.simps) (auto split: sum.splits)
      qed (use Inr p o in \<open>subst list_loop.simps, auto\<close>)
    qed (use Inr p in \<open>subst list_loop.simps, auto\<close>)
  qed (subst list_loop.simps, auto)
qed

text \<open>
  C30: Listing the parts ends against every provider that puts at least one part on each truncated
  page: at most 10,000 part numbers are accepted, each once, so no unbounded paging is possible.
\<close>

theorem listing_ends:
  assumes "\<And>m raws v. read_page (s3 ''list_parts'' (list_request bucket key u m)) = Inr (raws, Some v)
             \<Longrightarrow> raws \<noteq> []"
  shows "\<exists>r. list_parts s3 bucket key u = Some r"
  using list_loop_ends [of "\<lambda>m. s3 ''list_parts'' (list_request bucket key u m)" "[]" None "[]"] assms
  by (auto simp: list_parts_def)

text \<open>Two pages: the first is truncated and holds one part, the second ends the listing.\<close>

definition sample_pages :: s3_client where
  "sample_pages operation request =
     (if (lit ''PartNumberMarker'', PyInt 1) \<in> set request
      then Reply (PyMap [(lit ''IsTruncated'', PyBool False)])
      else Reply (PyMap
        [(lit ''Parts'', PyList [PyMap
            [(lit ''PartNumber'', PyInt 1), (lit ''Size'', PyInt 5), (lit ''ETag'', PyStr [97]),
             (lit ''ChecksumSHA256'', PyStr (sha256_digest_to_base64 (Sha256Digest sample_sha)))]]),
         (lit ''IsTruncated'', PyBool True), (lit ''NextPartNumberMarker'', PyInt 1)]))"

theorem listing_ends_witness:
  "\<exists>r. list_parts sample_pages [98] [107] (ProviderUploadId [117]) = Some r"
proof (rule listing_ends)
  fix m raws v
  assume "read_page (sample_pages ''list_parts'' (list_request [98] [107] (ProviderUploadId [117]) m)) = Inr (raws, Some v)"
  then show "raws \<noteq> []"
    by (auto simp: read_page_def sample_pages_def get_or_def lit_def split: if_splits)
qed

section \<open>Receipts and completion\<close>

lemma upload_receipt:
  assumes "parse_upload_part_response number status response sha = Inr r"
  shows "cpr_etag r \<noteq> []" "\<not> has_control_character (cpr_etag r)" "cpr_number r = number"
  using assms
  by (auto simp: parse_upload_part_response_def split: pyval.splits if_splits sum.splits
      dest!: receipt_Inr(1))

lemma sorted_to: "mset xs = mset [1..n] \<Longrightarrow> sort xs = [1..n :: int]"
  by (rule properties_for_sort) simp_all

text \<open>
  C31: Receipts taken from the responses of all parts complete an upload, in whatever order they
  are presented: the adapter accepts them without a local refusal and sends the same request,
  conditional on the key being free, with the parts in ascending order.
\<close>

theorem receipts_complete_in_any_order:
  assumes "\<And>r. r \<in> set receipts \<Longrightarrow>
             \<exists>status response sha. parse_upload_part_response (cpr_number r) status response sha = Inr r"
    and "mset (map cpr_number receipts) = mset [1..int n]" "0 < n"
    and "mset shuffled = mset receipts"
  shows "\<exists>ordered. mset ordered = mset receipts \<and> map cpr_number ordered = [1..int n]
    \<and> complete_multipart s3 bucket key u shuffled
        = completion_answer (s3 ''complete_multipart_upload'' (complete_request bucket key u ordered))"
proof (intro exI conjI)
  let ?o = "sort_key cpr_number shuffled"
  show "mset ?o = mset receipts" using assms(4) by simp
  have "mset (map cpr_number shuffled) = mset [1..int n]"
    using assms(2,4) by (metis mset_map)
  then have nums: "map cpr_number ?o = [1..int n]"
    using properties_for_sort [of "map cpr_number ?o" "map cpr_number shuffled"]
    by (simp add: sorted_to)
  then show "map cpr_number ?o = [1..int n]" .
  have "length ?o = n" using nums by (metis length_map length_upto nat_int add_diff_cancel_left' diff_add_cancel)
  moreover have "?o \<noteq> []" using assms(3) \<open>length ?o = n\<close> by (metis length_0_conv less_irrefl)
  moreover have "cpr_etag r \<noteq> [] \<and> \<not> has_control_character (cpr_etag r)" if "r \<in> set ?o" for r
    using that assms(1) [of r] assms(4) upload_receipt by (metis set_sort set_mset_mset)
  ultimately show "complete_multipart s3 bucket key u shuffled
        = completion_answer (s3 ''complete_multipart_upload'' (complete_request bucket key u ?o))"
    using nums by (auto simp: complete_multipart_def Let_def)
qed
definition sample_receipts :: "completed_part_receipt list" where
  "sample_receipts =
     map (\<lambda>n. \<lparr>cpr_number = n, cpr_etag = [97],
               cpr_checksum = sha256_digest_to_base64 (Sha256Digest sample_sha)\<rparr>) [1, 2]"

theorem receipts_complete_in_any_order_witness:
  "\<exists>ordered. mset ordered = mset sample_receipts \<and> map cpr_number ordered = [1..2]
    \<and> complete_multipart (\<lambda>_ _. CoreError) [98] [107] (ProviderUploadId [117]) (rev sample_receipts)
        = completion_answer ((\<lambda>_ _. CoreError) ''complete_multipart_upload'' (complete_request [98] [107] (ProviderUploadId [117]) ordered))"
proof -
  let ?c = "sha256_digest_to_base64 (Sha256Digest sample_sha)"
  have c: "sha256_base64_to_digest ?c = Inr (Sha256Digest sample_sha)"
    using sample_sha_text by (simp add: checksum_decoded sha_text_wf)
  have "\<exists>status response sha. parse_upload_part_response (cpr_number r) status response sha = Inr r"
    if "r \<in> set sample_receipts" for r
    using that c
    by (intro exI [of _ "PyInt 200"] exI [of _ "PyMap [(lit ''ETag'', PyStr [97]), (lit ''ChecksumSHA256'', PyStr ?c)]"]
          exI [of _ "Sha256Digest sample_sha"])
       (auto simp: sample_receipts_def parse_upload_part_response_def get_or_def lit_def
          has_control_character_def is_Cc_def receipt_from_upload_response_def mk_receipt_def
          validate_receipt_def MAX_PARTS_def)
  moreover have "mset (map cpr_number sample_receipts) = mset [1..int 2]"
    by (simp add: sample_receipts_def upto.simps)
  ultimately show ?thesis
    using receipts_complete_in_any_order [of sample_receipts 2 "rev sample_receipts"] by force
qed

section \<open>Capabilities\<close>

text \<open>
  C32: An upload capability binds exactly one part: it is issued if and only if the part number, size
  and lifetime are in range, the checksum is the canonical Base64 of a digest and the signer
  returns a safe URL, and then it carries that number, size and digest, headers that fix the
  length and the checksum, and an expiry of now plus the lifetime; no later check refuses it.
\<close>

theorem capability_binds_part:
  "presign_upload_part host_ok sign now bucket key u number nbytes checksum expires = Inr c \<longleftrightarrow>
     1 \<le> number \<and> number \<le> MAX_PARTS \<and> 0 < nbytes \<and> 0 < expires
     \<and> wf_digest (upc_sha c) \<and> checksum = checksum_base64 (upc_sha c)
     \<and> (\<exists>url. sign ''upload_part'' (part_request bucket key u number nbytes checksum) expires ''PUT'' = Reply (PyStr url)
          \<and> is_safe_capability_url host_ok (PyStr url)
          \<and> c = \<lparr>upc_number = number, upc_size = nbytes, upc_sha = upc_sha c,
                 upc_request = \<lparr>psr_url = url, psr_headers = part_headers nbytes checksum\<rparr>,
                 upc_expires_at = Aware (now + seconds expires)\<rparr>)"
  (is "_ \<longleftrightarrow> ?spec")
proof -
  have eq: "checksum_base64 = sha256_digest_to_base64"
    by (simp add: fun_eq_iff checksum_base64_def sha256_digest_to_base64_def)
  have ok: "mk_capability number nbytes d r (Aware t) = Inr c \<longleftrightarrow>
      c = \<lparr>upc_number = number, upc_size = nbytes, upc_sha = d, upc_request = r, upc_expires_at = Aware t\<rparr>"
    if "1 \<le> number" "number \<le> MAX_PARTS" "0 < nbytes" "psr_headers r = part_headers nbytes (checksum_base64 d)"
    for d r t
    using that by (auto simp: mk_capability_def same_dict_def require_aware_def)
  show ?thesis
  proof
    assume "presign_upload_part host_ok sign now bucket key u number nbytes checksum expires = Inr c"
    then obtain d url where "1 \<le> number" "number \<le> MAX_PARTS" "0 < nbytes" "0 < expires"
        "sha256_base64_to_digest checksum = Inr d"
        "sign ''upload_part'' (part_request bucket key u number nbytes checksum) expires ''PUT'' = Reply (PyStr url)"
        "is_safe_capability_url host_ok (PyStr url)"
        "mk_capability number nbytes d \<lparr>psr_url = url, psr_headers = part_headers nbytes checksum\<rparr>
           (Aware (now + seconds expires)) = Inr c"
      by (auto simp: presign_upload_part_def MAX_PARTS_def split: if_splits sum.splits reply.splits pyval.splits)
    then show ?spec using ok [of _ d] by (auto simp: checksum_decoded eq)
  next
    assume s: ?spec
    then have "sha256_base64_to_digest checksum = Inr (upc_sha c)" by (simp add: checksum_decoded eq)
    then show "presign_upload_part host_ok sign now bucket key u number nbytes checksum expires = Inr c"
      using s ok by (auto simp: presign_upload_part_def MAX_PARTS_def)
  qed
qed

section \<open>Single objects\<close>

text \<open>
  \<^verbatim>\<open>S3ObjectStore\<close> trusts the types of the responses it reads, so its client answers with typed
  values: the metadata of a key, the chunks of a body and whether the stream broke, a URL.
\<close>

record head_response =
  hr_length :: "int option"
  hr_checksum :: "ustr option"
  hr_etag :: "ustr option"

record s3_single =
  sg_head :: "(ustr \<times> pyval) list \<Rightarrow> head_response reply"
  sg_get :: "(ustr \<times> pyval) list \<Rightarrow> int \<Rightarrow> (bytes list \<times> bool) reply"
  sg_sign :: "string \<Rightarrow> (ustr \<times> pyval) list \<Rightarrow> int \<Rightarrow> string \<Rightarrow> ustr reply"

definition parse_provider_checksum :: "ustr option \<Rightarrow> sha256_digest option res" where
  "parse_provider_checksum value =
     (case value of
        None \<Rightarrow> Inr None
      | Some text \<Rightarrow>
          (if \<exists>c \<in> set text. 128 \<le> c then Inr None
           else
             case b64_decode text of
               None \<Rightarrow> Inr None
             | Some raw \<Rightarrow>
                 (if length raw \<noteq> 32 then Inr None
                  else res_bind (mk_digest (hex_encode raw)) (\<lambda>d. Inr (Some d)))))"

definition object_head :: "s3_single \<Rightarrow> ustr \<Rightarrow> ustr \<Rightarrow> object_info option res" where
  "object_head s3 bucket key =
     (case sg_head s3 (head_request bucket key) of
        ClientError code _ \<Rightarrow> (if code \<in> set missing_codes then Inr None else Inl StorageError)
      | CoreError \<Rightarrow> Inl StorageError
      | Reply r \<Rightarrow>
          res_bind (parse_provider_checksum (hr_checksum r)) (\<lambda>checksum.
            case hr_length r of
              None \<Rightarrow> Inl PyKeyError
            | Some n \<Rightarrow> Inr (Some \<lparr>oi_size = n, oi_checksum = checksum, oi_etag = hr_etag r\<rparr>)))"

definition object_bytes :: "s3_single \<Rightarrow> ustr \<Rightarrow> ustr \<Rightarrow> int \<Rightarrow> bytes list res" where
  "object_bytes s3 bucket key chunk_size =
     (case sg_get s3 [(lit ''Bucket'', PyStr bucket), (lit ''Key'', PyStr key)] chunk_size of
        Reply (pieces, broken) \<Rightarrow>
          (if broken then Inl StorageError else Inr (filter (\<lambda>c. c \<noteq> []) pieces))
      | _ \<Rightarrow> Inl StorageError)"

definition object_presign_put :: "s3_single \<Rightarrow> ustr \<Rightarrow> ustr \<Rightarrow> int \<Rightarrow> ustr \<Rightarrow> int \<Rightarrow> presigned_request res" where
  "object_presign_put s3 bucket key nbytes checksum expires =
     (case sg_sign s3 ''put_object''
             [(lit ''Bucket'', PyStr bucket), (lit ''Key'', PyStr key), (lit ''IfNoneMatch'', PyStr (lit ''*'')),
              (lit ''ContentLength'', PyInt nbytes), (lit ''ChecksumSHA256'', PyStr checksum)] expires ''PUT'' of
        Reply url \<Rightarrow>
          Inr \<lparr>psr_url = url, psr_headers = (lit ''If-None-Match'', lit ''*'') # part_headers nbytes checksum\<rparr>
      | _ \<Rightarrow> Inl StorageError)"

definition object_presign_get :: "s3_single \<Rightarrow> ustr \<Rightarrow> ustr \<Rightarrow> int \<Rightarrow> presigned_request res" where
  "object_presign_get s3 bucket key expires =
     (case sg_sign s3 ''get_object'' [(lit ''Bucket'', PyStr bucket), (lit ''Key'', PyStr key)] expires ''GET'' of
        Reply url \<Rightarrow> Inr \<lparr>psr_url = url, psr_headers = []\<rparr>
      | _ \<Rightarrow> Inl StorageError)"

text \<open>The adapter as the object storage the services use.\<close>

definition s3_objects :: "s3_single \<Rightarrow> ustr \<Rightarrow> objects" where
  "s3_objects s3 bucket =
     \<lparr>ob_head = object_head s3 bucket, ob_bytes = object_bytes s3 bucket,
      ob_presign_put = object_presign_put s3 bucket, ob_presign_get = object_presign_get s3 bucket\<rparr>"

lemma parse_provider_checksum_Inr: "\<exists>c. parse_provider_checksum value = Inr c"
  using hex_digest_wf by (auto simp: parse_provider_checksum_def split: option.splits)

lemma parse_canonical_checksum:
  "wf_digest d \<Longrightarrow> parse_provider_checksum (Some (sha256_digest_to_base64 d)) = Inr (Some d)"
proof -
  assume d: "wf_digest d"
  let ?v = "sha256_digest_to_base64 d"
  from d have v: "?v = b64_encode (digest_raw d)" by (simp add: sha256_digest_to_base64_def)
  then have "\<forall>c \<in> set ?v. c < 128" using b64_encode_chars by fastforce
  moreover have "mk_digest (hex_encode (digest_raw d)) = Inr d"
    using d digest_hex(2) [of d] by (simp add: mk_digest_wf)
  ultimately show ?thesis using d digest_hex(3) [of d] v by (auto simp: parse_provider_checksum_def not_le)
qed

text \<open>An object the storage lists with the checksum of the blob is attested for it.\<close>

lemma s3_attested:
  assumes "sg_head s3 (head_request bucket (bl_object_key b)) = Reply r"
    and "hr_length r = Some (bl_size b)" "hr_checksum r = Some (sha256_digest_to_base64 d)"
    and "bl_sha b = digest_value d" "wf_digest d"
  shows "\<exists>info. ob_head (s3_objects s3 bucket) (bl_object_key b) = Inr (Some info)
    \<and> attested (s3_objects s3 bucket) n b info"
  using assms parse_canonical_checksum [of d]
  by (simp add: s3_objects_def object_head_def attested_def)

end
