(* ===== verification/Progress.thy ===== *)
theory Progress
  imports VersionRules
begin

text \<open>
  What can always be done: a registered version whose contents are all available can be published, in
  every state the registry may have reached meanwhile.
\<close>

section \<open>Finalising succeeds\<close>

lemma updatable:
  assumes "wf_db d" "get_version d i = Some v" "dv_id w = i" "sealed_columns w = sealed_columns v"
    and "dv_failure_detail w = dv_failure_detail v" "dv_sealed_at v \<noteq> None"
    and "dv_state v \<noteq> V_READY" "version_edge (dv_state v) (dv_state w)"
  shows "update_version w d = Inr (d\<lparr>db_versions := tab_put dv_id w (db_versions d),
                                     db_deferred := db_deferred d @ [RequireSealed i]\<rparr>)"
proof -
  have v: "v \<in> set (db_versions d)" "dv_id v = i"
    using assms(2) by (auto simp: get_version_def dest: tab_get_Some)
  have cols: "dv_dataset_id w = dv_dataset_id v" "dv_number w = dv_number v" "dv_schema_version w = dv_schema_version v"
      "dv_manifest_sha w = dv_manifest_sha v" "dv_file_count w = dv_file_count v" "dv_logical_bytes w = dv_logical_bytes v"
      "dv_unique_blob_count w = dv_unique_blob_count v" "dv_unique_blob_bytes w = dv_unique_blob_bytes v"
    using assms(4) by (simp_all add: sealed_columns_def)
  have "check_version v" "dv_dataset_id v \<in> ds_id ` set (db_datasets d)" "\<not> (\<exists>x \<in> set (db_versions d). version_clash v x)"
    using assms(1) v(1) by (auto simp: wf_db_def checks_ok_def refs_ok_def unique_ok_def)
  then have "check_version w" "dv_dataset_id w \<in> ds_id ` set (db_datasets d)" "\<not> (\<exists>x \<in> set (db_versions d). version_clash w x)"
    using cols assms(3,5) v(2) by (simp_all add: check_version_def version_clash_def)
  then show ?thesis
    using assms by (simp add: update_version_def guard_dataset_version_def)
qed

lemma available_joined: "blobs_available d i \<Longrightarrow> b \<in> set (map snd (joined d i)) \<Longrightarrow> bl_state b = B_AVAILABLE"
  by (auto simp: blobs_available_def joined_def split: option.splits)

lemma finalize_succeeds:
  assumes "committed d" "get_version d i = Some v" "get_dataset d (dv_dataset_id v) = Some ds"
    and "mk_dataset_name U (ds_name ds) = Inr n" "dv_state v \<in> {V_DRAFT, V_UPLOADING}"
    and "from_canonical_bytes U (dv_manifest_bytes v) = Inr m" "summaries_match m v" "blobs_available d i"
  shows "\<exists>r d'. finalize_version U e i d = Inr (r, d') \<and> vsr_id r = i \<and> vsr_state r = V_READY"
proof -
  define v1 where "v1 = v\<lparr>dv_state := V_VERIFYING, dv_verifying_at := Some (env_wall e 0)\<rparr>"
  define v2 where "v2 = v1\<lparr>dv_state := V_READY, dv_ready_at := Some (env_wall e 0)\<rparr>"
  have w: "wf_db d" and queue: "db_deferred d = []" using assms(1) by (simp_all add: committed_def)
  have mem: "v \<in> set (db_versions d)" and ident: "dv_id v = i"
    using assms(2) by (auto simp: get_version_def dest: tab_get_Some)
  have sealed: "dv_sealed_at v \<noteq> None"
    using assms(1) mem by (auto simp: committed_def settled_def sealed_or_queued_def)
  obtain d1 where u1: "update_version v1 d = Inr d1" "db_versions d1 = tab_put dv_id v1 (db_versions d)"
      "db_deferred d1 = [RequireSealed i]"
    using updatable [OF w assms(2), of v1] assms(5) sealed queue ident
    by (auto simp: v1_def sealed_columns_def version_edge_def)
  have w1: "wf_db d1" using stmt_wf [OF upd_version [OF u1(1)] w] .
  have g1: "get_version d1 i = Some v1"
    using mem ident u1(2) by (auto simp: get_version_def tab_get_put v1_def)
  obtain d2 where u2: "update_version v2 d1 = Inr d2" "db_versions d2 = tab_put dv_id v2 (db_versions d1)"
      "db_deferred d2 = [RequireSealed i, RequireSealed i]"
    using updatable [OF w1 g1, of v2] sealed u1(3) ident
    by (auto simp: v1_def v2_def sealed_columns_def version_edge_def)
  have "dv_sealed_at x \<noteq> None" if "x \<in> set (tab_put dv_id v2 rows)" "dv_id x = i" for x rows
    using that sealed by (auto simp: tab_put_def v2_def v1_def ident split: if_splits)
  then have "require_sealed_version d2 i"
    using u2(2) by (auto simp: require_sealed_version_def)
  then have commits: "commit (env_clock e 0) r d2 = Inr (r, d2\<lparr>db_deferred := []\<rparr>)" for r :: version_record
    using u2(3) by (simp add: commit_def deferred_ok_def)
  have "sha_text (dv_manifest_sha v)" using w mem by (auto simp: wf_db_def checks_ok_def check_version_def)
  then obtain sha where "mk_digest (dv_manifest_sha v) = Inr sha" using sha_text_parse by blast
  then obtain r where r: "to_version_record U v2 (ds_name ds) = Inr r" "vsr_id r = i" "vsr_state r = V_READY"
    using assms(4) ident by (auto simp: to_version_record_def v2_def v1_def)
  have "\<not> (\<exists>b \<in> set (map snd (joined d i)). bl_state b \<noteq> B_AVAILABLE)"
    using available_joined [OF assms(8)] by blast
  then have "finalize_version U e i d = Inr (r, d2\<lparr>db_deferred := []\<rparr>)"
    using assms(2-7) u1(1) u2(1) r(1) commits unfolding v2_def v1_def
    by (auto simp: finalize_version_def Let_def)
  then show ?thesis using r by blast
qed

lemma register_dataset:
  assumes "register_version U e ds supplied key q d = Inr (r, d')"
  obtains x n where "get_dataset d ds = Some x" "mk_dataset_name U (ds_name x) = Inr n"
  using assms
  by (auto simp: register_version_def register_transaction_def to_version_record_def res_bind_eq_Inr
      split: if_splits option.splits)

text \<open>
  C40: Publication never gets stuck on the registry: a registered version that is DRAFT or UPLOADING and
  whose contents have all become AVAILABLE can be finalised in every state reached after its registration,
  at every time of the clock, and is READY then.
\<close>

theorem registered_version_can_be_published:
  assumes "register_version U e ds supplied key q d = Inr (r, d')" "committed d" "later U d' d''"
    and "get_idem d VERSION_REGISTER key = None"
    and "\<forall>v \<in> set (db_versions d). dv_dataset_id v = ds \<longrightarrow> dv_manifest_sha v \<noteq> digest_value (mf_sha256 supplied)"
    and "get_version d'' (vsr_id r) = Some v" "dv_state v \<in> {V_DRAFT, V_UPLOADING}"
    and "blobs_available d'' (vsr_id r)"
  shows "\<exists>r' d3. finalize_version U e' (vsr_id r) d'' = Inr (r', d3) \<and> vsr_id r' = vsr_id r \<and> vsr_state r' = V_READY"
  using assms(1,2,4,5)
proof (cases rule: register_new_Inr)
  case (1 m w t)
  have c: "committed d'" using step_committed [OF do_register_version [OF assms(1)] assms(2)] .
  then have c'': "committed d''" using later_evolves [OF assms(3)] by simp
  obtain x n where x: "get_dataset d ds = Some x" "mk_dataset_name U (ds_name x) = Inr n"
    using assms(1) by (rule register_dataset)
  have "later U d d'" using do_register_version [OF assms(1)] by (blast intro: later.intros)
  then have ds: "get_dataset d'' ds = Some x"
    using later_get(5) [OF _ assms(2) x(1)] later_get(5) [OF assms(3) c] by blast
  have "sealed_columns v = sealed_columns w"
    using later_get(1) [OF assms(3) c 1(6)] assms(6) 1(3,4) by (auto simp: version_evolves_def)
  then have v: "dv_dataset_id v = ds" "dv_manifest_bytes v = mf_canonical m" "summaries_match m v"
    by (auto simp: sealed_columns_def 1(3) new_version_row_def summaries_match_def)
  then show ?thesis
    using finalize_succeeds [OF c'' assms(6) _ x(2) assms(7) _ _ assms(8)] ds 1(1) parsed_bytes [OF 1(1)] by simp
qed

section \<open>An empty dataset\<close>

definition void_manifest :: manifest where
  "void_manifest =
     (let c = map of_nat (dumps (manifest_json []))
      in \<lparr>mf_entries = [], mf_canonical = c, mf_sha256 = content_digest c, mf_schema_version = 1\<rparr>)"

lemma void_dumps:
  "\<forall>c \<in> set (dumps (manifest_json [])). c < 0x80"
  "length (dumps (manifest_json [])) \<le> MAX_MANIFEST_BYTES"
  by (simp_all add: manifest_json_def dumps_str_def esc_char_def int_str_def nat_str.simps limit_defs)

lemma void_built: "build ascii_unicode [] = Inr void_manifest"
  using void_dumps(2)
  by (auto simp: build_def Let_def void_manifest_def utf8_encode_ascii [OF void_dumps(1)] limit_defs)

lemma void_parses: "from_canonical_bytes ascii_unicode (mf_canonical void_manifest) = Inr void_manifest"
  using build_Inr [OF void_built] by (intro from_canonical_built) auto

lemma void_totals:
  "mf_entries void_manifest = []" "file_count void_manifest = 0" "logical_bytes void_manifest = 0"
  "unique_blob_count void_manifest = 0" "unique_blob_bytes void_manifest = 0" "mf_schema_version void_manifest = 1"
  by (simp_all add: void_manifest_def Let_def file_count_def logical_bytes_def unique_blob_count_def
        unique_blob_bytes_def digest_dict_def)

definition void_version :: version_row where
  "void_version = (new_version_row late_env 1 1 void_manifest)\<lparr>dv_sealed_at := Some 1\<rparr>"

definition void_registered :: db where
  "void_registered =
     sample_created\<lparr>db_versions := [void_version],
       db_idem := db_idem sample_created @ [version_idem (lit ''v'') sample_request void_version 2]\<rparr>"

lemma void_columns:
  "dv_id void_version = 6" "dv_dataset_id void_version = 1" "dv_state void_version = V_DRAFT"
  "dv_file_count void_version = 0" "dv_logical_bytes void_version = 0" "dv_unique_blob_count void_version = 0"
  "dv_unique_blob_bytes void_version = 0" "dv_sealed_at void_version = Some 1" "dv_number void_version = 1"
  "dv_manifest_sha void_version = digest_value (mf_sha256 void_manifest)"
  "void_version\<lparr>dv_sealed_at := Some 1\<rparr> = void_version"
  by (simp_all add: void_version_def new_version_row_def void_totals)

lemma void_sha: "sha_text (digest_value (mf_sha256 void_manifest))"
  by (simp add: void_manifest_def Let_def content_digest_def digest_sha_text)

lemma void_row: "check_version (void_version\<lparr>dv_sealed_at := t\<rparr>)"
  using void_sha by (simp add: check_version_def void_version_def new_version_row_def int8_def void_totals)

lemma void_seal:
  "seal_new_version late_env 1 void_manifest sample_created
     = Inr (void_version, void_registered\<lparr>db_idem := db_idem sample_created, db_deferred := [RequireSealed 6, RequireSealed 6]\<rparr>)"
proof -
  let ?draft = "void_version\<lparr>dv_sealed_at := None\<rparr>"
  let ?d1 = "sample_created\<lparr>db_versions := [?draft], db_deferred := [RequireSealed 6]\<rparr>"
  have draft: "new_version_row late_env 1 (next_version_number sample_created 1) void_manifest = ?draft"
    by (simp add: next_version_number_def sample_created_def empty_db_def max0_def void_version_def
        new_version_row_def)
  have d1: "insert_version ?draft sample_created = Inr ?d1"
    using void_row [of None]
    by (simp add: insert_version_def void_columns sample_created_def empty_db_def sample_dataset_def)
  have d3: "update_version void_version ?d1 = Inr (void_registered\<lparr>db_idem := db_idem sample_created,
      db_deferred := [RequireSealed 6, RequireSealed 6]\<rparr>)"
    using void_row [of "Some 1"]
    by (simp add: update_version_def get_version_def void_columns guard_dataset_version_def ordinals_ok_def
        summaries_ok_def joined_def entries_of_def void_registered_def Let_def version_clash_def tab_put_def)
       (simp add: sample_created_def empty_db_def sample_dataset_def)
  show ?thesis
    unfolding seal_new_version_def Let_def draft
    using d1 d3 by (simp add: void_columns void_totals)
qed

definition void_record :: version_record where
  "void_record =
     \<lparr>vsr_id = 6, vsr_dataset_id = 1, vsr_dataset_name = sample_name, vsr_number = 1,
      vsr_manifest_sha = mf_sha256 void_manifest, vsr_state = V_DRAFT, vsr_file_count = 0,
      vsr_logical_bytes = 0, vsr_unique_blob_count = 0, vsr_unique_blob_bytes = 0,
      vsr_failure_code = None, vsr_failure_detail = None\<rparr>"

lemma void_register:
  "register_version ascii_unicode late_env 1 void_manifest (lit ''v'') sample_request sample_created
     = Inr (void_record, void_registered)"
proof -
  have get: "get_dataset sample_created 1 = Some sample_dataset"
      "get_idem sample_created VERSION_REGISTER (lit ''v'') = None"
    by (simp_all add: sample_created_def empty_db_def get_defs sample_dataset_def idem_key_def
        dataset_idem_def)
  have none: "find_or_seal_version late_env 1 void_manifest sample_created
      = seal_new_version late_env 1 void_manifest sample_created"
    by (simp add: find_or_seal_version_def sample_created_def empty_db_def)
  have rec: "to_version_record ascii_unicode void_version (lit ''d'') = Inr void_record"
    using sample_name_wf sha_text_parse [OF void_sha]
    by (simp add: to_version_record_def void_record_def void_columns)
       (simp add: void_version_def new_version_row_def void_totals)
  have ins: "insert_idem (version_idem (lit ''v'') sample_request void_version 2)
      (void_registered\<lparr>db_idem := db_idem sample_created, db_deferred := [RequireSealed 6, RequireSealed 6]\<rparr>)
      = Inr (void_registered\<lparr>db_deferred := [RequireSealed 6, RequireSealed 6]\<rparr>)"
    by (simp add: insert_idem_def void_registered_def sample_created_def guard_m2_idempotency_def m2_scopes_def
          check_idem_def varchar_def sample_request_def int4_def idem_key_def version_idem_def dataset_idem_def)
  have com: "commit 20 void_record (void_registered\<lparr>db_deferred := [RequireSealed 6, RequireSealed 6]\<rparr>)
      = Inr (void_record, void_registered)"
    by (simp add: commit_def deferred_ok_def require_sealed_version_def void_registered_def
        void_version_def sample_created_def empty_db_def)
  have "register_transaction ascii_unicode late_env 1 void_manifest (lit ''v'') sample_request sample_created
      = Inr (void_record, void_registered)"
    unfolding register_transaction_def get option.simps none void_seal
    using rec ins com by (simp add: void_totals sample_dataset_def)
  then show ?thesis by (simp add: register_version_def void_parses)
qed

theorem registered_version_can_be_published_witness:
  "\<exists>r' d3. finalize_version ascii_unicode late_env 6 void_registered = Inr (r', d3) \<and> vsr_state r' = V_READY"
proof -
  have "get_version void_registered 6 = Some void_version"
    by (simp add: void_registered_def get_version_def void_columns)
  moreover have "blobs_available void_registered 6"
    by (simp add: blobs_available_def entries_of_def void_registered_def sample_created_def empty_db_def)
  ultimately show ?thesis
    using registered_version_can_be_published [OF void_register created_committed later.now, of void_version late_env]
    by (auto simp: void_record_def void_columns sample_created_def empty_db_def get_idem_def idem_key_def dataset_idem_def)
qed

end
