(* ===== verification/FileSystem.thy ===== *)
theory FileSystem
  imports Transfers
begin

text \<open>
  The file system as the program uses it: a map from absolute paths without symbolic links in
  their parents to nodes, and the calls of \<^verbatim>\<open>os\<close> on it. The operating system may refuse any
  call for a reason of its own (a full disk, a name that is too long, a permission, an I/O error),
  those that clean up included: which calls it refuses is part of the world. Permissions are not
  modelled, and no other process touches the tree.
\<close>

section \<open>Nodes and paths\<close>

type_synonym path = "ustr list"

datatype node = Directory | RegularFile bytes | SymbolicLink

type_synonym files = "path \<Rightarrow> node option"

definition within :: "path \<Rightarrow> path \<Rightarrow> bool" where
  "within s p = (take (length s) p = s)"

lemma within_append [simp]: "within s (s @ r)"
  by (simp add: within_def)

lemma within_iff: "within s p \<longleftrightarrow> (\<exists>r. p = s @ r)"
  by (metis append_take_drop_id within_append within_def)

lemma within_self [simp]: "within s s"
  by (simp add: within_def)

lemma within_butlast: "within s p \<Longrightarrow> p \<noteq> s \<Longrightarrow> within s (butlast p)"
  by (auto simp: within_iff butlast_append)

lemma not_within_longer [simp]: "s \<noteq> [] \<Longrightarrow> \<not> within s (butlast s)"
proof
  assume "s \<noteq> []" "within s (butlast s)"
  then obtain r where "butlast s = s @ r" by (auto simp: within_iff)
  then have "length s - 1 = length s + length r" by (metis length_append length_butlast)
  moreover have "0 < length s" using \<open>s \<noteq> []\<close> by simp
  ultimately show False by linarith
qed

text \<open>Every node but the root has a directory above it.\<close>

definition tree_ok :: "files \<Rightarrow> bool" where
  "tree_ok fs = (fs [] = Some Directory \<and> (\<forall>p n. fs (p @ [n]) \<noteq> None \<longrightarrow> fs p = Some Directory))"

lemma tree_ok_parent: "tree_ok fs \<Longrightarrow> fs (p @ [n]) = Some x \<Longrightarrow> fs p = Some Directory"
  unfolding tree_ok_def by blast

lemma tree_okD: "tree_ok fs \<Longrightarrow> fs p \<noteq> None \<Longrightarrow> p \<noteq> [] \<Longrightarrow> fs (butlast p) = Some Directory"
  unfolding tree_ok_def by (metis append_butlast_last_id)

lemma tree_ok_absent:
  assumes "tree_ok fs" "fs s = None" "within s p"
  shows "fs p = None"
proof -
  obtain r where "p = s @ r" using assms(3) by (auto simp: within_iff)
  moreover have "fs (s @ r) = None"
  proof (induction r rule: rev_induct)
    case (snoc n r)
    then show ?case
      using tree_ok_parent [OF assms(1), of "s @ r" n] by (cases "fs (s @ r @ [n])") auto
  qed (use assms in simp)
  ultimately show ?thesis by simp
qed

lemma tree_ok_above:
  "tree_ok fs \<Longrightarrow> fs (s @ r) \<noteq> None \<Longrightarrow> r \<noteq> [] \<Longrightarrow> fs s = Some Directory"
proof (induction r rule: rev_induct)
  case (snoc n r)
  then have "fs (s @ r) = Some Directory" unfolding tree_ok_def by (metis append_assoc)
  then show ?case using snoc by (cases r) auto
qed simp

section \<open>System calls\<close>

datatype sys_call =
    SysLstat | SysMkdir | SysChmod | SysResolve | SysOpen | SysWrite | SysFsync | SysClose
  | SysRename | SysUnlink | SysRmtree | SysPublish

text \<open>
  \<open>lw_refuses w c p n\<close>: the \<open>n\<close>-th call of all is refused when it is the call \<open>c\<close> on the path \<open>p\<close>.
  A recursive removal that is refused half-way leaves the nodes \<open>lw_remains\<close> tells.
\<close>

record 'h local_world =
  lw_files :: files
  lw_refuses :: "sys_call \<Rightarrow> path \<Rightarrow> nat \<Rightarrow> bool"
  lw_remains :: "nat \<Rightarrow> path \<Rightarrow> bool"
  lw_calls :: nat
  lw_uuids :: "nat \<Rightarrow> uuid"
  lw_drawn :: nat
  lw_http :: "nat \<Rightarrow> 'h"

definition os_call ::
    "sys_call \<Rightarrow> path \<Rightarrow> (files \<Rightarrow> ('a \<times> files) res) \<Rightarrow> (('h, 'z) local_world_scheme, 'a) act" where
  "os_call c p f w =
     (let w' = w\<lparr>lw_calls := lw_calls w + 1\<rparr>
      in if lw_refuses w c p (lw_calls w) then (Inl PyOSError, w')
         else
           case f (lw_files w) of
             Inl err \<Rightarrow> (Inl err, w')
           | Inr (x, fs) \<Rightarrow> (Inr x, w'\<lparr>lw_files := fs\<rparr>))"

definition fs_lstat :: "path \<Rightarrow> files \<Rightarrow> (node option \<times> files) res" where
  "fs_lstat p fs = Inr (fs p, fs)"

definition fs_mkdir :: "path \<Rightarrow> files \<Rightarrow> (unit \<times> files) res" where
  "fs_mkdir p fs =
     (if fs p \<noteq> None \<or> p = [] \<or> fs (butlast p) \<noteq> Some Directory then Inl PyOSError
      else Inr ((), fs(p \<mapsto> Directory)))"

text \<open>\<^verbatim>\<open>os.open\<close> with \<^verbatim>\<open>O_CREAT | O_EXCL\<close>.\<close>

definition fs_create :: "path \<Rightarrow> files \<Rightarrow> (unit \<times> files) res" where
  "fs_create p fs =
     (if fs p \<noteq> None \<or> p = [] \<or> fs (butlast p) \<noteq> Some Directory then Inl PyOSError
      else Inr ((), fs(p \<mapsto> RegularFile [])))"

text \<open>
  Calls that change neither names nor contents here: \<^verbatim>\<open>os.chmod\<close>, \<^verbatim>\<open>os.fsync\<close>, \<^verbatim>\<open>os.close\<close>, and
  \<^verbatim>\<open>Path.resolve(strict=True)\<close>, which gives a path without symbolic links back as it is.
\<close>

definition fs_chmod :: "path \<Rightarrow> files \<Rightarrow> (unit \<times> files) res" where
  "fs_chmod p fs = (if fs p = None then Inl PyOSError else Inr ((), fs))"

definition fs_resolve :: "path \<Rightarrow> files \<Rightarrow> (path \<times> files) res" where
  "fs_resolve p fs = (if fs p = None then Inl PyOSError else Inr (p, fs))"

definition fs_descriptor :: "files \<Rightarrow> (unit \<times> files) res" where
  "fs_descriptor fs = Inr ((), fs)"

definition fs_append :: "path \<Rightarrow> bytes \<Rightarrow> files \<Rightarrow> (unit \<times> files) res" where
  "fs_append p bs fs =
     (case fs p of
        Some (RegularFile old) \<Rightarrow> Inr ((), fs(p \<mapsto> RegularFile (old @ bs)))
      | _ \<Rightarrow> Inl PyOSError)"

text \<open>\<^verbatim>\<open>os.rename\<close> of a regular file, which replaces an existing one but no directory.\<close>

definition fs_rename :: "path \<Rightarrow> path \<Rightarrow> files \<Rightarrow> (unit \<times> files) res" where
  "fs_rename a b fs =
     (case fs a of
        Some (RegularFile bs) \<Rightarrow>
          (if fs b = Some Directory \<or> b = [] \<or> fs (butlast b) \<noteq> Some Directory then Inl PyOSError
           else Inr ((), (fs(a := None))(b \<mapsto> RegularFile bs)))
      | _ \<Rightarrow> Inl PyOSError)"

text \<open>\<^verbatim>\<open>unlink(missing_ok=True)\<close>.\<close>

definition fs_unlink :: "path \<Rightarrow> files \<Rightarrow> (unit \<times> files) res" where
  "fs_unlink p fs = (if fs p = Some Directory then Inl PyOSError else Inr ((), fs(p := None)))"

text \<open>\<^verbatim>\<open>shutil.rmtree\<close>: all of a directory is removed, or a part of it before a call is refused.\<close>

definition fs_remove :: "path \<Rightarrow> (path \<Rightarrow> bool) \<Rightarrow> files \<Rightarrow> files" where
  "fs_remove p remains fs = (\<lambda>q. if within p q \<and> \<not> remains q then None else fs q)"

definition os_rmtree :: "path \<Rightarrow> (('h, 'z) local_world_scheme, unit) act" where
  "os_rmtree p w =
     (let n = lw_calls w; w' = w\<lparr>lw_calls := n + 1\<rparr>
      in if lw_refuses w SysRmtree p n
         then (Inl PyOSError, w'\<lparr>lw_files := fs_remove p (lw_remains w n) (lw_files w)\<rparr>)
         else (Inr (), w'\<lparr>lw_files := fs_remove p (\<lambda>_. False) (lw_files w)\<rparr>))"

text \<open>
  \<^verbatim>\<open>renameat2\<close> with \<^verbatim>\<open>RENAME_NOREPLACE\<close> (\<^verbatim>\<open>renamex_np\<close> with \<^verbatim>\<open>RENAME_EXCL\<close>): the whole directory
  moves in one step, or an error number says why not.
\<close>

datatype errno = EEXIST | ENOTEMPTY | OtherErrno

definition fs_rename_noreplace :: "path \<Rightarrow> path \<Rightarrow> files \<Rightarrow> errno + files" where
  "fs_rename_noreplace a b fs =
     (if fs b \<noteq> None then Inl EEXIST
      else if fs a = None \<or> b = [] \<or> fs (butlast b) \<noteq> Some Directory \<or> within a b then Inl OtherErrno
      else Inr (\<lambda>q. if within b q then fs (a @ drop (length b) q)
                     else if within a q then None else fs q))"

datatype platform = Linux | Darwin | OtherPlatform

text \<open>\<^verbatim>\<open>publish_no_replace\<close> of \<^verbatim>\<open>atomic_publish.py\<close>.\<close>

definition publish_no_replace ::
    "platform \<Rightarrow> path \<Rightarrow> path \<Rightarrow> (('h, 'z) local_world_scheme, unit) act" where
  "publish_no_replace host staging out w =
     (let w' = w\<lparr>lw_calls := lw_calls w + 1\<rparr>
      in if host = OtherPlatform then (Inl UnsupportedFilesystemError, w)
         else if lw_refuses w SysPublish staging (lw_calls w) then (Inl UnsupportedFilesystemError, w')
         else
           case fs_rename_noreplace staging out (lw_files w) of
             Inl number \<Rightarrow>
               (Inl (if number \<in> {EEXIST, ENOTEMPTY} then OutputExistsError
                     else UnsupportedFilesystemError), w')
           | Inr fs \<Rightarrow> (Inr (), w'\<lparr>lw_files := fs\<rparr>))"

text \<open>\<^verbatim>\<open>uuid4\<close>.\<close>

definition draw_uuid :: "(('h, 'z) local_world_scheme, uuid) act" where
  "draw_uuid w = (Inr (lw_uuids w (lw_drawn w)), w\<lparr>lw_drawn := lw_drawn w + 1\<rparr>)"

lemmas fs_defs = fs_lstat_def fs_mkdir_def fs_chmod_def fs_resolve_def fs_descriptor_def fs_create_def
  fs_append_def fs_rename_def fs_unlink_def fs_rename_noreplace_def

text \<open>The system calls by their names.\<close>

abbreviation os_lstat where "os_lstat p \<equiv> os_call SysLstat p (fs_lstat p)"
abbreviation os_mkdir where "os_mkdir p \<equiv> os_call SysMkdir p (fs_mkdir p)"
abbreviation os_chmod where "os_chmod p \<equiv> os_call SysChmod p (fs_chmod p)"
abbreviation os_resolve where "os_resolve p \<equiv> os_call SysResolve p (fs_resolve p)"
abbreviation os_create where "os_create p \<equiv> os_call SysOpen p (fs_create p)"
abbreviation os_write where "os_write p bs \<equiv> os_call SysWrite p (fs_append p bs)"
abbreviation os_fsync where "os_fsync p \<equiv> os_call SysFsync p fs_descriptor"
abbreviation os_close where "os_close p \<equiv> os_call SysClose p fs_descriptor"
abbreviation os_rename where "os_rename p q \<equiv> os_call SysRename p (fs_rename p q)"
abbreviation os_unlink where "os_unlink p \<equiv> os_call SysUnlink p (fs_unlink p)"

section \<open>The calls keep a tree\<close>

lemma tree_ok_upd:
  assumes "tree_ok fs" "p \<noteq> []" "fs (butlast p) = Some Directory" "fs p \<noteq> Some Directory \<or> x = Directory"
  shows "tree_ok (fs(p \<mapsto> x))"
  unfolding tree_ok_def
proof (intro conjI allI impI)
  show "(fs(p \<mapsto> x)) [] = Some Directory" using assms(1,2) by (simp add: tree_ok_def)
  fix q n assume "(fs(p \<mapsto> x)) (q @ [n]) \<noteq> None"
  then have "fs q = Some Directory"
    using assms(1,3) by (auto simp: tree_ok_def split: if_splits)
  then show "(fs(p \<mapsto> x)) q = Some Directory" using assms(4) by auto
qed

lemma tree_ok_drop_file:
  assumes "tree_ok fs" "fs p \<noteq> Some Directory"
  shows "tree_ok (fs(p := None))"
proof -
  have "fs (p @ [n]) = None" for n
    using tree_ok_parent [OF assms(1), of p n] assms(2) by (cases "fs (p @ [n])") auto
  then show ?thesis using assms by (auto simp: tree_ok_def)
qed

lemma os_call_Inr:
  "os_call c p f w = (Inr x, w') \<longleftrightarrow>
     \<not> lw_refuses w c p (lw_calls w)
     \<and> (\<exists>fs. f (lw_files w) = Inr (x, fs) \<and> w' = w\<lparr>lw_calls := lw_calls w + 1, lw_files := fs\<rparr>)"
  by (auto simp: os_call_def Let_def split: sum.splits prod.splits)

lemma os_call_Inl: "os_call c p f w = (Inl e, w') \<Longrightarrow> w' = w\<lparr>lw_calls := lw_calls w + 1\<rparr>"
  by (auto simp: os_call_def Let_def split: sum.splits prod.splits if_splits)

end
