(* ===== verification/TreeWriter.thy ===== *)
theory TreeWriter
  imports FileSystem "HOL-Library.AList"
begin

text \<open>
  \<^verbatim>\<open>AtomicTreeDownloader\<close> of \<^verbatim>\<open>robolake/infrastructure/atomic_tree.py\<close> with the download half of
  \<^verbatim>\<open>http_transfer.py\<close>: a tree is rebuilt in a private directory beside the output and moved to
  the output in one step. The answers of the HTTP client are part of the world.
\<close>

section \<open>Downloading one file\<close>

text \<open>
  A \<^verbatim>\<open>GET\<close> fails before an answer, or answers with a status and a body in chunks, and the
  stream may break after them (\<^verbatim>\<open>httpx.RequestError\<close>).
\<close>

datatype http_answer = NoAnswer | Answer int "bytes list" bool

type_synonym http_get = "presigned_request \<Rightarrow> http_answer"

definition retryable_status :: "int \<Rightarrow> bool" where
  "retryable_status status = (status \<in> {408, 429} \<or> 500 \<le> status)"

fun write_chunks :: "path \<Rightarrow> bytes list \<Rightarrow> (('h, 'z) local_world_scheme, unit) act" where
  "write_chunks part [] = answer (Inr ())"
| "write_chunks part (c # cs) = svc_bind (os_write part c) (\<lambda>_. write_chunks part cs)"

definition download_to :: "download_item \<Rightarrow> path \<Rightarrow> ((http_get, 'z) local_world_scheme, unit) act" where
  "download_to item part w =
     (case lw_http w (lw_calls w) (dit_request item) of
        NoAnswer \<Rightarrow> (Inl RetryableTransferError, w)
      | Answer status body broken \<Rightarrow>
          (if status \<noteq> 200
           then (Inl (if retryable_status status then RetryableTransferError
                      else TransferRejectedError), w)
           else
             svc_bind (write_chunks part body) (\<lambda>_.
               if broken then answer (Inl RetryableTransferError)
               else if int (length (concat body)) \<noteq> me_size (dit_entry item)
                       \<or> sha256_hex (concat body) \<noteq> digest_value (me_sha (dit_entry item))
               then answer (Inl StoredObjectMismatchError)
               else os_fsync part) w))"

section \<open>The downloader\<close>

text \<open>\<open>pst_open\<close>: the descriptor of the part file is open (\<^verbatim>\<open>descriptor >= 0\<close>).\<close>

record prepared_state =
  pst_entry :: manifest_entry
  pst_open :: bool
  pst_part :: path
  pst_final :: path

record tree_world = "http_get local_world" +
  tw_output :: "path option"
  tw_staging :: "path option"
  tw_parent :: "path option"
  tw_manifest :: "manifest option"
  tw_prepared :: "(uuid \<times> prepared_state) list"
  tw_completed :: "ustr list"

type_synonym 'a tree = "(tree_world, 'a) act"

text \<open>An assignment to the attributes of the downloader, which cannot fail.\<close>

definition assign :: "('w \<Rightarrow> 'w) \<Rightarrow> ('w, unit) act" where
  "assign f w = (Inr (), f w)"

text \<open>
  \<^verbatim>\<open>_require_existing_non_symlink_directory\<close>: \<open>current\<close> is the part of the path already seen.
\<close>

fun require_directories :: "path \<Rightarrow> ustr list \<Rightarrow> unit tree" where
  "require_directories current [] = answer (Inr ())"
| "require_directories current (n # ns) =
     svc_bind (os_lstat (current @ [n])) (\<lambda>found.
       if found = Some Directory then require_directories (current @ [n]) ns
       else answer (Inl UnsafePathError))"

text \<open>\<^verbatim>\<open>_mkdir_private_parents\<close>.\<close>

fun mkdir_parents :: "path \<Rightarrow> ustr list \<Rightarrow> unit tree" where
  "mkdir_parents current [] = answer (Inr ())"
| "mkdir_parents current (n # ns) =
     svc_bind (os_lstat (current @ [n])) (\<lambda>found.
       case found of
         None \<Rightarrow> svc_bind (os_mkdir (current @ [n])) (\<lambda>_. mkdir_parents (current @ [n]) ns)
       | Some Directory \<Rightarrow> mkdir_parents (current @ [n]) ns
       | Some _ \<Rightarrow> answer (Inl UnsafePathError))"

definition uuid_hex :: "uuid \<Rightarrow> ustr" where
  "uuid_hex u = hex_encode (uuid_bytes u)"

definition staging_name :: "path \<Rightarrow> uuid \<Rightarrow> ustr" where
  "staging_name out u = lit ''.robolake-'' @ last out @ lit ''-'' @ uuid_hex u @ lit ''.tmp''"

definition part_name :: "path \<Rightarrow> uuid \<Rightarrow> ustr" where
  "part_name final u = lit ''.'' @ last final @ lit ''.'' @ uuid_hex u @ lit ''.part''"

text \<open>The segments of the path of an entry.\<close>

definition segments :: "manifest_entry \<Rightarrow> ustr list" where
  "segments e = split_on 47 (rp_value (me_path e))"

definition tree_begin :: "unicode \<Rightarrow> path \<Rightarrow> manifest \<Rightarrow> unit tree" where
  "tree_begin U out m w =
     (if tw_staging w \<noteq> None then (Inl ContentConflictError, w)
      else
        case from_canonical_bytes U (mf_canonical m) of
          Inl err \<Rightarrow> (Inl err, w)
        | Inr canonical \<Rightarrow>
            (if mf_sha256 canonical \<noteq> mf_sha256 m then (Inl ManifestMismatchError, w)
             else
               svc_bind (require_directories [] (butlast out)) (\<lambda>_.
               svc_bind (os_lstat out) (\<lambda>found.
                 if found \<noteq> None then answer (Inl OutputExistsError)
                 else
                   svc_bind draw_uuid (\<lambda>u.
                   let staging = butlast out @ [staging_name out u]
                   in svc_bind (os_mkdir staging) (\<lambda>_.
                      svc_bind (os_chmod staging) (\<lambda>_.
                      svc_bind (assign (\<lambda>w. w\<lparr>tw_output := Some out, tw_staging := Some staging\<rparr>)) (\<lambda>_.
                      svc_bind (os_resolve (butlast out)) (\<lambda>parent.
                        assign (\<lambda>w. w\<lparr>tw_parent := Some parent, tw_manifest := Some canonical,
                                        tw_prepared := [], tw_completed := []\<rparr>)))))))) w))"

definition active :: "tree_world \<Rightarrow> (path \<times> manifest) res" where
  "active w =
     (case (tw_staging w, tw_manifest w) of
        (Some staging, Some m) \<Rightarrow> Inr (staging, m) | _ \<Rightarrow> Inl ContentConflictError)"

definition tree_prepare :: "manifest_entry \<Rightarrow> uuid tree" where
  "tree_prepare e w =
     (case active w of
        Inl err \<Rightarrow> (Inl err, w)
      | Inr (staging, m) \<Rightarrow>
          (if e \<notin> set (mf_entries m) then (Inl ManifestMismatchError, w)
           else
             let final = staging @ segments e
             in svc_bind (mkdir_parents staging (butlast (segments e))) (\<lambda>_.
                svc_bind draw_uuid (\<lambda>token.
                let part = butlast final @ [part_name final token]
                in svc_bind (os_create part) (\<lambda>_ w'.
                     (Inr token, w'\<lparr>tw_prepared :=
                        AList.update token \<lparr>pst_entry = e, pst_open = True, pst_part = part, pst_final = final\<rparr>
                          (tw_prepared w')\<rparr>)))) w))"

text \<open>\<^verbatim>\<open>state.descriptor = -1\<close> for the state kept under a token, and \<^verbatim>\<open>state.descriptor >= 0\<close>.\<close>

definition forget_descriptor :: "uuid \<Rightarrow> tree_world \<Rightarrow> tree_world" where
  "forget_descriptor token w =
     w\<lparr>tw_prepared := map (\<lambda>(t, st). (t, if t = token then st\<lparr>pst_open := False\<rparr> else st)) (tw_prepared w)\<rparr>"

definition descriptor_open :: "uuid \<Rightarrow> tree_world \<Rightarrow> bool" where
  "descriptor_open token w = (case map_of (tw_prepared w) token of None \<Rightarrow> False | Some st \<Rightarrow> pst_open st)"

text \<open>The body of the \<^verbatim>\<open>try\<close> in \<^verbatim>\<open>write\<close>, its handler, and \<^verbatim>\<open>write\<close> with its \<^verbatim>\<open>finally\<close>.\<close>

definition place_file :: "uuid \<Rightarrow> prepared_state \<Rightarrow> download_item \<Rightarrow> unit tree" where
  "place_file token st item =
     svc_bind (download_to item (pst_part st)) (\<lambda>_.
     svc_bind (os_close (pst_part st)) (\<lambda>_.
     svc_bind (assign (forget_descriptor token)) (\<lambda>_.
     svc_bind (os_rename (pst_part st) (pst_final st)) (\<lambda>_.
       assign (\<lambda>w. w\<lparr>tw_completed := List.insert (rp_value (me_path (pst_entry st))) (tw_completed w)\<rparr>)))))"

definition discard_file :: "uuid \<Rightarrow> prepared_state \<Rightarrow> unit tree" where
  "discard_file token st w =
     svc_bind
       (if descriptor_open token w
        then svc_bind (os_close (pst_part st)) (\<lambda>_. assign (forget_descriptor token))
        else answer (Inr ()))
       (\<lambda>_. os_unlink (pst_part st)) w"

definition tree_write :: "uuid \<Rightarrow> download_item \<Rightarrow> unit tree" where
  "tree_write token item w =
     (case map_of (tw_prepared w) token of
        None \<Rightarrow> (Inl ContentConflictError, w)
      | Some st \<Rightarrow>
          (if dit_entry item \<noteq> pst_entry st then (Inl ManifestMismatchError, w)
           else
             case svc_catch (place_file token st item) (discard_file token st) w of
               (r, w') \<Rightarrow> (r, w'\<lparr>tw_prepared := AList.delete token (tw_prepared w')\<rparr>)))"

definition tree_commit :: "platform \<Rightarrow> path tree" where
  "tree_commit host w =
     (case active w of
        Inl err \<Rightarrow> (Inl err, w)
      | Inr (staging, m) \<Rightarrow>
          (if tw_prepared w \<noteq> [] then (Inl ContentConflictError, w)
           else if set (tw_completed w) \<noteq> (\<lambda>e. rp_value (me_path e)) ` set (mf_entries m)
           then (Inl ManifestMismatchError, w)
           else
             case tw_output w of
               None \<Rightarrow> (Inl ContentConflictError, w)
             | Some out \<Rightarrow>
                 svc_bind (publish_no_replace host staging out) (\<lambda>_ w'.
                   (Inr out, w'\<lparr>tw_staging := None\<rparr>)) w))"

fun discard_parts :: "prepared_state list \<Rightarrow> unit tree" where
  "discard_parts [] = answer (Inr ())"
| "discard_parts (st # sts) =
     svc_bind (if pst_open st then os_close (pst_part st) else answer (Inr ())) (\<lambda>_.
     svc_bind (os_unlink (pst_part st)) (\<lambda>_. discard_parts sts))"

definition remove_staging :: "unit tree" where
  "remove_staging w =
     (case (tw_staging w, tw_parent w) of
        (Some staging, Some parent) \<Rightarrow>
          svc_bind (os_resolve (butlast staging)) (\<lambda>resolved.
            if resolved \<noteq> parent \<or> \<not> starts_with (lit ''.robolake-'') (last staging)
            then answer (Inl UnsafePathError)
            else
              svc_bind (os_lstat staging) (\<lambda>found.
                case found of
                  None \<Rightarrow> assign (\<lambda>w. w\<lparr>tw_staging := None\<rparr>)
                | Some Directory \<Rightarrow>
                    svc_bind (os_rmtree staging) (\<lambda>_. assign (\<lambda>w. w\<lparr>tw_staging := None\<rparr>))
                | Some _ \<Rightarrow> answer (Inl UnsafePathError))) w
      | _ \<Rightarrow> (Inr (), w))"

definition tree_abort :: "unit tree" where
  "tree_abort w =
     svc_bind (discard_parts (map snd (tw_prepared w))) (\<lambda>_.
     svc_bind (assign (\<lambda>w. w\<lparr>tw_prepared := []\<rparr>)) (\<lambda>_.
       remove_staging)) w"

end
