(* ===== verification/TreeRules.thy ===== *)
theory TreeRules
  imports TreeWriter
begin

text \<open>
  What a tree download guarantees, as a state machine of its own: every call confines its changes
  to the staging directory, each written file is verified, publication moves exactly the complete
  tree, and aborting leaves nothing outside the staging directory, and not even that when the
  operating system lets the cleaning calls through.
\<close>

section \<open>The staging directory confines every change\<close>

text \<open>What the calls of the file system leave of the downloader; of what is prepared, the tokens.\<close>

definition tw_view :: "tree_world \<Rightarrow> _" where
  "tw_view w =
     (tw_output w, tw_staging w, tw_parent w, tw_manifest w, map fst (tw_prepared w), tw_completed w)"

lemma tw_view_calls [simp]:
  "tw_view (snd (os_call k p g w)) = tw_view w"
  "tw_view (snd (os_rmtree p w)) = tw_view w"
  "tw_view (snd (draw_uuid w)) = tw_view w"
  "tw_view (forget_descriptor t w) = tw_view w"
  by (auto simp: tw_view_def os_call_def os_rmtree_def draw_uuid_def forget_descriptor_def Let_def
      split: sum.splits)

lemma attribute_calls [simp]:
  "tw_prepared (snd (os_call k p g w)) = tw_prepared w" "tw_parent (snd (os_call k p g w)) = tw_parent w"
  by (auto simp: os_call_def Let_def split: sum.splits)

lemma draw_uuid_files [simp]: "lw_files (snd (draw_uuid w)) = lw_files w"
  by (simp add: draw_uuid_def)

lemma forget_descriptor_reads [simp]:
  "lw_files (forget_descriptor t w) = lw_files w" "lw_refuses (forget_descriptor t w) = lw_refuses w"
  "tw_staging (forget_descriptor t w) = tw_staging w"
  by (simp_all add: forget_descriptor_def)

lemma assign_simp [simp]: "assign g w = (Inr (), g w)"
  by (simp add: assign_def)

subsection \<open>What the operating system refuses does not change\<close>

definition system_of :: "tree_world \<Rightarrow> tree_world \<Rightarrow> bool" where
  "system_of w0 w = (lw_refuses w = lw_refuses w0)"

lemma system_calls [simp]:
  "system_of w0 (snd (os_call k p g w)) = system_of w0 w"
  "system_of w0 (snd (os_rmtree p w)) = system_of w0 w"
  "system_of w0 (snd (draw_uuid w)) = system_of w0 w"
  "system_of w0 (forget_descriptor t w) = system_of w0 w"
  by (auto simp: system_of_def os_call_def os_rmtree_def draw_uuid_def Let_def split: sum.splits)

lemma system_updates [simp]:
  "system_of w0 (w\<lparr>tw_output := a\<rparr>) = system_of w0 w" "system_of w0 (w\<lparr>tw_staging := a\<rparr>) = system_of w0 w"
  "system_of w0 (w\<lparr>tw_parent := a\<rparr>) = system_of w0 w" "system_of w0 (w\<lparr>tw_manifest := m\<rparr>) = system_of w0 w"
  "system_of w0 (w\<lparr>tw_prepared := ps\<rparr>) = system_of w0 w"
  "system_of w0 (w\<lparr>tw_completed := cs\<rparr>) = system_of w0 w"
  by (simp_all add: system_of_def)

lemmas system_bind = svc_bind_keeps [where P = "system_of w0" for w0]

lemma require_directories_system: "system_of w0 w \<Longrightarrow> system_of w0 (snd (require_directories cur ns w))"
  by (induction ns arbitrary: cur w) (auto intro!: system_bind)

lemma mkdir_parents_system: "system_of w0 w \<Longrightarrow> system_of w0 (snd (mkdir_parents cur ns w))"
  by (induction ns arbitrary: cur w) (auto intro!: system_bind split: option.split node.split)

lemma write_chunks_system: "system_of w0 w \<Longrightarrow> system_of w0 (snd (write_chunks p cs w))"
  by (induction cs arbitrary: w) (auto intro!: system_bind)

lemma download_system: "system_of w0 w \<Longrightarrow> system_of w0 (snd (download_to item p w))"
  by (auto simp: download_to_def intro!: system_bind write_chunks_system split: http_answer.split)

lemma place_file_system: "system_of w0 w \<Longrightarrow> system_of w0 (snd (place_file t st item w))"
  by (auto simp: place_file_def intro!: system_bind download_system)

lemma discard_file_system: "system_of w0 w \<Longrightarrow> system_of w0 (snd (discard_file t st w))"
  by (auto simp: discard_file_def intro!: system_bind)

lemma discard_parts_system: "system_of w0 w \<Longrightarrow> system_of w0 (snd (discard_parts sts w))"
proof (induction sts arbitrary: w)
  case (Cons st sts)
  show ?case
    unfolding discard_parts.simps
    by (rule system_bind [OF Cons.prems], simp, rule system_bind) (simp_all add: Cons.IH)
qed simp

lemma publish_system: "system_of w0 w \<Longrightarrow> system_of w0 (snd (publish_no_replace host a b w))"
  by (auto simp: publish_no_replace_def system_of_def Let_def split: sum.split)

lemma catch_system:
  assumes "system_of w0 w" "\<And>w. system_of w0 w \<Longrightarrow> system_of w0 (snd (m w))"
    and "\<And>w. system_of w0 w \<Longrightarrow> system_of w0 (snd (k w))"
  shows "system_of w0 (snd (svc_catch m k w))"
proof -
  obtain r w' where m: "m w = (r, w')" by fastforce
  then have "system_of w0 w'" using assms(2) [OF assms(1)] by simp
  then show ?thesis
    using m assms(3) [of w'] by (auto simp: svc_catch_def split: prod.split sum.split)
qed

lemma tree_system:
  "system_of w0 w \<Longrightarrow> system_of w0 (snd (tree_begin U out m w))"
  "system_of w0 w \<Longrightarrow> system_of w0 (snd (tree_prepare e w))"
  "system_of w0 w \<Longrightarrow> system_of w0 (snd (tree_write t item w))"
  "system_of w0 w \<Longrightarrow> system_of w0 (snd (tree_commit host w))"
proof -
  show "system_of w0 w \<Longrightarrow> system_of w0 (snd (tree_begin U out m w))"
    by (auto simp: tree_begin_def Let_def intro!: system_bind require_directories_system split: sum.split)
  show "system_of w0 w \<Longrightarrow> system_of w0 (snd (tree_prepare e w))"
    by (auto simp: tree_prepare_def Let_def intro!: system_bind mkdir_parents_system split: sum.split)
  show "system_of w0 w \<Longrightarrow> system_of w0 (snd (tree_write t item w))"
    using catch_system [OF _ place_file_system discard_file_system]
    by (auto simp: tree_write_def prod.case_eq_if split: option.split)
  show "system_of w0 w \<Longrightarrow> system_of w0 (snd (tree_commit host w))"
    by (auto simp: tree_commit_def intro!: system_bind publish_system split: sum.split option.split)
qed

subsection \<open>The calls that clean up\<close>

text \<open>
  The operating system lets the calls through that clean up after a failure, and those between
  making the staging directory and recording it.
\<close>

definition cleanup_works :: "tree_world \<Rightarrow> bool" where
  "cleanup_works w =
     (\<forall>p n. (\<forall>c \<in> {SysChmod, SysResolve, SysClose, SysUnlink, SysRmtree}. \<not> lw_refuses w c p n)
        \<and> (p \<noteq> [] \<longrightarrow> starts_with (lit ''.robolake-'') (last p) \<longrightarrow> \<not> lw_refuses w SysLstat p n))"

lemma cleanup_system: "system_of w0 w \<Longrightarrow> cleanup_works w = cleanup_works w0"
  by (simp add: system_of_def cleanup_works_def)

lemma system_refl [simp]: "system_of w w"
  by (simp add: system_of_def)

lemma cleanup_refused:
  assumes "cleanup_works w"
  shows "\<not> lw_refuses w SysChmod p n" "\<not> lw_refuses w SysResolve p n" "\<not> lw_refuses w SysClose p n"
    "\<not> lw_refuses w SysUnlink p n" "\<not> lw_refuses w SysRmtree p n"
    "p \<noteq> [] \<Longrightarrow> starts_with (lit ''.robolake-'') (last p) \<Longrightarrow> \<not> lw_refuses w SysLstat p n"
  using assms by (auto simp: cleanup_works_def)

text \<open>
  \<open>scoped s f w\<close>: the staging directory \<open>s\<close> is active, and outside it the files are still \<open>f\<close>, which
  had nothing there.
\<close>

definition confined :: "path \<Rightarrow> files \<Rightarrow> files \<Rightarrow> bool" where
  "confined s f fs =
     (tree_ok fs \<and> fs s = Some Directory \<and> (\<forall>p. \<not> within s p \<longrightarrow> fs p = f p))"

definition scoped :: "path \<Rightarrow> files \<Rightarrow> tree_world \<Rightarrow> bool" where
  "scoped s f w =
     (tree_ok f \<and> s \<noteq> [] \<and> tw_staging w = Some s
      \<and> starts_with (lit ''.robolake-'') (last s) \<and> (\<forall>p. within s p \<longrightarrow> f p = None)
      \<and> confined s f (lw_files w))"

text \<open>
  \<open>left_behind out f fs\<close>: against \<open>f\<close>, the files \<open>fs\<close> have at most one directory more, a private
  sibling of \<open>out\<close> that was not there, with whatever is in it.
\<close>

definition private_sibling :: "path \<Rightarrow> path \<Rightarrow> bool" where
  "private_sibling out s =
     (s \<noteq> [] \<and> s \<noteq> out \<and> butlast s = butlast out \<and> starts_with (lit ''.robolake-'') (last s))"

definition left_behind :: "path \<Rightarrow> files \<Rightarrow> files \<Rightarrow> bool" where
  "left_behind out f fs =
     (fs = f \<or> (\<exists>s. private_sibling out s \<and> (\<forall>p. within s p \<longrightarrow> f p = None)
                  \<and> (\<forall>p. \<not> within s p \<longrightarrow> fs p = f p)))"

lemma left_behind_self [simp]: "left_behind out f f"
  by (simp add: left_behind_def)

lemma siblings_apart:
  assumes "private_sibling out s" "out \<noteq> []" "within out p"
  shows "\<not> within s p"
proof
  assume "within s p"
  then have "take (length s) p = s" "take (length out) p = out" using assms(3) by (auto simp: within_def)
  moreover have "length s = length out"
  proof -
    have "length (butlast s) = length (butlast out)" using assms(1) by (simp only: private_sibling_def)
    then have "length s - 1 = length out - 1" by simp
    moreover have "0 < length s" "0 < length out" using assms(1,2) by (simp_all add: private_sibling_def)
    ultimately show ?thesis by linarith
  qed
  ultimately have "s = out" by metis
  then show False using assms(1) by (simp add: private_sibling_def)
qed

text \<open>Whatever a failure leaves behind, the output is not created and not touched.\<close>

lemma left_behind_output: "left_behind out f fs \<Longrightarrow> out \<noteq> [] \<Longrightarrow> within out p \<Longrightarrow> fs p = f p"
  using siblings_apart by (auto simp: left_behind_def)

lemma scoped_left_behind: "scoped s f w \<Longrightarrow> private_sibling out s \<Longrightarrow> left_behind out f (lw_files w)"
  by (auto simp: left_behind_def scoped_def confined_def)

lemma confined_upd:
  assumes "confined s f fs" "within s p" "p \<noteq> s" "s \<noteq> []"
  shows "fs (butlast p) = Some Directory \<Longrightarrow> fs p \<noteq> Some Directory \<or> x = Directory \<Longrightarrow> confined s f (fs(p \<mapsto> x))"
    and "fs p \<noteq> Some Directory \<Longrightarrow> confined s f (fs(p := None))"
  using assms tree_ok_upd [of fs p x] tree_ok_drop_file [of fs p]
  by (auto simp: confined_def within_iff)

lemma confined_calls:
  assumes "confined s f fs" "within s p" "p \<noteq> s" "s \<noteq> []"
  shows "fs_mkdir p fs = Inr (u, fs') \<Longrightarrow> confined s f fs'"
    and "fs_create p fs = Inr (u, fs') \<Longrightarrow> confined s f fs'"
    and "fs_append p bs fs = Inr (u, fs') \<Longrightarrow> confined s f fs'"
    and "fs_unlink p fs = Inr (u, fs') \<Longrightarrow> confined s f fs'"
    and "fs_lstat q fs = Inr (v, fs') \<Longrightarrow> confined s f fs'"
    and "within s q \<Longrightarrow> q \<noteq> s \<Longrightarrow> fs_rename p q fs = Inr (u, fs') \<Longrightarrow> confined s f fs'"
proof -
  note upd = confined_upd [OF assms]
  have above: "fs (butlast p) = Some Directory" if "fs p \<noteq> None"
    using assms that tree_okD [of fs p] by (auto simp: confined_def within_iff)
  show "fs_mkdir p fs = Inr (u, fs') \<Longrightarrow> confined s f fs'"
    "fs_create p fs = Inr (u, fs') \<Longrightarrow> confined s f fs'"
    "fs_unlink p fs = Inr (u, fs') \<Longrightarrow> confined s f fs'"
    "fs_lstat q fs = Inr (v, fs') \<Longrightarrow> confined s f fs'"
    using upd assms(1) by (auto simp: fs_defs split: if_splits)
  show "fs_append p bs fs = Inr (u, fs') \<Longrightarrow> confined s f fs'"
    using upd(1) above by (auto simp: fs_defs split: option.splits node.splits)
  assume q: "within s q" "q \<noteq> s" "fs_rename p q fs = Inr (u, fs')"
  then obtain bs where r: "fs p = Some (RegularFile bs)" "fs q \<noteq> Some Directory"
      "fs (butlast q) = Some Directory" "fs' = (fs(p := None))(q \<mapsto> RegularFile bs)"
    by (auto simp: fs_defs split: option.splits node.splits if_splits)
  have "confined s f (fs(p := None))" using upd(2) r(1) by simp
  moreover have "butlast q \<noteq> p" using r(1,3) by auto
  ultimately show "confined s f fs'"
    using confined_upd(1) [of s f "fs(p := None)" q "RegularFile bs"] q(1,2) assms(4) r by auto
qed

lemma confined_reads:
  assumes "confined s f fs"
  shows "fs_lstat q fs = Inr (v, fs') \<Longrightarrow> confined s f fs'" "fs_resolve q fs = Inr (x, fs') \<Longrightarrow> confined s f fs'"
    "fs_descriptor fs = Inr (u, fs') \<Longrightarrow> confined s f fs'"
  using assms by (auto simp: fs_defs split: if_splits)

lemma scoped_call:
  assumes "scoped s f w" "\<And>fs' x. confined s f (lw_files w) \<Longrightarrow> g (lw_files w) = Inr (x, fs') \<Longrightarrow> confined s f fs'"
  shows "scoped s f (snd (os_call k p g w))"
  using assms by (auto simp: scoped_def os_call_def Let_def split: sum.splits prod.splits)

lemma scoped_nonempty: "scoped s f w \<Longrightarrow> s \<noteq> []"
  by (simp add: scoped_def)

lemma scoped_calls:
  assumes "scoped s f w" "within s p" "p \<noteq> s"
  shows "scoped s f (snd (os_mkdir p w))" "scoped s f (snd (os_create p w))"
    "scoped s f (snd (os_write p bs w))" "scoped s f (snd (os_unlink p w))"
    "within s q \<Longrightarrow> q \<noteq> s \<Longrightarrow> scoped s f (snd (os_rename p q w))"
  using assms scoped_nonempty [OF assms(1)] by (auto intro!: scoped_call dest: confined_calls)

lemma scoped_reads:
  assumes "scoped s f w"
  shows "scoped s f (snd (os_lstat q w))" "scoped s f (snd (draw_uuid w))" "scoped s f (snd (os_resolve q w))"
    "scoped s f (snd (os_close q w))" "scoped s f (snd (os_fsync q w))" "scoped s f (forget_descriptor t w)"
  using assms by (auto intro!: scoped_call dest: confined_reads)
    (simp_all add: scoped_def draw_uuid_def forget_descriptor_def)

text \<open>The world as the calls in the staging directory keep it.\<close>

definition kept :: "path \<Rightarrow> files \<Rightarrow> tree_world \<Rightarrow> tree_world \<Rightarrow> bool" where
  "kept s f w0 w = (scoped s f w \<and> tw_view w = tw_view w0)"

lemma kept_answer: "kept s f w0 w \<Longrightarrow> kept s f w0 (snd (answer r w))"
  by simp

lemma kept_calls:
  assumes "within s p" "p \<noteq> s" "kept s f w0 w"
  shows "kept s f w0 (snd (os_mkdir p w))" "kept s f w0 (snd (os_create p w))"
    "kept s f w0 (snd (os_write p bs w))" "kept s f w0 (snd (os_unlink p w))"
    "within s q \<Longrightarrow> q \<noteq> s \<Longrightarrow> kept s f w0 (snd (os_rename p q w))"
  using assms by (auto simp: kept_def scoped_calls)

lemma kept_reads:
  assumes "kept s f w0 w"
  shows "kept s f w0 (snd (os_lstat q w))" "kept s f w0 (snd (draw_uuid w))" "kept s f w0 (snd (os_fsync q w))"
    "kept s f w0 (snd (os_close q w))" "kept s f w0 (forget_descriptor t w)"
  using assms by (auto simp: kept_def scoped_reads)

lemma mkdir_parents_kept:
  "within s current \<Longrightarrow> kept s f w0 w \<Longrightarrow> kept s f w0 (snd (mkdir_parents current ns w))"
proof (induction ns arbitrary: current w)
  case (Cons n ns)
  have c: "within s (current @ [n])" "current @ [n] \<noteq> s"
    using Cons.prems(1) by (auto simp: within_iff)
  show ?case
    unfolding mkdir_parents.simps
    by (rule svc_bind_keeps)
       (use Cons.prems c in \<open>auto intro!: svc_bind_keeps [where P = "kept s f w0"] kept_calls kept_reads Cons.IH
          split: option.split node.split\<close>)
qed simp

lemma write_chunks_kept:
  "within s p \<Longrightarrow> p \<noteq> s \<Longrightarrow> kept s f w0 w \<Longrightarrow> kept s f w0 (snd (write_chunks p cs w))"
  by (induction cs arbitrary: w) (auto intro!: svc_bind_keeps [where P = "kept s f w0"] kept_calls)

lemma download_kept:
  "within s p \<Longrightarrow> p \<noteq> s \<Longrightarrow> kept s f w0 w \<Longrightarrow> kept s f w0 (snd (download_to item p w))"
  by (auto simp: download_to_def
      intro!: svc_bind_keeps [where P = "kept s f w0"] kept_calls kept_reads write_chunks_kept split: http_answer.split)

lemma discard_file_kept:
  assumes "within s (pst_part st)" "pst_part st \<noteq> s" "kept s f w0 w"
  shows "kept s f w0 (snd (discard_file t st w))"
  unfolding discard_file_def
  by (rule svc_bind_keeps [where P = "kept s f w0", OF assms(3)])
     (auto intro!: svc_bind_keeps [where P = "kept s f w0"] kept_reads kept_calls(4) [OF assms(1,2)])

section \<open>What each call of the downloader keeps\<close>

text \<open>
  \<open>safe out f w\<close>: aborting leaves at most a private sibling of \<open>out\<close> behind, and gives the files \<open>f\<close>
  back when the calls that clean up work. With a staging directory, the changes are confined to it;
  without one, nothing has changed, or the directory was made and not recorded, which needs a call
  refused.
\<close>

definition safe :: "path \<Rightarrow> files \<Rightarrow> tree_world \<Rightarrow> bool" where
  "safe out f w =
     (case tw_staging w of
        None \<Rightarrow>
          tw_prepared w = [] \<and> (lw_files w = f \<or> \<not> cleanup_works w \<and> left_behind out f (lw_files w))
      | Some s \<Rightarrow>
          private_sibling out s \<and> scoped s f w \<and> (cleanup_works w \<longrightarrow> tw_parent w = Some (butlast s))
          \<and> (\<forall>st \<in> set (map snd (tw_prepared w)).
               within s (pst_part st) \<and> pst_part st \<noteq> s \<and> lw_files w (pst_part st) \<noteq> Some Directory))"

lemma tw_view_staging: "tw_view w = tw_view w0 \<Longrightarrow> tw_staging w = tw_staging w0
    \<and> map fst (tw_prepared w) = map fst (tw_prepared w0) \<and> tw_manifest w = tw_manifest w0
    \<and> tw_output w = tw_output w0 \<and> tw_completed w = tw_completed w0 \<and> tw_parent w = tw_parent w0"
  by (simp add: tw_view_def)

lemma safe_kept:
  "kept s f w0 w \<Longrightarrow> tw_prepared w0 = [] \<Longrightarrow> private_sibling out s \<Longrightarrow> tw_parent w0 = Some (butlast s)
   \<Longrightarrow> safe out f w"
proof -
  assume a: "kept s f w0 w" "tw_prepared w0 = []" "private_sibling out s" "tw_parent w0 = Some (butlast s)"
  then have "tw_staging w = Some s" "tw_prepared w = []" "tw_parent w = Some (butlast s)"
    using tw_view_staging [of w w0] by (auto simp: kept_def scoped_def)
  then show "safe out f w" using a(1,3) by (simp add: safe_def kept_def)
qed

subsection \<open>Aborting\<close>

lemma discard_parts_scoped:
  "scoped s f w \<Longrightarrow> \<forall>st \<in> set sts. within s (pst_part st) \<and> pst_part st \<noteq> s
   \<Longrightarrow> scoped s f (snd (discard_parts sts w)) \<and> tw_parent (snd (discard_parts sts w)) = tw_parent w"
proof (induction sts arbitrary: w)
  case (Cons st sts)
  let ?P = "\<lambda>w'. scoped s f w' \<and> tw_parent w' = tw_parent w"
  have "?P (snd (os_close (pst_part st) v))" "?P (snd (os_unlink (pst_part st) v))" if "?P v" for v
    using that Cons.prems(2) by (auto simp: scoped_reads scoped_calls)
  then show ?case
    using Cons.prems Cons.IH unfolding discard_parts.simps
    by (intro svc_bind_keeps [where P = ?P]) auto
qed simp

lemma discard_parts_works:
  "cleanup_works w \<Longrightarrow> \<forall>st \<in> set sts. lw_files w (pst_part st) \<noteq> Some Directory \<Longrightarrow> \<exists>w'. discard_parts sts w = (Inr (), w')"
proof (induction sts arbitrary: w)
  case (Cons st sts)
  have close: "\<exists>v. (if pst_open st then os_close (pst_part st) else answer (Inr ())) w = (Inr (), v)
      \<and> lw_files v = lw_files w \<and> system_of w v"
    using cleanup_refused(3) [OF Cons.prems(1)] by (simp add: os_call_def fs_descriptor_def Let_def system_of_def)
  then obtain v where v: "(if pst_open st then os_close (pst_part st) else answer (Inr ())) w = (Inr (), v)"
      "lw_files v = lw_files w" "cleanup_works v"
    using cleanup_system Cons.prems(1) by metis
  obtain x where x: "os_unlink (pst_part st) v = (Inr (), x)" "lw_files x = (lw_files w)(pst_part st := None)"
      "system_of v x"
    using cleanup_refused(4) [OF v(3)] v(2) Cons.prems(2)
    by (simp add: os_call_def fs_unlink_def Let_def system_of_def)
  have "cleanup_works x" using cleanup_system [OF x(3)] v(3) by simp
  moreover have "\<forall>st \<in> set sts. lw_files x (pst_part st) \<noteq> Some Directory" using Cons.prems(2) x(2) by simp
  ultimately obtain w' where "discard_parts sts x = (Inr (), w')" using Cons.IH by blast
  then show ?case using v(1) x(1) by (simp add: svc_bind_def)
qed simp

text \<open>A removal, whole or in part, changes nothing outside the directory.\<close>

lemma rmtree_left_behind:
  assumes "scoped s f w" "private_sibling out s"
  shows "left_behind out f (lw_files (snd (os_rmtree s w)))"
proof -
  have "(\<forall>p. within s p \<longrightarrow> f p = None) \<and> (\<forall>p. \<not> within s p \<longrightarrow> lw_files (snd (os_rmtree s w)) p = f p)"
    using assms(1) by (simp add: os_rmtree_def fs_remove_def Let_def scoped_def confined_def)
  then show ?thesis using assms(2) by (auto simp: left_behind_def)
qed

lemma remove_staging_leaves:
  assumes "scoped s f w" "private_sibling out s"
  shows "left_behind out f (lw_files (snd (remove_staging w)))"
proof -
  let ?L = "\<lambda>w. left_behind out f (lw_files w)"
  let ?P = "scoped s f"
  have L: "?L v" if "?P v" for v using scoped_left_behind [OF that assms(2)] .
  obtain r1 w1 where r1: "os_resolve (butlast s) w = (r1, w1)" by fastforce
  then have s1: "?P w1" using scoped_reads(3) [OF assms(1)] by (metis snd_conv)
  obtain r2 w2 where r2: "os_lstat s w1 = (r2, w2)" by fastforce
  then have s2: "?P w2" using scoped_reads(1) [OF s1] by (metis snd_conv)
  obtain r3 w3 where r3: "os_rmtree s w2 = (r3, w3)" by fastforce
  then have s3: "?L w3" using rmtree_left_behind [OF s2 assms(2)] by (metis snd_conv)
  have st: "tw_staging w = Some s" using assms(1) by (simp add: scoped_def)
  show ?thesis
    using r1 r2 r3 s3 L [OF assms(1)] L [OF s1] L [OF s2]
    by (auto simp: remove_staging_def st svc_bind_def split: option.split sum.split node.split)
qed

lemma remove_staging_works:
  assumes "scoped s f w" "cleanup_works w" "tw_parent w = Some (butlast s)"
  shows "\<exists>w'. remove_staging w = (Inr (), w') \<and> lw_files w' = f"
proof -
  have c: "s \<noteq> []" "tw_staging w = Some s" "starts_with (lit ''.robolake-'') (last s)" "tree_ok (lw_files w)"
      "lw_files w s = Some Directory" "\<And>p. within s p \<Longrightarrow> f p = None" "\<And>p. \<not> within s p \<Longrightarrow> lw_files w p = f p"
    using assms(1) by (auto simp: scoped_def confined_def)
  have "lw_files w (butlast s) = Some Directory" using tree_okD [OF c(4), of s] c(1,5) by simp
  moreover have "fs_remove s (\<lambda>_. False) (lw_files w) = f"
    using c(6,7) by (auto simp: fs_remove_def fun_eq_iff)
  ultimately show ?thesis
    using c(1-3,5) assms(3) cleanup_refused [OF assms(2)]
    by (simp add: remove_staging_def svc_bind_def os_call_def os_rmtree_def fs_resolve_def fs_lstat_def Let_def)
qed

lemma abort_restores:
  assumes "safe out f w" "tree_abort w = (r, w')"
  shows "left_behind out f (lw_files w')" and "cleanup_works w \<Longrightarrow> lw_files w' = f"
proof -
  have "left_behind out f (lw_files w') \<and> (cleanup_works w \<longrightarrow> lw_files w' = f)"
  proof (cases "tw_staging w")
    case None
    then show ?thesis
      using assms by (auto simp: safe_def tree_abort_def svc_bind_def remove_staging_def)
  next
    case (Some s)
    then have sf: "private_sibling out s" "scoped s f w" "cleanup_works w \<Longrightarrow> tw_parent w = Some (butlast s)"
        "\<forall>st \<in> set (map snd (tw_prepared w)). within s (pst_part st) \<and> pst_part st \<noteq> s"
        "\<forall>st \<in> set (map snd (tw_prepared w)). lw_files w (pst_part st) \<noteq> Some Directory"
      using assms(1) by (auto simp: safe_def)
    obtain r1 w1 where d: "discard_parts (map snd (tw_prepared w)) w = (r1, w1)" by fastforce
    have k: "scoped s f w1" "tw_parent w1 = tw_parent w" "system_of w w1"
      using discard_parts_scoped [OF sf(2,4)] discard_parts_system [of w w "map snd (tw_prepared w)"] d by simp_all
    let ?w = "w1\<lparr>tw_prepared := []\<rparr>"
    have k': "scoped s f ?w" "tw_parent ?w = tw_parent w" "cleanup_works ?w = cleanup_works w"
      using k cleanup_system [of w ?w] by (simp_all add: scoped_def)
    have "left_behind out f (lw_files w')"
      using assms(2) d remove_staging_leaves [OF k'(1) sf(1)] scoped_left_behind [OF k(1) sf(1)]
      by (cases r1) (auto simp: tree_abort_def svc_bind_def)
    moreover have "lw_files w' = f" if c: "cleanup_works w"
    proof -
      have "r1 = Inr ()" using discard_parts_works [OF c sf(5)] d by auto
      moreover obtain x where "remove_staging ?w = (Inr (), x)" "lw_files x = f"
        using remove_staging_works [OF k'(1)] k'(2,3) c sf(3) by auto
      ultimately show ?thesis using assms(2) d by (simp add: tree_abort_def svc_bind_def)
    qed
    ultimately show ?thesis by blast
  qed
  then show "left_behind out f (lw_files w')" "cleanup_works w \<Longrightarrow> lw_files w' = f" by blast+
qed

section \<open>What has been written so far\<close>

definition verified :: "manifest_entry \<Rightarrow> bytes \<Rightarrow> bool" where
  "verified e b = (int (length b) = me_size e \<and> sha256_hex b = digest_value (me_sha e))"

text \<open>
  Under \<open>s\<close> there are exactly the files of the entries \<open>D\<close>, with verified content, and directories
  on the way to entries of the manifest \<open>m\<close>.
\<close>

definition holds_files :: "path \<Rightarrow> manifest_entry set \<Rightarrow> manifest \<Rightarrow> files \<Rightarrow> bool" where
  "holds_files s D m fs =
     ((\<forall>r b. fs (s @ r) = Some (RegularFile b) \<longrightarrow> (\<exists>e \<in> D. r = segments e \<and> verified e b))
      \<and> (\<forall>e \<in> D. \<exists>b. fs (s @ segments e) = Some (RegularFile b) \<and> verified e b)
      \<and> (\<forall>r. fs (s @ r) \<noteq> Some SymbolicLink)
      \<and> (\<forall>r. r \<noteq> [] \<longrightarrow> fs (s @ r) = Some Directory \<longrightarrow>
           (\<exists>e \<in> set (mf_entries m). \<exists>q. q \<noteq> [] \<and> segments e = r @ q)))"

text \<open>A download of \<open>m\<close> to \<open>out\<close> is active in \<open>s\<close>, with the files \<open>D\<close> completed.\<close>

definition ongoing ::
    "unicode \<Rightarrow> files \<Rightarrow> path \<Rightarrow> manifest \<Rightarrow> manifest_entry set \<Rightarrow> path \<Rightarrow> manifest \<Rightarrow> tree_world \<Rightarrow> bool" where
  "ongoing U f out m D s c w =
     (unicode_laws U \<and> scoped s f w \<and> out \<noteq> [] \<and> f out = None
      \<and> private_sibling out s \<and> tw_parent w = Some (butlast s) \<and> tw_output w = Some out \<and> tw_manifest w = Some c
      \<and> from_canonical_bytes U (mf_canonical m) = Inr c \<and> mf_sha256 c = mf_sha256 m
      \<and> D \<subseteq> set (mf_entries c) \<and> set (tw_completed w) = (\<lambda>e. rp_value (me_path e)) ` D)"

definition placed :: "unicode \<Rightarrow> files \<Rightarrow> path \<Rightarrow> manifest \<Rightarrow> manifest_entry set \<Rightarrow> tree_world \<Rightarrow> bool" where
  "placed U f out m D w =
     (\<exists>s c. ongoing U f out m D s c w \<and> tw_prepared w = [] \<and> holds_files s D c (lw_files w))"

definition tree_idle :: "unicode \<Rightarrow> tree_world \<Rightarrow> bool" where
  "tree_idle U w =
     (unicode_laws U \<and> tree_ok (lw_files w) \<and> tw_staging w = None \<and> tw_prepared w = [])"

lemma placed_safe: "placed U f out m D w \<Longrightarrow> safe out f w"
  by (auto simp: placed_def ongoing_def safe_def scoped_def)

subsection \<open>Beginning\<close>

lemma require_directories_reads:
  "lw_files (snd (require_directories cur ns w)) = lw_files w
   \<and> tw_view (snd (require_directories cur ns w)) = tw_view w"
proof (induction ns arbitrary: cur w)
  case (Cons n ns)
  then show ?case
    by (auto simp: svc_bind_def os_call_def fs_lstat_def Let_def split: sum.splits prod.splits)
       (simp_all add: tw_view_def)
qed simp

text \<open>
  Making the staging directory and recording it: the calls between may be refused, and then the
  directory stays, unrecorded or without its parent.
\<close>

lemma staging_cases:
  assumes "svc_bind (os_mkdir s) (\<lambda>_. svc_bind (os_chmod s) (\<lambda>_.
      svc_bind (assign (\<lambda>w. w\<lparr>tw_output := Some out, tw_staging := Some s\<rparr>)) (\<lambda>_.
      svc_bind (os_resolve up) (\<lambda>parent.
        assign (\<lambda>w. w\<lparr>tw_parent := Some parent, tw_manifest := Some c, tw_prepared := [], tw_completed := []\<rparr>))))) w
      = (r, w')"
    and "up \<noteq> s" "butlast s = up" "s \<noteq> []"
  obtains (refused) e where "r = Inl e" "lw_files w' = lw_files w" "tw_view w' = tw_view w"
  | (unrecorded) e where "r = Inl e" "fs_mkdir s (lw_files w) = Inr ((), lw_files w')" "tw_view w' = tw_view w"
      "\<not> cleanup_works w"
  | (parentless) e where "r = Inl e" "fs_mkdir s (lw_files w) = Inr ((), lw_files w')" "tw_staging w' = Some s"
      "tw_prepared w' = tw_prepared w" "\<not> cleanup_works w"
  | (started) "r = Inr ()" "fs_mkdir s (lw_files w) = Inr ((), lw_files w')"
      "tw_view w' = (Some out, Some s, Some up, Some c, [], [])"
proof -
  obtain r1 w1 where r1: "os_mkdir s w = (r1, w1)" by fastforce
  have v1: "tw_view w1 = tw_view w" "tw_prepared w1 = tw_prepared w" "lw_refuses w1 = lw_refuses w"
    using tw_view_calls(1) [of SysMkdir s "fs_mkdir s" w] attribute_calls(1) [of SysMkdir s "fs_mkdir s" w]
      system_calls(1) [of w SysMkdir s "fs_mkdir s" w] r1 by (simp_all add: system_of_def)
  show ?thesis
  proof (cases r1)
    case (Inl e)
    then have "r = Inl e" "w' = w1" using assms(1) r1 by (simp_all add: svc_bind_def)
    then show ?thesis using refused v1(1) os_call_Inl r1 Inl by fastforce
  next
    case (Inr u)
    then have mk: "fs_mkdir s (lw_files w) = Inr ((), lw_files w1)" using r1 by (auto simp: os_call_Inr)
    then have "lw_files w1 = (lw_files w)(s \<mapsto> Directory)" "lw_files w up = Some Directory"
      using assms(3) by (simp_all add: fs_mkdir_def split: if_splits)
    then have at: "lw_files w1 s = Some Directory" "lw_files w1 up = Some Directory"
      using assms(2) by simp_all
    obtain r2 w2 where r2: "os_chmod s w1 = (r2, w2)" by fastforce
    have v2: "lw_files w2 = lw_files w1" "tw_view w2 = tw_view w" "tw_prepared w2 = tw_prepared w"
        "lw_refuses w2 = lw_refuses w" "r2 = Inl e \<Longrightarrow> lw_refuses w SysChmod s (lw_calls w1)" for e
      using r2 v1 at by (auto simp: os_call_def fs_chmod_def Let_def tw_view_def split: if_splits)
    show ?thesis
    proof (cases r2)
      case (Inl e)
      then have "r = Inl e" "w' = w2" using assms(1) r1 Inr r2 by (simp_all add: svc_bind_def)
      moreover have "\<not> cleanup_works w" using v2(5) [OF Inl] cleanup_refused(1) by blast
      ultimately show ?thesis using unrecorded mk v2(1,2) by simp
    next
      case ok: (Inr u')
      let ?w = "w2\<lparr>tw_output := Some out, tw_staging := Some s\<rparr>"
      obtain r3 w3 where r3: "os_resolve up ?w = (r3, w3)" by fastforce
      have v3: "lw_files w3 = lw_files w1" "tw_staging w3 = Some s" "tw_output w3 = Some out"
          "tw_prepared w3 = tw_prepared w" "r3 = Inl e \<Longrightarrow> lw_refuses w SysResolve up (lw_calls w2)"
          "r3 = Inr x \<Longrightarrow> x = up" for e x
        using r3 v2 at by (auto simp: os_call_def fs_resolve_def Let_def split: if_splits)
      show ?thesis
      proof (cases r3)
        case (Inl e)
        then have "r = Inl e" "w' = w3" using assms(1) r1 Inr r2 ok r3 by (simp_all add: svc_bind_def)
        moreover have "lw_refuses w SysResolve up (lw_calls w2)" using v3(5) Inl by blast
        then have "\<not> cleanup_works w" using cleanup_refused(2) by blast
        ultimately show ?thesis using parentless mk v3(1,2,4) by simp
      next
        case fin: (Inr x)
        then have "r = Inr ()" "w' = w3\<lparr>tw_parent := Some up, tw_manifest := Some c, tw_prepared := [], tw_completed := []\<rparr>"
          using assms(1) r1 Inr r2 ok r3 v3(6) by (simp_all add: svc_bind_def)
        then show ?thesis using started mk v3 by (simp add: tw_view_def)
      qed
    qed
  qed
qed

text \<open>Before that, \<open>begin\<close> only looks.\<close>

lemma begin_cases:
  assumes "tree_begin U out m w = (r, w')" "tw_staging w = None"
  obtains (refused) e where "r = Inl e" "lw_files w' = lw_files w" "tw_view w' = tw_view w"
  | (making) c u w1 where "from_canonical_bytes U (mf_canonical m) = Inr c" "mf_sha256 c = mf_sha256 m"
      "lw_files w out = None" "lw_files w1 = lw_files w" "tw_view w1 = tw_view w" "system_of w w1"
      "let s = butlast out @ [staging_name out u] in
       svc_bind (os_mkdir s) (\<lambda>_. svc_bind (os_chmod s) (\<lambda>_.
      svc_bind (assign (\<lambda>w. w\<lparr>tw_output := Some out, tw_staging := Some s\<rparr>)) (\<lambda>_.
      svc_bind (os_resolve (butlast out)) (\<lambda>parent.
        assign (\<lambda>w. w\<lparr>tw_parent := Some parent, tw_manifest := Some c, tw_prepared := [], tw_completed := []\<rparr>))))) w1
      = (r, w')"
proof (cases "from_canonical_bytes U (mf_canonical m)")
  case (Inl e)
  then show ?thesis using assms by (auto simp: tree_begin_def intro: refused [of e])
next
  case c: (Inr c)
  show ?thesis
  proof (cases "mf_sha256 c = mf_sha256 m")
    case False
    then show ?thesis using assms c by (auto simp: tree_begin_def intro: refused [of ManifestMismatchError])
  next
    case True
    obtain r1 w1 where r1: "require_directories [] (butlast out) w = (r1, w1)" by fastforce
    then have f1: "lw_files w1 = lw_files w" "tw_view w1 = tw_view w" "system_of w w1"
      using require_directories_reads [of "[]" "butlast out" w]
        require_directories_system [of w w "[]" "butlast out"] by simp_all
    obtain r2 w2 where r2: "os_lstat out w1 = (r2, w2)" by fastforce
    then have f2: "lw_files w2 = lw_files w" "tw_view w2 = tw_view w" "system_of w w2"
        "r2 = Inr v \<Longrightarrow> v = lw_files w out" for v
      using f1 by (auto simp: os_call_def fs_lstat_def Let_def tw_view_def system_of_def split: if_splits)
    obtain u w3 where r3: "draw_uuid w2 = (Inr u, w3)" by (simp add: draw_uuid_def)
    then have f3: "lw_files w3 = lw_files w" "tw_view w3 = tw_view w" "system_of w w3"
      using f2 by (auto simp: draw_uuid_def tw_view_def system_of_def)
    show ?thesis
    proof (cases "r1 = Inr () \<and> r2 = Inr None")
      case False
      then have "\<exists>e. r = Inl e \<and> lw_files w' = lw_files w \<and> tw_view w' = tw_view w"
        using assms c True r1 r2 f1 f2
        by (cases r1; cases r2) (auto simp: tree_begin_def svc_bind_def split: if_splits)
      then show ?thesis using refused by blast
    next
      case go: True
      let ?s = "butlast out @ [staging_name out u]"
      have "svc_bind (os_mkdir ?s) (\<lambda>_. svc_bind (os_chmod ?s) (\<lambda>_.
          svc_bind (assign (\<lambda>w. w\<lparr>tw_output := Some out, tw_staging := Some ?s\<rparr>)) (\<lambda>_.
          svc_bind (os_resolve (butlast out)) (\<lambda>parent.
            assign (\<lambda>w. w\<lparr>tw_parent := Some parent, tw_manifest := Some c, tw_prepared := [], tw_completed := []\<rparr>))))) w3
          = tree_begin U out m w"
        using assms(2) c True r1 r2 r3 go by (simp add: tree_begin_def svc_bind_def Let_def)
      then show ?thesis using making [of c w3 u] c True f2(4) go f3 assms(1) by (simp add: Let_def)
    qed
  qed
qed

lemma staging_name_starts: "starts_with (lit ''.robolake-'') (staging_name out u)"
  by (simp add: starts_with_def staging_name_def)

lemma staging_sibling:
  assumes "out \<noteq> []"
  shows "private_sibling out (butlast out @ [staging_name out u])"
proof -
  have "length (last out) < length (staging_name out u)" by (simp add: staging_name_def)
  then have "staging_name out u \<noteq> last out" by auto
  then have "butlast out @ [staging_name out u] \<noteq> out" by (metis last_snoc)
  then show ?thesis using staging_name_starts by (simp add: private_sibling_def)
qed

text \<open>A directory that was just made beside the output confines every change.\<close>

lemma made_directory:
  assumes "tree_ok f" "fs_mkdir s f = Inr ((), fs)"
  shows "confined s f fs" "\<And>p. within s p \<Longrightarrow> f p = None" "fs (s @ r) = (if r = [] then Some Directory else None)"
proof -
  have mk: "f s = None" "s \<noteq> []" "f (butlast s) = Some Directory" "fs = f(s \<mapsto> Directory)"
    using assms(2) by (auto simp: fs_mkdir_def split: if_splits)
  show none: "\<And>p. within s p \<Longrightarrow> f p = None" using tree_ok_absent [OF assms(1) mk(1)] .
  show "confined s f fs" using tree_ok_upd [OF assms(1), of s Directory] mk by (auto simp: confined_def)
  show "fs (s @ r) = (if r = [] then Some Directory else None)"
    using none [of "s @ r"] by (simp add: mk(4))
qed

lemma begin_ok:
  assumes "tree_idle U w" "tree_begin U out m w = (r, w')"
  shows "safe out (lw_files w) w'" and "r = Inr () \<Longrightarrow> placed U (lw_files w) out m {} w'"
proof -
  have i: "tw_staging w = None" "tree_ok (lw_files w)" "tw_prepared w = []" "unicode_laws U"
    using assms(1) by (auto simp: tree_idle_def)
  have "safe out (lw_files w) w' \<and> (r = Inr () \<longrightarrow> placed U (lw_files w) out m {} w')"
    using assms(2) i(1)
  proof (cases rule: begin_cases)
    case (refused e)
    then show ?thesis using i tw_view_staging [of w' w] by (simp add: safe_def)
  next
    case (making c u w1)
    let ?s = "butlast out @ [staging_name out u]"
    have out: "out \<noteq> []" using making(3) i(2) by (auto simp: tree_ok_def)
    note sib = staging_sibling [OF out, of u] and starts = staging_name_starts [of out u]
    have w1: "tw_staging w1 = None" "tw_prepared w1 = []"
      using i(1,3) tw_view_staging [OF making(5)] by simp_all
    have cl: "cleanup_works w' = cleanup_works w" "cleanup_works w1 = cleanup_works w"
      using cleanup_system [of w w'] cleanup_system [OF making(6)] tree_system(1) [of w w U out m] assms(2) by simp_all
    have scoped: "scoped ?s (lw_files w) w'"
      if "fs_mkdir ?s (lw_files w) = Inr ((), lw_files w')" "tw_staging w' = Some ?s"
      using made_directory [OF i(2) that(1)] that(2) i(2) starts by (simp add: scoped_def)
    show ?thesis
    proof (rule staging_cases [OF making(7) [unfolded Let_def]])
      show "butlast out \<noteq> ?s" by (metis length_append_singleton n_not_Suc_n)
    next
      fix e assume "r = Inl e" "lw_files w' = lw_files w1" "tw_view w' = tw_view w1"
      then show ?thesis using making(4) w1 tw_view_staging [of w' w1] by (simp add: safe_def)
    next
      fix e assume a: "r = Inl e" "fs_mkdir ?s (lw_files w1) = Inr ((), lw_files w')" "tw_view w' = tw_view w1"
        "\<not> cleanup_works w1"
      have "confined ?s (lw_files w) (lw_files w')" "\<And>p. within ?s p \<Longrightarrow> lw_files w p = None"
        using made_directory [OF i(2)] a(2) making(4) by simp_all
      then have "left_behind out (lw_files w) (lw_files w')"
        using sib by (auto simp: left_behind_def confined_def)
      then show ?thesis using a w1 cl tw_view_staging [OF a(3)] by (simp add: safe_def)
    next
      fix e assume "r = Inl e" "fs_mkdir ?s (lw_files w1) = Inr ((), lw_files w')" "tw_staging w' = Some ?s"
        "tw_prepared w' = tw_prepared w1" "\<not> cleanup_works w1"
      then show ?thesis using scoped sib w1 making(4) cl by (simp add: safe_def)
    next
      assume a: "r = Inr ()" "fs_mkdir ?s (lw_files w1) = Inr ((), lw_files w')"
        "tw_view w' = (Some out, Some ?s, Some (butlast out), Some c, [], [])"
      then have v: "tw_output w' = Some out" "tw_staging w' = Some ?s" "tw_parent w' = Some (butlast ?s)"
          "tw_manifest w' = Some c" "tw_prepared w' = []" "tw_completed w' = []"
        by (simp_all add: tw_view_def)
      have "lw_files w' (?s @ q) = (if q = [] then Some Directory else None)" for q
        using made_directory(3) [OF i(2), of ?s "lw_files w'" q] a(2) making(4) by metis
      then have "holds_files ?s {} c (lw_files w')" by (simp add: holds_files_def)
      then have "placed U (lw_files w) out m {} w'"
        using v scoped a(2) making(1-4) sib out i(4) by (auto simp: placed_def ongoing_def)
      then show ?thesis using placed_safe by blast
    qed simp_all
  qed
  then show "safe out (lw_files w) w'" "r = Inr () \<Longrightarrow> placed U (lw_files w) out m {} w'" by blast+
qed

subsection \<open>Preparing\<close>

lemma mkdir_parents_Inr:
  "mkdir_parents current ns w = (Inr (), w') \<Longrightarrow> lw_files w current = Some Directory \<Longrightarrow>
     (\<forall>p. lw_files w' p = lw_files w p
        \<or> lw_files w p = None \<and> lw_files w' p = Some Directory
          \<and> (\<exists>k. k \<le> length ns \<and> p = current @ take k ns))
     \<and> lw_files w' (current @ ns) = Some Directory"
proof (induction ns arbitrary: current w)
  case (Cons n ns)
  obtain found w1 where l: "os_lstat (current @ [n]) w = (Inr found, w1)"
      "found = lw_files w (current @ [n])" "lw_files w1 = lw_files w"
    using Cons.prems(1) by (auto simp: svc_bind_Inr os_call_Inr fs_lstat_def)
  have "\<exists>w2. mkdir_parents (current @ [n]) ns w2 = (Inr (), w') \<and> lw_files w2 (current @ [n]) = Some Directory
      \<and> (lw_files w2 = lw_files w \<or> found = None \<and> lw_files w2 = (lw_files w)(current @ [n] \<mapsto> Directory))"
  proof (cases found)
    case None
    then obtain w2 where "os_mkdir (current @ [n]) w1 = (Inr (), w2)"
        "mkdir_parents (current @ [n]) ns w2 = (Inr (), w')"
      using Cons.prems(1) l by (auto simp: svc_bind_def split: sum.splits prod.splits)
    then show ?thesis using None l by (auto simp: os_call_Inr fs_mkdir_def split: if_splits)
  next
    case (Some x)
    then show ?thesis
      using Cons.prems(1) l by (cases x) (auto simp: svc_bind_def)
  qed
  then obtain w2 where w2: "mkdir_parents (current @ [n]) ns w2 = (Inr (), w')"
      "lw_files w2 (current @ [n]) = Some Directory"
      "lw_files w2 = lw_files w \<or> found = None \<and> lw_files w2 = (lw_files w)(current @ [n] \<mapsto> Directory)"
    by blast
  note ih = Cons.IH [OF w2(1,2)]
  have "lw_files w' p = lw_files w p \<or> lw_files w p = None \<and> lw_files w' p = Some Directory
      \<and> (\<exists>k. k \<le> length (n # ns) \<and> p = current @ take k (n # ns))" for p
  proof (cases "lw_files w' p = lw_files w2 p")
    case True
    then show ?thesis
      using w2(2,3) l(2) by (cases "p = current @ [n]") (auto intro!: exI [of _ "Suc 0"])
  next
    case False
    then obtain k where k: "k \<le> length ns" "p = current @ [n] @ take k ns" "lw_files w2 p = None"
        "lw_files w' p = Some Directory"
      using ih by fastforce
    then have "lw_files w p = None" using w2(3) by (auto split: if_splits)
    then show ?thesis using k by (auto intro!: exI [of _ "Suc k"])
  qed
  then show ?case using ih by simp
qed auto

lemma segments_nonempty [simp]: "segments e \<noteq> []"
  by (simp add: segments_def)

definition opened ::
    "unicode \<Rightarrow> files \<Rightarrow> path \<Rightarrow> manifest \<Rightarrow> manifest_entry set \<Rightarrow> uuid \<Rightarrow> manifest_entry \<Rightarrow> tree_world \<Rightarrow> bool" where
  "opened U f out m D t e w =
     (\<exists>s c part. ongoing U f out m D s c w \<and> e \<in> set (mf_entries c)
        \<and> tw_prepared w = [(t, \<lparr>pst_entry = e, pst_open = True, pst_part = part, pst_final = s @ segments e\<rparr>)]
        \<and> within s part \<and> part \<noteq> s \<and> lw_files w part = Some (RegularFile [])
        \<and> holds_files s D c ((lw_files w)(part := None)))"

lemma opened_safe: "opened U f out m D t e w \<Longrightarrow> safe out f w"
  by (auto simp: opened_def ongoing_def safe_def scoped_def)

lemma holds_more_directories:
  assumes "holds_files s D m fs" "e \<in> set (mf_entries m)"
    and "\<And>p. fs' p = fs p \<or> fs p = None \<and> fs' p = Some Directory
               \<and> (\<exists>k. k \<le> length (butlast (segments e)) \<and> p = s @ take k (butlast (segments e)))"
  shows "holds_files s D m fs'"
proof -
  have other: "fs' p = Some x \<longleftrightarrow> fs p = Some x" if "x \<noteq> Directory" for p x
    using assms(3) [of p] that by auto
  have dir: "\<exists>e \<in> set (mf_entries m). \<exists>q. q \<noteq> [] \<and> segments e = r @ q"
    if r: "r \<noteq> []" "fs' (s @ r) = Some Directory" for r
  proof (cases "fs' (s @ r) = fs (s @ r)")
    case True
    then show ?thesis using assms(1) r by (auto simp: holds_files_def)
  next
    case False
    then obtain k where k: "k \<le> length (butlast (segments e))" "r = take k (butlast (segments e))"
      using assms(3) [of "s @ r"] by auto
    have "segments e = butlast (segments e) @ [last (segments e)]" by simp
    also have "\<dots> = r @ drop k (butlast (segments e)) @ [last (segments e)]"
      by (simp add: k(2) flip: append_assoc)
    finally have "segments e = r @ drop k (butlast (segments e)) @ [last (segments e)]" .
    then show ?thesis using assms(2) by blast
  qed
  show ?thesis using assms(1) other dir by (auto simp: holds_files_def)
qed

lemma prepare_ok:
  assumes "placed U f out m D w" "tree_prepare e w = (r, w')"
  shows "safe out f w'" and "r = Inr t \<Longrightarrow> opened U f out m D t e w'"
proof -
  obtain s c where p: "ongoing U f out m D s c w" "tw_prepared w = []" "holds_files s D c (lw_files w)"
    using assms(1) by (auto simp: placed_def)
  then have sc: "scoped s f w" "private_sibling out s" "tw_parent w = Some (butlast s)"
    and mf: "tw_manifest w = Some c" by (auto simp: ongoing_def)
  then have act: "active w = Inr (s, c)" by (auto simp: active_def scoped_def)
  have "safe out f w' \<and> (r = Inr t \<longrightarrow> opened U f out m D t e w')"
  proof (cases "e \<in> set (mf_entries c)")
    case False
    then show ?thesis using assms act placed_safe by (auto simp: tree_prepare_def)
  next
    case e: True
    obtain r1 w1 where r1: "mkdir_parents s (butlast (segments e)) w = (r1, w1)" by fastforce
    then have k1: "kept s f w w1"
      using mkdir_parents_kept [of s s f w w "butlast (segments e)"] sc by (simp add: kept_def)
    show ?thesis
    proof (cases r1)
      case (Inl err)
      then have "r = Inl err" "w' = w1" using assms(2) act e r1 by (auto simp: tree_prepare_def svc_bind_def Let_def)
      then show ?thesis using safe_kept [OF k1 p(2) sc(2,3)] by simp
    next
      case (Inr u)
      obtain token w2 where r2: "draw_uuid w1 = (Inr token, w2)" by (simp add: draw_uuid_def)
      have k2: "kept s f w w2" "lw_files w2 = lw_files w1"
        using kept_reads(2) [OF k1] r2 draw_uuid_files [of w1] by auto
      define part where "part = butlast (s @ segments e) @ [part_name (s @ segments e) token]"
      have part: "within s part" "part \<noteq> s" by (auto simp: part_def butlast_append within_iff)
      obtain r3 w3 where r3: "os_create part w2 = (r3, w3)" by fastforce
      have k3: "kept s f w w3" using kept_calls(2) [OF part k2(1)] r3 by simp
      show ?thesis
      proof (cases r3)
        case (Inl err)
        then have "r = Inl err" "w' = w3"
          using assms(2) act e r1 Inr r2 r3 by (simp_all add: tree_prepare_def svc_bind_def Let_def part_def)
        then show ?thesis using safe_kept [OF k3 p(2) sc(2,3)] by simp
      next
        case ok: (Inr u')
        have v: "tw_view w3 = tw_view w" using k3 by (simp add: kept_def)
        have w': "r = Inr token" "w' = w3\<lparr>tw_prepared := [(token, \<lparr>pst_entry = e, pst_open = True, pst_part = part,
            pst_final = s @ segments e\<rparr>)]\<rparr>"
          using assms(2) act e r1 Inr r2 r3 ok tw_view_staging [OF v] p(2)
          by (simp_all add: tree_prepare_def svc_bind_def Let_def part_def)
        have fs3: "lw_files w1 part = None" "lw_files w3 = (lw_files w1)(part \<mapsto> RegularFile [])"
          using r3 ok k2(2) by (auto simp: os_call_Inr fs_create_def split: if_splits)
        have "lw_files w s = Some Directory" using sc by (simp add: scoped_def confined_def)
        moreover have "mkdir_parents s (butlast (segments e)) w = (Inr (), w1)" using r1 Inr by simp
        ultimately have "holds_files s D c (lw_files w1)"
          by (intro holds_more_directories [OF p(3) e]) (drule (1) mkdir_parents_Inr, elim conjE, erule spec)
        moreover have "(lw_files w')(part := None) = lw_files w1" using fs3 by (simp add: w' fun_upd_idem)
        moreover have "ongoing U f out m D s c w'"
          using p(1) k3 tw_view_staging [OF v] by (simp add: ongoing_def w' kept_def scoped_def)
        ultimately have "opened U f out m D token e w'"
          using e part fs3(2) w'(2) unfolding opened_def
          by (intro exI [of _ s] exI [of _ c] exI [of _ part] conjI) simp_all
        then show ?thesis using w'(1) opened_safe by auto
      qed
    qed
  qed
  then show "safe out f w'" "r = Inr t \<Longrightarrow> opened U f out m D t e w'" by auto
qed
subsection \<open>Writing\<close>

lemma write_chunks_Inr:
  "write_chunks p cs w = (Inr (), w') \<Longrightarrow> lw_files w p = Some (RegularFile b) \<Longrightarrow>
     lw_files w' = (lw_files w)(p \<mapsto> RegularFile (b @ concat cs))"
proof (induction cs arbitrary: w b)
  case (Cons c cs)
  then obtain w1 where w1: "os_write p c w = (Inr (), w1)" "write_chunks p cs w1 = (Inr (), w')"
    by (auto simp: svc_bind_Inr)
  then have f: "lw_files w1 = (lw_files w)(p \<mapsto> RegularFile (b @ c))"
    using Cons.prems(2) by (auto simp: os_call_Inr fs_append_def)
  have "lw_files w' = (lw_files w1)(p \<mapsto> RegularFile ((b @ c) @ concat cs))"
    by (rule Cons.IH [OF w1(2)]) (simp add: f)
  also have "\<dots> = (lw_files w)(p \<mapsto> RegularFile ((b @ c) @ concat cs))"
    unfolding f by (rule fun_upd_upd)
  finally show ?case by simp
qed (auto simp: fun_upd_idem)

lemma download_to_Inr:
  assumes "download_to item p w = (Inr (), w')" "lw_files w p = Some (RegularFile [])"
  shows "\<exists>b. verified (dit_entry item) b \<and> lw_files w' = (lw_files w)(p \<mapsto> RegularFile b)"
proof -
  obtain body w1 where "write_chunks p body w = (Inr (), w1)" "lw_files w' = lw_files w1"
      "verified (dit_entry item) (concat body)"
    using assms(1)
    by (auto simp: download_to_def verified_def svc_bind_Inr os_call_Inr fs_descriptor_def split: http_answer.splits if_splits)
  then show ?thesis using write_chunks_Inr [of p body w w1 "[]"] assms(2) by auto
qed

lemma canonical_paths:
  assumes "unicode_laws U" "from_canonical_bytes U data = Inr c" "e \<in> set (mf_entries c)" "e' \<in> set (mf_entries c)"
  shows "rp_value (me_path e) = rp_value (me_path e') \<Longrightarrow> e = e'" "segments e = segments e' \<Longrightarrow> e = e'"
proof -
  obtain payload where "from_payload U data payload = Inr c"
    using assms(2) by (auto simp: from_canonical_bytes_def split: if_splits option.splits sum.splits)
  then have "distinct (map me_path (mf_entries c))"
    using from_payload_Inr [OF assms(1)] by (simp add: built_def)
  then show p: "rp_value (me_path e) = rp_value (me_path e') \<Longrightarrow> e = e'"
    using assms(3,4) by (metis distinct_map inj_onD relative_path.expand)
  show "segments e = segments e' \<Longrightarrow> e = e'"
    using p join_split unfolding segments_def by metis
qed

lemma holds_new_file:
  assumes "holds_files s D m fs" "verified e b" "\<And>e'. e' \<in> D \<Longrightarrow> segments e' = segments e \<Longrightarrow> e' = e"
    and "fs (s @ segments e) \<noteq> Some Directory"
  shows "holds_files s (insert e D) m (fs(s @ segments e \<mapsto> RegularFile b))"
proof -
  have "\<exists>b'. (fs(s @ segments e \<mapsto> RegularFile b)) (s @ segments e') = Some (RegularFile b') \<and> verified e' b'"
    if "e' \<in> insert e D" for e'
  proof (cases "segments e' = segments e")
    case True
    then show ?thesis using assms(2,3) that by auto
  next
    case False
    then show ?thesis using assms(1) that by (auto simp: holds_files_def)
  qed
  then show ?thesis using assms(1,2) by (auto simp: holds_files_def split: if_splits)
qed

text \<open>
  The body of the \<^verbatim>\<open>try\<close>, whatever fails in it, keeps to the staging directory; \<open>tw_view\<close> is as before,
  but for the completed path when it succeeds.
\<close>

lemma place_file_kept:
  assumes "kept s f w0 w" "within s (pst_part st)" "pst_part st \<noteq> s" "within s (pst_final st)" "pst_final st \<noteq> s"
    and "place_file t st item w = (r, w')"
  shows "r = Inl err \<Longrightarrow> kept s f w0 w'"
    and "r = Inr () \<Longrightarrow> scoped s f w'
      \<and> tw_view w' = tw_view (w0\<lparr>tw_completed := List.insert (rp_value (me_path (pst_entry st))) (tw_completed w0)\<rparr>)"
proof -
  obtain r1 w1 where d: "download_to item (pst_part st) w = (r1, w1)" by fastforce
  have k1: "kept s f w0 w1" using download_kept [OF assms(2,3,1)] d by (metis snd_conv)
  obtain r2 w2 where c: "os_close (pst_part st) w1 = (r2, w2)" by fastforce
  have k2: "kept s f w0 w2" using kept_reads(4) [OF k1] c by (metis snd_conv)
  obtain r3 w3 where n: "os_rename (pst_part st) (pst_final st) (forget_descriptor t w2) = (r3, w3)" by fastforce
  have k3: "kept s f w0 w3"
    using kept_calls(5) [OF assms(2,3) kept_reads(5) [OF k2] assms(4,5)] n by (metis snd_conv)
  let ?w = "w3\<lparr>tw_completed := List.insert (rp_value (me_path (pst_entry st))) (tw_completed w3)\<rparr>"
  have "place_file t st item w =
      (case r1 of Inl e \<Rightarrow> (Inl e, w1) | Inr _ \<Rightarrow> (case r2 of Inl e \<Rightarrow> (Inl e, w2)
       | Inr _ \<Rightarrow> (case r3 of Inl e \<Rightarrow> (Inl e, w3) | Inr _ \<Rightarrow> (Inr (), ?w))))"
    by (cases r1; cases r2; cases r3) (simp_all add: place_file_def svc_bind_def d c n)
  then have "(r, w') =
      (case r1 of Inl e \<Rightarrow> (Inl e, w1) | Inr _ \<Rightarrow> (case r2 of Inl e \<Rightarrow> (Inl e, w2)
       | Inr _ \<Rightarrow> (case r3 of Inl e \<Rightarrow> (Inl e, w3) | Inr _ \<Rightarrow> (Inr (), ?w))))"
    unfolding assms(6) .
  then have "(\<exists>e. r = Inl e) \<and> (w' = w1 \<or> w' = w2 \<or> w' = w3) \<or> r = Inr () \<and> w' = ?w"
    by (cases r1; cases r2; cases r3; simp only: sum.case prod.inject; blast)
  then show "r = Inl err \<Longrightarrow> kept s f w0 w'"
      "r = Inr () \<Longrightarrow> scoped s f w'
        \<and> tw_view w' = tw_view (w0\<lparr>tw_completed := List.insert (rp_value (me_path (pst_entry st))) (tw_completed w0)\<rparr>)"
    using k1 k2 k3 by (auto simp: kept_def scoped_def tw_view_def)
qed

lemma place_file_Inr:
  assumes "place_file t st item w = (Inr (), w')" "lw_files w (pst_part st) = Some (RegularFile [])"
  shows "\<exists>b. verified (dit_entry item) b \<and> ((lw_files w)(pst_part st := None)) (pst_final st) \<noteq> Some Directory
    \<and> lw_files w' = ((lw_files w)(pst_part st := None))(pst_final st \<mapsto> RegularFile b)"
proof -
  obtain w1 w2 w3 where w: "download_to item (pst_part st) w = (Inr (), w1)"
      "os_close (pst_part st) w1 = (Inr (), w2)"
      "os_rename (pst_part st) (pst_final st) (forget_descriptor t w2) = (Inr (), w3)" "lw_files w' = lw_files w3"
    using assms(1) by (auto simp: place_file_def svc_bind_Inr)
  then obtain b where b: "verified (dit_entry item) b" "lw_files w1 = (lw_files w)(pst_part st \<mapsto> RegularFile b)"
    using download_to_Inr assms(2) by blast
  have w2: "lw_files w2 = lw_files w1" using w(2) by (auto simp: os_call_Inr fs_descriptor_def)
  let ?g = "(lw_files w)(pst_part st := None)"
  obtain bs where r: "lw_files w1 (pst_part st) = Some (RegularFile bs)" "lw_files w1 (pst_final st) \<noteq> Some Directory"
      "lw_files w3 = ((lw_files w1)(pst_part st := None))(pst_final st \<mapsto> RegularFile bs)"
    using w(3) w2 by (auto simp: os_call_Inr fs_rename_def split: option.splits node.splits if_splits)
  have "bs = b" using r(1) b(2) by simp
  have "(lw_files w1)(pst_part st := None) = ?g" unfolding b(2) by (rule fun_upd_upd)
  then have "lw_files w' = ?g(pst_final st \<mapsto> RegularFile b)" using w(4) r(3) \<open>bs = b\<close> by simp
  moreover have "?g (pst_final st) \<noteq> Some Directory"
    using r(2) b(2) by (cases "pst_final st = pst_part st") auto
  ultimately show ?thesis using b(1) by blast
qed

text \<open>\<^verbatim>\<open>finally\<close>: a write forgets the handle, however it ends.\<close>

lemma tree_write_cases:
  assumes "tree_write t item w = (r, w')" "tw_prepared w = [(t, st)]" "dit_entry item = pst_entry st"
    and "kept s f w w" "within s (pst_part st)" "pst_part st \<noteq> s" "within s (pst_final st)" "pst_final st \<noteq> s"
  obtains (failed) e x where "r = Inl e" "w' = x\<lparr>tw_prepared := []\<rparr>" "kept s f w x"
  | (placed) x where "r = Inr ()" "w' = x\<lparr>tw_prepared := []\<rparr>" "place_file t st item w = (Inr (), x)" "scoped s f x"
      "tw_view x = tw_view (w\<lparr>tw_completed := List.insert (rp_value (me_path (pst_entry st))) (tw_completed w)\<rparr>)"
proof -
  obtain r1 w1 where p: "place_file t st item w = (r1, w1)" by fastforce
  note k = place_file_kept [OF assms(4-8) p]
  have delete: "AList.delete t (tw_prepared x) = []" if "map fst (tw_prepared x) = [t]" for x
    using that by (cases "tw_prepared x") auto
  show ?thesis
  proof (cases r1)
    case (Inl err)
    obtain r2 w2 where h: "discard_file t st w1 = (r2, w2)" by fastforce
    then have k2: "kept s f w w2" using discard_file_kept [OF assms(5,6) k(1) [OF Inl], of t] by (metis snd_conv)
    then have "map fst (tw_prepared w2) = [t]" using tw_view_staging [of w2 w] assms(2) by (simp add: kept_def)
    note delete [OF this]
    then have "w' = w2\<lparr>tw_prepared := []\<rparr> \<and> (\<exists>e. r = Inl e)"
      using assms(1-3) p Inl h by (cases r2) (auto simp: tree_write_def svc_catch_def)
    then show ?thesis using failed k2 by blast
  next
    case (Inr u)
    then have v: "scoped s f w1"
        "tw_view w1 = tw_view (w\<lparr>tw_completed := List.insert (rp_value (me_path (pst_entry st))) (tw_completed w)\<rparr>)"
      using k(2) by simp_all
    then have "map fst (tw_prepared w1) = [t]" using assms(2) by (simp add: tw_view_def)
    from delete [OF this] have "r = Inr () \<and> w' = w1\<lparr>tw_prepared := []\<rparr>"
      using assms(1-3) p Inr by (simp add: tree_write_def svc_catch_def)
    then show ?thesis using placed p Inr v by simp
  qed
qed

lemma write_ok:
  assumes "opened U f out m D t e w" "tree_write t item w = (r, w')"
  shows "safe out f w'" and "r = Inr () \<Longrightarrow> placed U f out m (insert e D) w' \<and> dit_entry item = e"
proof -
  obtain s c part where o: "ongoing U f out m D s c w" "e \<in> set (mf_entries c)"
      "tw_prepared w = [(t, \<lparr>pst_entry = e, pst_open = True, pst_part = part, pst_final = s @ segments e\<rparr>)]"
      "within s part" "part \<noteq> s" "lw_files w part = Some (RegularFile [])"
      "holds_files s D c ((lw_files w)(part := None))"
    using assms(1) by (auto simp: opened_def)
  let ?st = "\<lparr>pst_entry = e, pst_open = True, pst_part = part, pst_final = s @ segments e\<rparr>"
  have sc: "scoped s f w" "private_sibling out s" "tw_parent w = Some (butlast s)"
    using o(1) by (auto simp: ongoing_def)
  then have k: "kept s f w w" by (simp add: kept_def)
  have "safe out f w' \<and> (r = Inr () \<longrightarrow> placed U f out m (insert e D) w' \<and> dit_entry item = e)"
  proof (cases "dit_entry item = e")
    case False
    then show ?thesis using assms opened_safe by (auto simp: tree_write_def o(3))
  next
    case item: True
    show ?thesis
      using assms(2) o(3)
    proof (rule tree_write_cases [where s = s and f = f])
      fix err x assume x: "r = Inl err" "w' = x\<lparr>tw_prepared := []\<rparr>" "kept s f w x"
      then have "scoped s f x" "tw_parent x = Some (butlast s)" "tw_staging x = Some s"
        using sc(3) tw_view_staging [of x w] by (auto simp: kept_def scoped_def)
      then show ?thesis using x(1,2) sc(2) by (auto simp: safe_def scoped_def)
    next
      fix x assume x: "r = Inr ()" "w' = x\<lparr>tw_prepared := []\<rparr>" "place_file t ?st item w = (Inr (), x)" "scoped s f x"
        "tw_view x = tw_view (w\<lparr>tw_completed := List.insert (rp_value (me_path (pst_entry ?st))) (tw_completed w)\<rparr>)"
      obtain b where b: "verified e b" "((lw_files w)(part := None)) (s @ segments e) \<noteq> Some Directory"
          "lw_files x = ((lw_files w)(part := None))(s @ segments e \<mapsto> RegularFile b)"
        using place_file_Inr [OF x(3)] o(6) item by auto
      have uni: "unicode_laws U" "from_canonical_bytes U (mf_canonical m) = Inr c" "D \<subseteq> set (mf_entries c)"
          "set (tw_completed w) = (\<lambda>e. rp_value (me_path e)) ` D"
        using o(1) by (auto simp: ongoing_def)
      have "holds_files s (insert e D) c (lw_files x)"
        unfolding b(3) using o(7) b(1) _ b(2)
        by (rule holds_new_file) (use canonical_paths(2) [OF uni(1,2)] uni(3) o(2) in blast)
      moreover have "set (tw_completed x) = (\<lambda>e. rp_value (me_path e)) ` insert e D"
        using x(5) uni(4) by (auto simp: tw_view_def)
      moreover have "tw_manifest x = tw_manifest w" "tw_output x = tw_output w" "tw_parent x = tw_parent w"
        using x(5) by (auto simp: tw_view_def)
      ultimately have "placed U f out m (insert e D) w'"
        using o(1,2) x(4) by (auto simp: placed_def ongoing_def x(2) scoped_def)
      then show ?thesis using x(1) item placed_safe by blast
    qed (use item k o(4,5) in auto)
  qed
  then show "safe out f w'" "r = Inr () \<Longrightarrow> placed U f out m (insert e D) w' \<and> dit_entry item = e" by auto
qed

section \<open>Publishing\<close>

definition restored :: "unicode \<Rightarrow> files \<Rightarrow> path \<Rightarrow> manifest \<Rightarrow> tree_world \<Rightarrow> bool" where
  "restored U f out m w =
     (\<exists>c. from_canonical_bytes U (mf_canonical m) = Inr c \<and> mf_sha256 c = mf_sha256 m
        \<and> f out = None \<and> tree_ok (lw_files w) \<and> lw_files w out = Some Directory
        \<and> (\<forall>p. \<not> within out p \<longrightarrow> lw_files w p = f p)
        \<and> holds_files out (set (mf_entries c)) c (lw_files w))"

lemma publish_moves:
  assumes "scoped s f w" "out \<noteq> []" "butlast s = butlast out" "f out = None"
    and "fs_rename_noreplace s out (lw_files w) = Inr fs"
  shows "tree_ok fs" "fs out = Some Directory" "\<And>p. \<not> within out p \<Longrightarrow> fs p = f p"
    "\<And>r. fs (out @ r) = lw_files w (s @ r)"
proof -
  have sc: "s \<noteq> []" "tree_ok f" "tree_ok (lw_files w)" "lw_files w s = Some Directory"
      "\<And>p. \<not> within s p \<Longrightarrow> lw_files w p = f p" "\<And>p. within s p \<Longrightarrow> f p = None"
    using assms(1) by (auto simp: scoped_def confined_def)
  have fs: "fs q = (if within out q then lw_files w (s @ drop (length out) q)
                    else if within s q then None else lw_files w q)" for q
    using assms(5) by (auto simp: fs_rename_noreplace_def split: if_splits)
  have par: "lw_files w (butlast out) = Some Directory"
    using assms(5) by (auto simp: fs_rename_noreplace_def split: if_splits)
  show at: "fs (out @ r) = lw_files w (s @ r)" for r by (simp add: fs)
  then show "fs out = Some Directory" using at [of "[]"] sc(4) by simp
  show out: "fs p = f p" if "\<not> within out p" for p
    using that sc(5,6) by (simp add: fs)
  have fpar: "f (butlast out) = Some Directory"
    using par sc(5) [of "butlast out"] assms(3) not_within_longer [OF sc(1)] by metis
  show "tree_ok fs"
    unfolding tree_ok_def
  proof (intro conjI allI impI)
    show "fs [] = Some Directory"
      using out [of "[]"] assms(2) sc(2) by (auto simp: within_def tree_ok_def)
    fix p n assume a: "fs (p @ [n]) \<noteq> None"
    show "fs p = Some Directory"
    proof (cases "within out p")
      case True
      then obtain r where "p = out @ r" by (auto simp: within_iff)
      then show ?thesis
        using a at [of "r @ [n]"] at [of r] sc(3) tree_ok_parent [of "lw_files w" "s @ r" n] by auto
    next
      case no: False
      show ?thesis
      proof (cases "within out (p @ [n])")
        case True
        then have "p @ [n] = out" using no within_butlast [of out "p @ [n]"] by auto
        then show ?thesis using fpar out [OF no] by auto
      next
        case False
        then show ?thesis using a out [of "p @ [n]"] out [OF no] sc(2) tree_ok_parent [of f p n] by auto
      qed
    qed
  qed
qed

lemma active_ongoing: "ongoing U f out m D s c w \<Longrightarrow> active w = Inr (s, c)"
  by (auto simp: ongoing_def scoped_def active_def)

lemma commit_ok:
  assumes "placed U f out m D w" "tree_commit host w = (r, w')"
  shows "r = Inl err \<Longrightarrow> safe out f w'"
    and "r = Inr p \<Longrightarrow> p = out \<and> restored U f out m w' \<and> tree_idle U w'"
proof -
  obtain s c where o: "ongoing U f out m D s c w" "tw_prepared w = []" "holds_files s D c (lw_files w)"
    using assms(1) by (auto simp: placed_def)
  have g: "unicode_laws U" "scoped s f w" "out \<noteq> []" "f out = None" "private_sibling out s"
      "tw_output w = Some out" "from_canonical_bytes U (mf_canonical m) = Inr c" "mf_sha256 c = mf_sha256 m"
      "D \<subseteq> set (mf_entries c)" "set (tw_completed w) = (\<lambda>e. rp_value (me_path e)) ` D"
    using o(1) by (auto simp: ongoing_def)
  have safe: "safe out f w" using placed_safe [OF assms(1)] .
  have "(\<exists>err. r = Inl err) \<and> safe out f w' \<or> r = Inr out \<and> restored U f out m w' \<and> tree_idle U w'"
  proof (cases "(\<lambda>e. rp_value (me_path e)) ` D = (\<lambda>e. rp_value (me_path e)) ` set (mf_entries c)")
    case False
    then show ?thesis using assms(2) safe active_ongoing [OF o(1)] o(2) g(10) by (auto simp: tree_commit_def)
  next
    case True
    then have D: "D = set (mf_entries c)"
      using g(9) canonical_paths(1) [OF g(1,7)] by (auto simp: image_iff set_eq_iff)
    obtain r1 w1 where p: "publish_no_replace host s out w = (r1, w1)" by fastforce
    have e: "tree_commit host w = (case r1 of Inl err \<Rightarrow> (Inl err, w1) | Inr _ \<Rightarrow> (Inr out, w1\<lparr>tw_staging := None\<rparr>))"
      using active_ongoing [OF o(1)] o(2) g(6,10) True p by (simp add: tree_commit_def svc_bind_def split: sum.split)
    show ?thesis
    proof (cases r1)
      case (Inl err)
      then have "lw_files w1 = lw_files w \<and> tw_staging w1 = tw_staging w \<and> tw_view w1 = tw_view w"
        using p by (auto simp: publish_no_replace_def Let_def tw_view_def split: if_splits sum.splits)
      then have "kept s f w w1" using g(2) by (simp add: kept_def scoped_def)
      then have "safe out f w1" using safe_kept [OF _ o(2) g(5)] o(1) by (simp add: ongoing_def)
      then show ?thesis using e assms(2) Inl by auto
    next
      case (Inr u)
      then obtain fs where fs: "fs_rename_noreplace s out (lw_files w) = Inr fs" "lw_files w1 = fs"
          "tw_prepared w1 = []"
        using p o(2) by (auto simp: publish_no_replace_def Let_def split: if_splits sum.splits)
      have "butlast s = butlast out" using g(5) by (simp add: private_sibling_def)
      note pm = publish_moves [OF g(2,3) this g(4) fs(1)]
      have "holds_files out D c fs" using o(3) by (simp add: holds_files_def pm(4))
      then have "restored U f out m w1"
        using pm(1-3) g(4,7,8) fs(2) D by (auto simp: restored_def)
      then have "restored U f out m (w1\<lparr>tw_staging := None\<rparr>)" "tree_idle U (w1\<lparr>tw_staging := None\<rparr>)"
        using g(1) pm(1) fs(2,3) by (simp_all add: restored_def tree_idle_def)
      then show ?thesis using e assms(2) Inr by auto
    qed
  qed
  then show "r = Inl err \<Longrightarrow> safe out f w'"
    "r = Inr p \<Longrightarrow> p = out \<and> restored U f out m w' \<and> tree_idle U w'" by auto
qed

end
