(* ===== verification/Pull.thy ===== *)
theory Pull
  imports TreeRules
begin

text \<open>
  \<^verbatim>\<open>PullWorkflow\<close> of \<^verbatim>\<open>robolake/application/pull.py\<close>, over any control plane and any tree
  downloader (\<^verbatim>\<open>ports.py\<close>). The contract of the downloader is a locale; it is interpreted by
  \<^verbatim>\<open>AtomicTreeDownloader\<close>, and the properties of a pull rest on it.
\<close>

section \<open>The ports\<close>

record 'w control_plane =
  cp_create_dataset :: "dataset_name \<Rightarrow> ustr \<Rightarrow> ('w, dataset_record) act"
  cp_register_version :: "uuid \<Rightarrow> manifest \<Rightarrow> ustr \<Rightarrow> ('w, version_record) act"
  cp_resolve :: "dataset_reference \<Rightarrow> ('w, version_record) act"
  cp_status :: "uuid \<Rightarrow> ('w, version_status) act"
  cp_manifest :: "uuid \<Rightarrow> ('w, manifest) act"
  cp_prepare_upload :: "uuid \<Rightarrow> sha256_digest \<Rightarrow> ustr \<Rightarrow> ('w, upload_preparation) act"
  cp_upload_url :: "uuid \<Rightarrow> ('w, presigned_request) act"
  cp_complete_upload :: "uuid \<Rightarrow> ustr option \<Rightarrow> ('w, upload_preparation) act"
  cp_finalize :: "uuid \<Rightarrow> ('w, version_record) act"
  cp_download_plan :: "uuid \<Rightarrow> ustr option \<Rightarrow> ('w, download_capability) act"

record ('l, 'o, 't) tree_downloader =
  td_begin :: "'o \<Rightarrow> manifest \<Rightarrow> ('l, unit) act"
  td_prepare :: "manifest_entry \<Rightarrow> ('l, 't) act"
  td_write :: "'t \<Rightarrow> download_item \<Rightarrow> ('l, unit) act"
  td_commit :: "('l, 'o) act"
  td_abort :: "('l, unit) act"

text \<open>The world of a pull: the control plane's and the local one.\<close>

definition remotely :: "('w, 'a) act \<Rightarrow> ('w \<times> 'l, 'a) act" where
  "remotely f w = (case f (fst w) of (r, c) \<Rightarrow> (r, (c, snd w)))"

definition locally :: "('l, 'a) act \<Rightarrow> ('w \<times> 'l, 'a) act" where
  "locally f w = (case f (snd w) of (r, l) \<Rightarrow> (r, (fst w, l)))"

lemma remotely_eq: "remotely f (c, l) = (r, (c', l')) \<longleftrightarrow> f c = (r, c') \<and> l' = l"
  by (auto simp: remotely_def split: prod.splits)

lemma locally_eq: "locally f (c, l) = (r, (c', l')) \<longleftrightarrow> f l = (r, l') \<and> c' = c"
  by (auto simp: locally_def split: prod.splits)

section \<open>The workflow\<close>

definition check_capability :: "manifest_entry \<Rightarrow> bool \<Rightarrow> download_capability \<Rightarrow> download_item res" where
  "check_capability expected is_last cap =
     (case dcp_item cap of
        None \<Rightarrow> Inl ManifestMismatchError
      | Some item \<Rightarrow>
          (if dit_entry item \<noteq> expected then Inl ManifestMismatchError
           else if dcp_complete cap \<noteq> is_last then Inl ManifestMismatchError
           else if is_last \<and> dcp_next cap \<noteq> None then Inl ManifestMismatchError
           else if \<not> is_last \<and> dcp_next cap = None then Inl ManifestMismatchError
           else Inr item))"

text \<open>The loop over the entries; \<open>ordinal\<close> is the position of the first one left.\<close>

fun pull_entries ::
    "'w control_plane \<Rightarrow> ('l, 'o, 't) tree_downloader \<Rightarrow> uuid \<Rightarrow> int \<Rightarrow> int \<Rightarrow> ustr option
     \<Rightarrow> manifest_entry list \<Rightarrow> ('w \<times> 'l, unit) act" where
  "pull_entries cp td v files_total ordinal cursor [] = answer (Inr ())"
| "pull_entries cp td v files_total ordinal cursor (expected # es) =
     svc_bind (locally (td_prepare td expected)) (\<lambda>prepared.
     svc_bind (remotely (cp_download_plan cp v cursor)) (\<lambda>cap.
     svc_bind (answer (check_capability expected (ordinal + 1 = files_total) cap)) (\<lambda>item.
     svc_bind (locally (td_write td prepared item)) (\<lambda>_.
       pull_entries cp td v files_total (ordinal + 1) (dcp_next cap) es))))"

record 'o pull_result =
  plr_reference :: dataset_reference
  plr_output :: 'o
  plr_file_count :: int
  plr_bytes :: int

definition pull_run ::
    "'w control_plane \<Rightarrow> ('l, 'o, 't) tree_downloader \<Rightarrow> dataset_reference \<Rightarrow> 'o
     \<Rightarrow> ('w \<times> 'l, 'o pull_result) act" where
  "pull_run cp td reference out =
     svc_bind (remotely (cp_resolve cp reference)) (\<lambda>version.
       if vsr_state version \<noteq> V_READY then answer (Inl IllegalTransitionError)
       else
         svc_bind (remotely (cp_manifest cp (vsr_id version))) (\<lambda>m.
           if mf_sha256 m \<noteq> vsr_manifest_sha version then answer (Inl ManifestMismatchError)
           else if file_count m \<noteq> vsr_file_count version \<or> logical_bytes m \<noteq> vsr_logical_bytes version
                   \<or> unique_blob_count m \<noteq> vsr_unique_blob_count version
                   \<or> unique_blob_bytes m \<noteq> vsr_unique_blob_bytes version
           then answer (Inl ManifestMismatchError)
           else
             svc_bind
               (svc_catch
                  (svc_bind (locally (td_begin td out m)) (\<lambda>_.
                   svc_bind (pull_entries cp td (vsr_id version) (file_count m) 0 None (mf_entries m)) (\<lambda>_.
                     locally (td_commit td))))
                  (locally (td_abort td)))
               (\<lambda>final.
                 answer (Inr \<lparr>plr_reference = version_reference version, plr_output = final,
                              plr_file_count = file_count m, plr_bytes = logical_bytes m\<rparr>))))"

section \<open>The contract of a tree downloader\<close>

text \<open>
  All predicates look back to the world \<open>l0\<close> a pull starts from. \<open>undone l0 out l\<close> is what a failed pull
  may leave; \<open>recoverable l0 out\<close> worlds are aborted to such a one; \<open>filled l0 out m D\<close> says that the
  files \<open>D\<close> of \<open>m\<close> are written, \<open>writing\<close> that one more is being written, \<open>published l0 out m\<close> that
  exactly \<open>m\<close> was published at \<open>out\<close>.
\<close>

locale tree_port =
  fixes td :: "('l, 'o, 't) tree_downloader"
    and ready :: "'l \<Rightarrow> bool"
    and undone :: "'l \<Rightarrow> 'o \<Rightarrow> 'l \<Rightarrow> bool"
    and recoverable :: "'l \<Rightarrow> 'o \<Rightarrow> 'l \<Rightarrow> bool"
    and filled :: "'l \<Rightarrow> 'o \<Rightarrow> manifest \<Rightarrow> manifest_entry set \<Rightarrow> 'l \<Rightarrow> bool"
    and writing :: "'l \<Rightarrow> 'o \<Rightarrow> manifest \<Rightarrow> manifest_entry set \<Rightarrow> 't \<Rightarrow> manifest_entry \<Rightarrow> 'l \<Rightarrow> bool"
    and published :: "'l \<Rightarrow> 'o \<Rightarrow> manifest \<Rightarrow> 'l \<Rightarrow> bool"
  assumes begin_law: "ready l \<Longrightarrow> td_begin td out m l = (r, l') \<Longrightarrow>
      recoverable l out l' \<and> (r = Inr () \<longrightarrow> filled l out m {} l')"
    and prepare_law: "filled l0 out m D l \<Longrightarrow> td_prepare td e l = (r', l') \<Longrightarrow>
      recoverable l0 out l' \<and> (\<forall>t. r' = Inr t \<longrightarrow> writing l0 out m D t e l')"
    and write_law: "writing l0 out m D t e l \<Longrightarrow> td_write td t item l = (r, l') \<Longrightarrow>
      recoverable l0 out l' \<and> (r = Inr () \<longrightarrow> filled l0 out m (insert e D) l')"
    and commit_law: "filled l0 out m D l \<Longrightarrow> td_commit td l = (q, l') \<Longrightarrow>
      (\<forall>err. q = Inl err \<longrightarrow> recoverable l0 out l') \<and> (\<forall>p. q = Inr p \<longrightarrow> p = out \<and> published l0 out m l')"
    and abort_law: "recoverable l0 out l \<Longrightarrow> td_abort td l = (r, l') \<Longrightarrow> undone l0 out l'"
    and undone_law: "undone l out l"
    and filled_law: "filled l0 out m D l \<Longrightarrow> recoverable l0 out l"
    and writing_law: "writing l0 out m D t e l \<Longrightarrow> recoverable l0 out l"
begin

lemma pull_entries_fill:
  assumes "filled l0 out m D l" "pull_entries cp td v n k cursor es (c, l) = (r, (c', l'))"
  shows "recoverable l0 out l' \<and> (r = Inr () \<longrightarrow> filled l0 out m (D \<union> set es) l')"
  using assms
proof (induction es arbitrary: D l c k cursor)
  case Nil
  then show ?case using filled_law by auto
next
  case (Cons e es)
  obtain rt l1 where p: "td_prepare td e l = (rt, l1)" by fastforce
  note pl = prepare_law [OF Cons.prems(1) p]
  show ?case
  proof (cases rt)
    case (Inl err)
    then show ?thesis using Cons.prems(2) p pl by (auto simp: svc_bind_def locally_def)
  next
    case (Inr t)
    obtain rc c1 where q: "cp_download_plan cp v cursor c = (rc, c1)" by fastforce
    have w: "writing l0 out m D t e l1" using pl Inr by simp
    show ?thesis
    proof (cases "\<exists>cap item. rc = Inr cap \<and> check_capability e (k + 1 = n) cap = Inr item")
      case False
      then have "(\<exists>err. r = Inl err) \<and> l' = l1"
        using Cons.prems(2) p q Inr
        by (cases rc) (auto simp: svc_bind_def locally_def remotely_def split: sum.splits)
      then show ?thesis using pl by auto
    next
      case True
      then obtain cap item where ci: "rc = Inr cap" "check_capability e (k + 1 = n) cap = Inr item" by blast
      obtain rw l2 where x: "td_write td t item l1 = (rw, l2)" by fastforce
      note wl = write_law [OF w x]
      have run: "pull_entries cp td v n k cursor (e # es) (c, l) =
          (case rw of Inl err \<Rightarrow> (Inl err, (c1, l2)) | Inr _ \<Rightarrow> pull_entries cp td v n (k + 1) (dcp_next cap) es (c1, l2))"
        using p q Inr ci x by (simp add: svc_bind_def locally_def remotely_def split: sum.split)
      show ?thesis
      proof (cases rw)
        case (Inl err)
        then show ?thesis using Cons.prems(2) run wl by auto
      next
        case (Inr u)
        then show ?thesis using Cons.IH [of "insert e D" l2] Cons.prems(2) run wl by simp
      qed
    qed
  qed
qed

lemma guarded_fill:
  assumes "ready l"
    and "svc_catch
           (svc_bind (locally (td_begin td out m)) (\<lambda>_.
            svc_bind (pull_entries cp td v n 0 None es) (\<lambda>_. locally (td_commit td))))
           (locally (td_abort td)) (c, l) = (r, (c', l'))"
  shows "(\<forall>err. r = Inl err \<longrightarrow> undone l out l')
    \<and> (\<forall>p. r = Inr p \<longrightarrow> p = out \<and> published l out m l')"
proof -
  let ?body = "svc_bind (locally (td_begin td out m)) (\<lambda>_.
            svc_bind (pull_entries cp td v n 0 None es) (\<lambda>_. locally (td_commit td)))"
  obtain rb cb lb where b: "?body (c, l) = (rb, (cb, lb))" by (metis prod.collapse)
  have "(\<forall>err. rb = Inl err \<longrightarrow> recoverable l out lb)
      \<and> (\<forall>p. rb = Inr p \<longrightarrow> p = out \<and> published l out m lb)"
  proof -
    obtain r1 l1 where s1: "td_begin td out m l = (r1, l1)" by fastforce
    note law1 = begin_law [OF assms(1) s1]
    show ?thesis
    proof (cases r1)
      case (Inl err)
      then show ?thesis using b s1 law1 by (auto simp: svc_bind_def locally_def)
    next
      case (Inr u)
      obtain r2 c2 l2 where s2: "pull_entries cp td v n 0 None es (c, l1) = (r2, (c2, l2))"
        by (metis prod.collapse)
      have law2: "recoverable l out l2 \<and> (r2 = Inr () \<longrightarrow> filled l out m ({} \<union> set es) l2)"
        using pull_entries_fill [OF _ s2, of l out m "{}"] law1 Inr by (simp del: Un_empty_left)
      show ?thesis
      proof (cases r2)
        case (Inl err)
        then show ?thesis using b s1 Inr s2 law2 by (auto simp: svc_bind_def locally_def)
      next
        case r2: (Inr u')
        obtain r3 l3 where s3: "td_commit td l2 = (r3, l3)" by fastforce
        have "filled l out m ({} \<union> set es) l2" using law2 r2 by simp
        from commit_law [OF this s3] show ?thesis
          using b s1 Inr s2 r2 s3 by (auto simp: svc_bind_def locally_def)
      qed
    qed
  qed
  note body = this
  show ?thesis
  proof (cases rb)
    case (Inl err)
    obtain ra la where a: "td_abort td lb = (ra, la)" by fastforce
    then have "(\<exists>e. r = Inl e) \<and> l' = la"
      using assms(2) b Inl by (cases ra) (auto simp: svc_catch_def locally_def)
    moreover have "undone l out la" using body abort_law [OF _ a] Inl by blast
    ultimately show ?thesis by auto
  next
    case (Inr p)
    then have "r = Inr p \<and> l' = lb" using assms(2) b by (auto simp: svc_catch_def)
    then show ?thesis using body Inr by auto
  qed
qed

text \<open>A pull publishes exactly the manifest of a READY version or is undone.\<close>

lemma pull_outcome:
  assumes "ready l" "pull_run cp td reference out (c, l) = (r, (c', l'))"
  shows "(\<forall>err. r = Inl err \<longrightarrow> undone l out l')
    \<and> (\<forall>res. r = Inr res \<longrightarrow>
         (\<exists>version m c0 c1. cp_resolve cp reference c = (Inr version, c0)
            \<and> cp_manifest cp (vsr_id version) c0 = (Inr m, c1)
            \<and> vsr_state version = V_READY \<and> mf_sha256 m = vsr_manifest_sha version
            \<and> plr_reference res = version_reference version \<and> plr_output res = out
            \<and> plr_file_count res = file_count m \<and> published l out m l'))"
proof -
  obtain r1 c1 where s1: "cp_resolve cp reference c = (r1, c1)" by fastforce
  show ?thesis
  proof (cases "\<exists>version. r1 = Inr version \<and> vsr_state version = V_READY")
    case False
    then show ?thesis
      using assms(2) s1 by (cases r1) (auto simp: pull_run_def svc_bind_def remotely_def undone_law)
  next
    case True
    then obtain version where v: "r1 = Inr version" "vsr_state version = V_READY" by blast
    obtain r2 c2 where s2: "cp_manifest cp (vsr_id version) c1 = (r2, c2)" by fastforce
    show ?thesis
    proof (cases "\<exists>m. r2 = Inr m \<and> mf_sha256 m = vsr_manifest_sha version
        \<and> file_count m = vsr_file_count version \<and> logical_bytes m = vsr_logical_bytes version
        \<and> unique_blob_count m = vsr_unique_blob_count version \<and> unique_blob_bytes m = vsr_unique_blob_bytes version")
      case False
      then show ?thesis
        using assms(2) s1 v s2 by (cases r2) (auto simp: pull_run_def svc_bind_def remotely_def undone_law split: if_splits)
    next
      case True
      then obtain m where m: "r2 = Inr m" "mf_sha256 m = vsr_manifest_sha version"
          "file_count m = vsr_file_count version" "logical_bytes m = vsr_logical_bytes version"
          "unique_blob_count m = vsr_unique_blob_count version" "unique_blob_bytes m = vsr_unique_blob_bytes version"
        by blast
      let ?guarded = "svc_catch
           (svc_bind (locally (td_begin td out m)) (\<lambda>_.
            svc_bind (pull_entries cp td (vsr_id version) (file_count m) 0 None (mf_entries m)) (\<lambda>_. locally (td_commit td))))
           (locally (td_abort td))"
      obtain r3 c3 l3 where s3: "?guarded (c2, l) = (r3, (c3, l3))" by (metis prod.collapse)
      have "pull_run cp td reference out (c, l) =
          (case r3 of Inl err \<Rightarrow> (Inl err, (c3, l3))
           | Inr final \<Rightarrow> (Inr \<lparr>plr_reference = version_reference version, plr_output = final,
               plr_file_count = file_count m, plr_bytes = logical_bytes m\<rparr>, (c3, l3)))"
        using s1 v s2 m s3 by (simp add: pull_run_def svc_bind_def remotely_def split: sum.split)
      then show ?thesis
        using assms(2) guarded_fill [OF assms(1) s3] s1 v s2 m by (cases r3) auto
    qed
  qed
qed

end

section \<open>The atomic tree downloader keeps the contract\<close>

definition atomic_tree :: "unicode \<Rightarrow> platform \<Rightarrow> (tree_world, path, uuid) tree_downloader" where
  "atomic_tree U host =
     \<lparr>td_begin = tree_begin U, td_prepare = tree_prepare, td_write = tree_write,
      td_commit = tree_commit host, td_abort = tree_abort\<rparr>"

text \<open>What a failed pull leaves: see \<open>left_behind\<close> and \<open>cleanup_works\<close>.\<close>

definition tree_undone :: "tree_world \<Rightarrow> path \<Rightarrow> tree_world \<Rightarrow> bool" where
  "tree_undone l0 out l =
     (left_behind out (lw_files l0) (lw_files l) \<and> (cleanup_works l0 \<longrightarrow> lw_files l = lw_files l0))"

interpretation atomic: tree_port "atomic_tree U host" "tree_idle U" tree_undone
    "\<lambda>l0 out l. safe out (lw_files l0) l \<and> system_of l0 l"
    "\<lambda>l0 out m D l. placed U (lw_files l0) out m D l \<and> system_of l0 l"
    "\<lambda>l0 out m D t e l. opened U (lw_files l0) out m D t e l \<and> system_of l0 l"
    "\<lambda>l0. restored U (lw_files l0)"
  for U host
proof unfold_locales
  fix l0 l l' out m D e t item r r' q
  note sys = tree_system [of l0 l]
  show "tree_idle U l \<Longrightarrow> td_begin (atomic_tree U host) out m l = (r, l') \<Longrightarrow>
      (safe out (lw_files l) l' \<and> system_of l l')
      \<and> (r = Inr () \<longrightarrow> placed U (lw_files l) out m {} l' \<and> system_of l l')"
    using begin_ok [of U l out m r l'] tree_system(1) [of l l U out m] by (simp add: atomic_tree_def)
  show "placed U (lw_files l0) out m D l \<and> system_of l0 l \<Longrightarrow> td_prepare (atomic_tree U host) e l = (r', l') \<Longrightarrow>
      (safe out (lw_files l0) l' \<and> system_of l0 l')
      \<and> (\<forall>t. r' = Inr t \<longrightarrow> opened U (lw_files l0) out m D t e l' \<and> system_of l0 l')"
    using prepare_ok [of U "lw_files l0" out m D l e r' l'] sys(2) [of e] by (auto simp: atomic_tree_def)
  show "opened U (lw_files l0) out m D t e l \<and> system_of l0 l \<Longrightarrow> td_write (atomic_tree U host) t item l = (r, l') \<Longrightarrow>
      (safe out (lw_files l0) l' \<and> system_of l0 l')
      \<and> (r = Inr () \<longrightarrow> placed U (lw_files l0) out m (insert e D) l' \<and> system_of l0 l')"
    using write_ok [of U "lw_files l0" out m D t e l item r l'] sys(3) [of t item] by (auto simp: atomic_tree_def)
  show "placed U (lw_files l0) out m D l \<and> system_of l0 l \<Longrightarrow> td_commit (atomic_tree U host) l = (q, l') \<Longrightarrow>
      (\<forall>err. q = Inl err \<longrightarrow> safe out (lw_files l0) l' \<and> system_of l0 l')
      \<and> (\<forall>p. q = Inr p \<longrightarrow> p = out \<and> restored U (lw_files l0) out m l')"
    using commit_ok [of U "lw_files l0" out m D l host q l'] sys(4) [of host] by (auto simp: atomic_tree_def)
  show "safe out (lw_files l0) l \<and> system_of l0 l \<Longrightarrow> td_abort (atomic_tree U host) l = (r, l') \<Longrightarrow> tree_undone l0 out l'"
    using abort_restores [of out "lw_files l0" l r l'] cleanup_system [of l0 l]
    by (auto simp: atomic_tree_def tree_undone_def)
  show "tree_undone l out l" by (simp add: tree_undone_def)
  show "placed U (lw_files l0) out m D l \<and> system_of l0 l \<Longrightarrow> safe out (lw_files l0) l \<and> system_of l0 l"
    "opened U (lw_files l0) out m D t e l \<and> system_of l0 l \<Longrightarrow> safe out (lw_files l0) l \<and> system_of l0 l"
    using placed_safe opened_safe by blast+
qed

text \<open>
  C33: A pull is all or nothing, and it cleans up as far as the operating system lets it. When it
  fails, for whatever reason and whatever call of the operating system was refused, nothing at
  the output has changed, nor anywhere else, but for at most one new private \<^verbatim>\<open>.robolake-\<close> directory
  beside it; and when the calls that clean up (and those between making that directory and
  recording it) are not refused, the local files are exactly what they were. When it succeeds,
  the control plane resolved the reference to a READY version and gave its manifest, the output
  did not exist before, and now it holds exactly the files of that manifest, each with the
  recorded size and digest, and nothing outside it has changed.
\<close>

theorem pull_is_all_or_nothing:
  assumes "tree_idle U l" "pull_run cp (atomic_tree U host) reference out (c, l) = (r, (c', l'))"
  shows "(\<forall>err. r = Inl err \<longrightarrow>
         left_behind out (lw_files l) (lw_files l')
         \<and> (\<forall>p. out \<noteq> [] \<longrightarrow> within out p \<longrightarrow> lw_files l' p = lw_files l p)
         \<and> (cleanup_works l \<longrightarrow> lw_files l' = lw_files l))
    \<and> (\<forall>res. r = Inr res \<longrightarrow>
         (\<exists>version m c0 c1. cp_resolve cp reference c = (Inr version, c0)
            \<and> cp_manifest cp (vsr_id version) c0 = (Inr m, c1)
            \<and> vsr_state version = V_READY \<and> mf_sha256 m = vsr_manifest_sha version
            \<and> plr_reference res = version_reference version \<and> plr_output res = out
            \<and> plr_file_count res = file_count m \<and> restored U (lw_files l) out m l'))"
  using atomic.pull_outcome [OF assms] left_behind_output [of out "lw_files l" "lw_files l'"]
  by (simp add: tree_undone_def)

section \<open>A pull of one empty file\<close>

definition empty_file :: manifest_entry where
  "empty_file = \<lparr>me_path = RelativePath (lit ''a''), me_size = 0, me_sha = content_digest []\<rparr>"

definition small_manifest :: manifest where
  "small_manifest =
     (let c = map of_nat (dumps (manifest_json [empty_file]))
      in \<lparr>mf_entries = [empty_file], mf_canonical = c, mf_sha256 = content_digest c,
          mf_schema_version = 1\<rparr>)"

lemma empty_file_wf: "wf_entry ascii_unicode empty_file"
  by (simp add: empty_file_def wf_entry_def wf_path_def mk_relative_path_def Let_def
      ascii_unicode_def utf8_encode_def utf8_char_def starts_with_def drive_qualified_def
      bad_segment_def dot_segments_def bad_char_def is_Cc_def is_Cs_def limit_defs)

lemma hex_dumps: "\<forall>c \<in> set s. hex_val c \<noteq> None \<Longrightarrow> dumps_str s = 34 # s @ [34]"
proof -
  assume a: "\<forall>c \<in> set s. hex_val c \<noteq> None"
  have "esc_char c = [c]" if "hex_val c \<noteq> None" for c
    using that by (auto simp: esc_char_def hex_val_def split: if_splits)
  then have "concat (map esc_char s) = s" using a by (induction s) auto
  then show ?thesis by (simp add: dumps_str_def)
qed

lemma digest_chars: "\<forall>c \<in> set (sha256_hex b). hex_val c \<noteq> None"
  unfolding sha256_hex_def using hex_encode_chars by blast

lemma small_dumps:
  "\<forall>c \<in> set (dumps (manifest_json [empty_file])). c < 0x80"
  "length (dumps (manifest_json [empty_file])) \<le> MAX_MANIFEST_BYTES"
proof -
  have "c < 128" if "hex_val c \<noteq> None" for c
    using that by (auto simp: hex_val_def split: if_splits)
  then have a: "\<forall>c \<in> set (sha256_hex []). c < 128" using digest_chars by blast
  have l: "length (sha256_hex []) = 64"
    using digest_sha_text [of "[]"] by (simp add: sha_text_def)
  show "\<forall>c \<in> set (dumps (manifest_json [empty_file])). c < 0x80"
    using a by (auto simp: empty_file_def manifest_json_def entry_json_def content_digest_def hex_dumps [OF digest_chars]
      int_str_def nat_str.simps) (auto simp: dumps_str_def esc_char_def)
  show "length (dumps (manifest_json [empty_file])) \<le> MAX_MANIFEST_BYTES"
    using l by (simp add: empty_file_def manifest_json_def entry_json_def content_digest_def hex_dumps [OF digest_chars]
      int_str_def nat_str.simps limit_defs) (simp add: dumps_str_def esc_char_def)
qed

lemma small_built: "build ascii_unicode [empty_file] = Inr small_manifest"
proof -
  have "utf8_encode (rp_value (me_path empty_file)) \<noteq> None \<and> int_fits (me_size empty_file)"
    by (simp add: empty_file_def utf8_encode_def utf8_char_def int_fits_def nat_str.simps max_int_digits_def)
  then show ?thesis
    using small_dumps(2)
    by (auto simp: build_def Let_def small_manifest_def utf8_encode_ascii [OF small_dumps(1)] limit_defs)
qed

lemma small_parses: "from_canonical_bytes ascii_unicode (mf_canonical small_manifest) = Inr small_manifest"
  using build_Inr [OF small_built] empty_file_wf by (intro from_canonical_built) auto
definition small_record :: version_record where
  "small_record =
     \<lparr>vsr_id = 2, vsr_dataset_id = 1, vsr_dataset_name = DatasetName (lit ''d''), vsr_number = 1,
      vsr_manifest_sha = mf_sha256 small_manifest, vsr_state = V_READY, vsr_file_count = 1,
      vsr_logical_bytes = 0, vsr_unique_blob_count = 1, vsr_unique_blob_bytes = 0,
      vsr_failure_code = None, vsr_failure_detail = None\<rparr>"

text \<open>A control plane that knows one READY version of a manifest and signs its first file.\<close>

definition plane_of :: "version_record \<Rightarrow> manifest \<Rightarrow> 'w control_plane" where
  "plane_of version m =
     \<lparr>cp_create_dataset = (\<lambda>_ _. answer (Inl NotFoundError)),
      cp_register_version = (\<lambda>_ _ _. answer (Inr version)), cp_resolve = (\<lambda>_. answer (Inr version)),
      cp_status = (\<lambda>_. answer (Inl NotFoundError)), cp_manifest = (\<lambda>_. answer (Inr m)),
      cp_prepare_upload = (\<lambda>_ _ _. answer (Inl NotFoundError)),
      cp_upload_url = (\<lambda>_. answer (Inl NotFoundError)),
      cp_complete_upload = (\<lambda>_ _. answer (Inl NotFoundError)),
      cp_finalize = (\<lambda>_. answer (Inr version)),
      cp_download_plan = (\<lambda>_ _. answer (Inr
        \<lparr>dcp_item = Some \<lparr>dit_entry = hd (mf_entries m), dit_request = \<lparr>psr_url = lit ''u'', psr_headers = []\<rparr>\<rparr>,
         dcp_next = None, dcp_complete = True\<rparr>))\<rparr>"

definition small_world :: tree_world where
  "small_world =
     \<lparr>lw_files = [[] \<mapsto> Directory], lw_refuses = (\<lambda>_ _ _. False), lw_remains = (\<lambda>_ _. False), lw_calls = 0, lw_uuids = word_of_nat,
      lw_drawn = 0, lw_http = (\<lambda>_ _. Answer 200 [] False), tw_output = None, tw_staging = None,
      tw_parent = None, tw_manifest = None, tw_prepared = [], tw_completed = []\<rparr>"

lemma small_totals:
  "mf_entries small_manifest = [empty_file]" "file_count small_manifest = 1"
  "logical_bytes small_manifest = 0" "unique_blob_count small_manifest = 1" "unique_blob_bytes small_manifest = 0"
  by (simp_all add: small_manifest_def Let_def file_count_def logical_bytes_def unique_blob_count_def
      unique_blob_bytes_def empty_file_def digest_dict_def)

lemma small_segments: "segments empty_file = [[97]]" "rp_value (me_path empty_file) = [97]"
  by (simp_all add: segments_def empty_file_def)

definition small_out :: path where "small_out = [lit ''o'']"

text \<open>The sample world after \<open>begin\<close>, \<open>prepare\<close> and \<open>write\<close> of its one empty file.\<close>

abbreviation small_staging :: path where
  "small_staging \<equiv> [staging_name small_out 0]"

abbreviation small_part :: path where
  "small_part \<equiv> small_staging @ [part_name (small_staging @ [[97]]) 1]"

abbreviation small_item :: download_item where
  "small_item \<equiv> \<lparr>dit_entry = empty_file, dit_request = \<lparr>psr_url = lit ''u'', psr_headers = []\<rparr>\<rparr>"

definition small_begun :: tree_world where
  "small_begun = small_world\<lparr>lw_calls := 4, lw_drawn := 1,
     lw_files := [[] \<mapsto> Directory, small_staging \<mapsto> Directory],
     tw_output := Some small_out, tw_staging := Some small_staging, tw_parent := Some [],
     tw_manifest := Some small_manifest\<rparr>"

definition small_opened :: tree_world where
  "small_opened = small_begun\<lparr>lw_calls := 5, lw_drawn := 2,
     lw_files := (lw_files small_begun)(small_part \<mapsto> RegularFile []),
     tw_prepared := [(1, \<lparr>pst_entry = empty_file, pst_open = True, pst_part = small_part, pst_final = small_staging @ [[97]]\<rparr>)]\<rparr>"

definition small_filled :: tree_world where
  "small_filled = small_begun\<lparr>lw_calls := 8, lw_drawn := 2,
     lw_files := ((lw_files small_opened)(small_part := None))(small_staging @ [[97]] \<mapsto> RegularFile []),
     tw_completed := [[97]], tw_prepared := []\<rparr>"

lemma small_names: "staging_name small_out 0 \<noteq> [111]" "part_name (small_staging @ [[97]]) 1 \<noteq> [97]"
  by (simp_all add: staging_name_def part_name_def)

lemma small_begun_view:
  "lw_files small_begun = [[] \<mapsto> Directory, small_staging \<mapsto> Directory]" "tw_staging small_begun = Some small_staging"
  "tw_manifest small_begun = Some small_manifest" "lw_calls small_begun = 4" "lw_drawn small_begun = 1"
  "tw_prepared small_begun = []" "tw_completed small_begun = []" "tw_output small_begun = Some small_out"
  "\<not> lw_refuses small_begun k q n" "lw_uuids small_begun = word_of_nat"
  "lw_http small_begun = (\<lambda>_ _. Answer 200 [] False)"
  by (simp_all add: small_begun_def small_world_def)

lemma small_opened_view:
  "lw_files small_opened = (lw_files small_begun)(small_part \<mapsto> RegularFile [])"
  "tw_prepared small_opened =
    [(1, \<lparr>pst_entry = empty_file, pst_open = True, pst_part = small_part, pst_final = small_staging @ [[97]]\<rparr>)]"
  "lw_calls small_opened = 5" "\<not> lw_refuses small_opened k q n"
  "lw_http small_opened = (\<lambda>_ _. Answer 200 [] False)" "tw_completed small_opened = []"
  by (simp_all add: small_opened_def small_begun_view)

lemma small_filled_view:
  "lw_files small_filled
    = ((lw_files small_opened)(small_part := None))(small_staging @ [[97]] \<mapsto> RegularFile [])"
  "tw_prepared small_filled = []" "tw_completed small_filled = [[97]]"
  "tw_staging small_filled = Some small_staging" "tw_manifest small_filled = Some small_manifest"
  "tw_output small_filled = Some small_out" "\<not> lw_refuses small_filled k q n"
  by (simp_all add: small_filled_def small_begun_view)

lemma small_begins: "tree_begin ascii_unicode small_out small_manifest small_world = (Inr (), small_begun)"
  using small_parses
  by (simp add: tree_begin_def small_out_def svc_bind_def small_world_def os_call_def fs_lstat_def fs_mkdir_def
      fs_chmod_def fs_resolve_def draw_uuid_def small_begun_def Let_def)

lemma small_prepares: "tree_prepare empty_file small_begun = (Inr 1, small_opened)"
  by (simp add: tree_prepare_def active_def small_begun_view small_totals small_segments svc_bind_def os_call_def
      fs_create_def draw_uuid_def Let_def)
     (simp add: small_opened_def small_begun_view)

lemma small_writes: "tree_write 1 small_item small_opened = (Inr (), small_filled)"
proof -
  have no: "lw_files small_opened (small_staging @ [[97]]) = None" "lw_files small_opened small_staging = Some Directory"
    using small_names by (simp_all add: small_opened_view small_begun_view)
  have "me_size empty_file = 0" "digest_value (me_sha empty_file) = sha256_hex []"
    by (simp_all add: empty_file_def content_digest_def)
  then have "download_to small_item small_part small_opened = (Inr (), small_opened\<lparr>lw_calls := 6\<rparr>)"
    by (simp add: download_to_def small_opened_view os_call_def fs_descriptor_def Let_def)
  moreover have "os_close small_part (small_opened\<lparr>lw_calls := 6\<rparr>) = (Inr (), small_opened\<lparr>lw_calls := 7\<rparr>)"
    by (simp add: os_call_def fs_descriptor_def small_opened_view Let_def)
  moreover have "os_rename small_part (small_staging @ [[97]]) (forget_descriptor 1 (small_opened\<lparr>lw_calls := 7\<rparr>))
      = (Inr (), (forget_descriptor 1 (small_opened\<lparr>lw_calls := 7\<rparr>))\<lparr>lw_calls := 8, lw_files :=
          ((lw_files small_opened)(small_part := None))(small_staging @ [[97]] \<mapsto> RegularFile [])\<rparr>)"
    using no by (simp add: os_call_def fs_rename_def small_opened_view forget_descriptor_def Let_def butlast_append)
  ultimately show ?thesis
    by (simp add: tree_write_def small_opened_view place_file_def svc_catch_def svc_bind_def small_segments
        forget_descriptor_def)
       (simp add: small_filled_def small_opened_def)
qed

lemma small_commits: "\<exists>l'. tree_commit Linux small_filled = (Inr small_out, l')"
proof -
  have "fs_rename_noreplace small_staging small_out (lw_files small_filled) \<noteq> Inl e" for e
    using small_names
    by (simp add: fs_rename_noreplace_def small_filled_view(1) small_opened_view small_begun_view small_out_def
        within_def)
  then show ?thesis
    using small_filled_view small_segments
    by (cases "fs_rename_noreplace small_staging small_out (lw_files small_filled)")
       (auto simp: tree_commit_def active_def small_totals svc_bind_def publish_no_replace_def Let_def)
qed

lemma small_pull:
  "\<exists>res l'. pull_run (plane_of small_record small_manifest) (atomic_tree ascii_unicode Linux)
     \<lparr>dr_dataset = DatasetName (lit ''d''), dr_version_number = 1\<rparr> small_out ((), small_world) = (Inr res, ((), l'))"
proof -
  obtain l' where c: "tree_commit Linux small_filled = (Inr small_out, l')" using small_commits by blast
  have v: "vsr_state small_record = V_READY" "vsr_manifest_sha small_record = mf_sha256 small_manifest"
      "vsr_file_count small_record = 1" "vsr_logical_bytes small_record = 0" "vsr_unique_blob_count small_record = 1"
      "vsr_unique_blob_bytes small_record = 0"
    by (simp_all add: small_record_def)
  show ?thesis
    using small_begins small_prepares small_writes c v
    by (simp add: pull_run_def plane_of_def atomic_tree_def remotely_def locally_def svc_bind_def svc_catch_def
        small_totals check_capability_def)
qed

theorem pull_is_all_or_nothing_witness:
  "\<exists>res c' l'. pull_run (plane_of small_record small_manifest) (atomic_tree ascii_unicode Linux)
     \<lparr>dr_dataset = DatasetName (lit ''d''), dr_version_number = 1\<rparr> small_out ((), small_world) = (Inr res, (c', l'))
     \<and> restored ascii_unicode (lw_files small_world) small_out small_manifest l'"
proof -
  obtain res l' where p: "pull_run (plane_of small_record small_manifest) (atomic_tree ascii_unicode Linux)
     \<lparr>dr_dataset = DatasetName (lit ''d''), dr_version_number = 1\<rparr> small_out ((), small_world) = (Inr res, ((), l'))"
    using small_pull by blast
  have "tree_idle ascii_unicode small_world"
    by (simp add: tree_idle_def small_world_def tree_ok_def ascii_unicode_laws)
  from pull_is_all_or_nothing [OF this p] p show ?thesis by (auto simp: plane_of_def)
qed

section \<open>A directory nobody removes\<close>

text \<open>
  The staging directory is recorded only after \<^verbatim>\<open>os.chmod\<close>: when that call is refused, \<^verbatim>\<open>abort\<close> does not
  know the directory and leaves it, without trying to remove it.
\<close>

definition strict_world :: tree_world where
  "strict_world = small_world\<lparr>lw_refuses := \<lambda>c _ _. c = SysChmod\<rparr>"

lemma strict_begin:
  "tree_begin ascii_unicode small_out small_manifest strict_world
   = (Inl PyOSError, strict_world\<lparr>lw_calls := 3, lw_drawn := 1,
        lw_files := [[] \<mapsto> Directory, small_staging \<mapsto> Directory]\<rparr>)"
  using small_parses
  by (simp add: tree_begin_def small_out_def svc_bind_def strict_world_def small_world_def os_call_def fs_lstat_def
      fs_mkdir_def draw_uuid_def Let_def)

theorem unrecorded_staging_is_left:
  "\<exists>l'. pull_run (plane_of small_record small_manifest) (atomic_tree ascii_unicode Linux)
     \<lparr>dr_dataset = DatasetName (lit ''d''), dr_version_number = 1\<rparr> small_out ((), strict_world)
     = (Inl PyOSError, ((), l')) \<and> lw_files l' small_staging = Some Directory \<and> tw_staging l' = None"
  using strict_begin
  by (simp add: pull_run_def plane_of_def atomic_tree_def remotely_def locally_def svc_bind_def svc_catch_def
      small_totals small_record_def tree_abort_def remove_staging_def strict_world_def small_world_def)

section \<open>Versions that cannot be pulled\<close>

text \<open>
  C34: A version with a file and another file below it can never be pulled: whatever else its
  manifest holds, every pull of it fails, although manifests of this shape can be built, so the
  version can be registered and become READY.
\<close>

theorem collided_version_cannot_be_pulled:
  assumes "tree_idle U l" "from_canonical_bytes U (mf_canonical m) = Inr m"
    and "e \<in> set (mf_entries m)" "e' \<in> set (mf_entries m)"
    and "segments e' = segments e @ q" "q \<noteq> []"
    and "\<And>v c. \<exists>c'. cp_manifest cp v c = (Inr m, c')"
  shows "\<exists>err. fst (pull_run cp (atomic_tree U host) reference out (c, l)) = Inl err"
proof -
  obtain r c' l' where p: "pull_run cp (atomic_tree U host) reference out (c, l) = (r, (c', l'))"
    by (metis prod.collapse)
  have "r \<noteq> Inr res" for res
  proof
    assume "r = Inr res"
    then obtain m' where "m' = m" "restored U (lw_files l) out m' l'"
      using atomic.pull_outcome [OF assms(1) p] assms(7) by (metis Pair_inject sum.inject(2))
    then have t: "tree_ok (lw_files l')" "holds_files out (set (mf_entries m)) m (lw_files l')"
      using assms(2) by (auto simp: restored_def)
    obtain b b' where "lw_files l' (out @ segments e) = Some (RegularFile b)"
        "lw_files l' (out @ segments e') = Some (RegularFile b')"
      using t(2) assms(3,4) by (auto simp: holds_files_def) blast
    then show False
      using tree_ok_above [OF t(1), of "out @ segments e" q] assms(5,6) by simp
  qed
  then show ?thesis using p by (cases r) auto
qed

theorem collided_version_cannot_be_pulled_witness:
  "\<exists>err. fst (pull_run (plane_of (small_record\<lparr>vsr_manifest_sha := mf_sha256 sample_manifest\<rparr>) sample_manifest)
     (atomic_tree ascii_unicode Linux) \<lparr>dr_dataset = DatasetName (lit ''d''), dr_version_number = 1\<rparr>
     small_out ((), small_world)) = Inl err"
proof (rule collided_version_cannot_be_pulled [where m = sample_manifest and e = "sample_entries ! 0"
      and e' = "sample_entries ! 2" and q = "[lit ''c'']"])
  show "tree_idle ascii_unicode small_world"
    by (simp add: tree_idle_def small_world_def tree_ok_def ascii_unicode_laws)
  show "from_canonical_bytes ascii_unicode (mf_canonical sample_manifest) = Inr sample_manifest"
    by (rule sample_parses)
  show "sample_entries ! 0 \<in> set (mf_entries sample_manifest)" "sample_entries ! 2 \<in> set (mf_entries sample_manifest)"
    by (simp_all add: sample_manifest_def Let_def sample_entries_def)
  show "segments (sample_entries ! 2) = segments (sample_entries ! 0) @ [lit ''c'']"
    by (simp add: segments_def sample_entries_def)
qed (simp_all add: plane_of_def)

end
