(* ===== verification/Push.thy ===== *)
theory Push
  imports Pull
begin

text \<open>
  \<^verbatim>\<open>PushWorkflow\<close> of \<^verbatim>\<open>robolake/application/push.py\<close>, over any scanner, control plane and byte
  transfer (\<^verbatim>\<open>ports.py\<close>): which contents a push handles, in which order it calls the control
  plane, and what its result counts.
\<close>

section \<open>The local ports\<close>

text \<open>A scanned file pairs its entry with a local reference of any type.\<close>

record 'r scanned_file =
  scf_entry :: manifest_entry
  scf_ref :: 'r

record 'r scanned_dataset =
  scd_manifest :: manifest
  scd_files :: "'r scanned_file list"

datatype put_outcome = PUT_CREATED | PUT_ALREADY_EXISTS | PUT_CONFLICT

record put_receipt =
  ptr_outcome :: put_outcome
  ptr_etag :: "ustr option"

datatype progress_kind =
  PK_SCANNED | PK_UPLOADING | PK_SKIPPED | PK_VERIFIED | PK_FINALIZING | PK_DOWNLOADING | PK_RESTORED

record progress_event =
  pev_kind :: progress_kind
  pev_path :: "relative_path option"
  pev_resolved_count :: int
  pev_unique_count :: int
  pev_resolved_bytes :: int
  pev_unique_bytes :: int

record ('l, 'p, 'r) local_port =
  lp_scan :: "'p \<Rightarrow> ('l, 'r scanned_dataset) act"
  lp_put :: "'r \<Rightarrow> presigned_request \<Rightarrow> manifest_entry \<Rightarrow> ('l, put_receipt) act"
  lp_progress :: "progress_event \<Rightarrow> ('l, unit) act"

section \<open>The workflow\<close>

record push_counts =
  pc_resolved :: int
  pc_resolved_bytes :: int
  pc_created :: int
  pc_created_bytes :: int
  pc_reused :: int
  pc_reused_bytes :: int

definition no_counts :: push_counts where
  "no_counts = \<lparr>pc_resolved = 0, pc_resolved_bytes = 0, pc_created = 0, pc_created_bytes = 0,
                pc_reused = 0, pc_reused_bytes = 0\<rparr>"

definition count_created :: "int \<Rightarrow> push_counts \<Rightarrow> push_counts" where
  "count_created n c =
     c\<lparr>pc_created := pc_created c + 1, pc_created_bytes := pc_created_bytes c + n,
       pc_resolved := pc_resolved c + 1, pc_resolved_bytes := pc_resolved_bytes c + n\<rparr>"

definition count_reused :: "int \<Rightarrow> push_counts \<Rightarrow> push_counts" where
  "count_reused n c =
     c\<lparr>pc_reused := pc_reused c + 1, pc_reused_bytes := pc_reused_bytes c + n,
       pc_resolved := pc_resolved c + 1, pc_resolved_bytes := pc_resolved_bytes c + n\<rparr>"

record push_result =
  psh_reference :: dataset_reference
  psh_state :: version_state
  psh_file_count :: int
  psh_logical_bytes :: int
  psh_unique_blob_count :: int
  psh_unique_blob_bytes :: int
  psh_created_count :: int
  psh_created_bytes :: int
  psh_reused_count :: int
  psh_reused_bytes :: int

definition require_manifest :: "sha256_digest \<Rightarrow> sha256_digest \<Rightarrow> unit res" where
  "require_manifest actual expected = require (actual = expected) ManifestMismatchError"

definition emit ::
    "('l, 'p, 'r) local_port \<Rightarrow> progress_kind \<Rightarrow> relative_path option \<Rightarrow> push_counts \<Rightarrow> manifest
     \<Rightarrow> ('w \<times> 'l, unit) act" where
  "emit lp kind path c m =
     locally (lp_progress lp
       \<lparr>pev_kind = kind, pev_path = path, pev_resolved_count = pc_resolved c,
        pev_unique_count = unique_blob_count m, pev_resolved_bytes = pc_resolved_bytes c,
        pev_unique_bytes = unique_blob_bytes m\<rparr>)"

definition push_result_of :: "version_record \<Rightarrow> int \<Rightarrow> int \<Rightarrow> int \<Rightarrow> int \<Rightarrow> push_result res" where
  "push_result_of version created created_bytes reused reused_bytes =
     (if created + reused \<noteq> vsr_unique_blob_count version
         \<or> created_bytes + reused_bytes \<noteq> vsr_unique_blob_bytes version
      then Inl ContentConflictError
      else Inr \<lparr>psh_reference = version_reference version, psh_state = vsr_state version,
                psh_file_count = vsr_file_count version, psh_logical_bytes = vsr_logical_bytes version,
                psh_unique_blob_count = vsr_unique_blob_count version,
                psh_unique_blob_bytes = vsr_unique_blob_bytes version,
                psh_created_count = created, psh_created_bytes = created_bytes,
                psh_reused_count = reused, psh_reused_bytes = reused_bytes\<rparr>)"

text \<open>\<^verbatim>\<open>sources.setdefault\<close>: the first scanned file of each digest, in the order of the scan.\<close>

definition add_source :: "'r scanned_file \<Rightarrow> 'r scanned_file list \<Rightarrow> 'r scanned_file list" where
  "add_source f fs = (if me_sha (scf_entry f) \<in> (\<lambda>g. me_sha (scf_entry g)) ` set fs then fs else fs @ [f])"

definition unique_sources :: "'r scanned_file list \<Rightarrow> 'r scanned_file list" where
  "unique_sources fs = fold add_source fs []"

text \<open>The second half of a round of the loop: the blob is not available yet.\<close>

definition upload_blob ::
    "'w control_plane \<Rightarrow> ('l, 'p, 'r) local_port \<Rightarrow> uuid \<Rightarrow> manifest \<Rightarrow> 'r scanned_file \<Rightarrow> push_counts
     \<Rightarrow> ('w \<times> 'l, push_counts) act" where
  "upload_blob cp lp s m f c =
     (let entry = scf_entry f
      in svc_bind (emit lp PK_UPLOADING (Some (me_path entry)) c m) (\<lambda>_.
         svc_bind (remotely (cp_upload_url cp s)) (\<lambda>request.
         svc_bind (locally (lp_put lp (scf_ref f) request entry)) (\<lambda>receipt.
         svc_bind (remotely (cp_complete_upload cp s (ptr_etag receipt))) (\<lambda>completed.
         svc_bind (answer (require_manifest (vsr_manifest_sha (prp_version completed)) (mf_sha256 m))) (\<lambda>_.
           if \<not> prp_available completed then answer (Inl UploadConflictError)
           else
             let c' = (if ptr_outcome receipt = PUT_CREATED
                       then count_created (prp_size completed) c
                       else count_reused (prp_size completed) c)
             in svc_bind (emit lp PK_VERIFIED (Some (me_path entry)) c' m) (\<lambda>_. answer (Inr c'))))))))"

text \<open>One round of the loop over the sources.\<close>

definition push_blob ::
    "'w control_plane \<Rightarrow> ('l, 'p, 'r) local_port \<Rightarrow> uuid \<Rightarrow> manifest \<Rightarrow> 'r scanned_file \<Rightarrow> push_counts
     \<Rightarrow> ('w \<times> 'l, push_counts) act" where
  "push_blob cp lp v m f c =
     (let entry = scf_entry f;
          key = make_idempotency_key ''upload-session-create'' [uuid_bytes v, digest_raw (me_sha entry)]
      in svc_bind (remotely (cp_prepare_upload cp v (me_sha entry) key)) (\<lambda>prepared.
         svc_bind (answer (require_manifest (vsr_manifest_sha (prp_version prepared)) (mf_sha256 m))) (\<lambda>_.
           if prp_size prepared \<noteq> me_size entry then answer (Inl ContentConflictError)
           else if prp_available prepared then
             (let c' = count_reused (prp_size prepared) c
              in svc_bind (emit lp PK_SKIPPED (Some (me_path entry)) c' m) (\<lambda>_. answer (Inr c')))
           else
             case prp_session prepared of
               None \<Rightarrow> answer (Inl ContentConflictError)
             | Some s \<Rightarrow> upload_blob cp lp s m f c)))"

fun push_blobs ::
    "'w control_plane \<Rightarrow> ('l, 'p, 'r) local_port \<Rightarrow> uuid \<Rightarrow> manifest \<Rightarrow> 'r scanned_file list \<Rightarrow> push_counts
     \<Rightarrow> ('w \<times> 'l, push_counts) act" where
  "push_blobs cp lp v m [] c = answer (Inr c)"
| "push_blobs cp lp v m (f # fs) c = svc_bind (push_blob cp lp v m f c) (push_blobs cp lp v m fs)"

definition publish_pushed ::
    "'w control_plane \<Rightarrow> ('l, 'p, 'r) local_port \<Rightarrow> uuid \<Rightarrow> 'r scanned_dataset \<Rightarrow> ('w \<times> 'l, push_result) act" where
  "publish_pushed cp lp v scanned =
     (let m = scd_manifest scanned
      in svc_bind (push_blobs cp lp v m (unique_sources (scd_files scanned)) no_counts) (\<lambda>c.
         svc_bind (emit lp PK_FINALIZING None c m) (\<lambda>_.
         svc_bind (remotely (cp_finalize cp v)) (\<lambda>done.
         svc_bind (answer (require_manifest (vsr_manifest_sha done) (mf_sha256 m))) (\<lambda>_.
           if vsr_state done \<noteq> V_READY then answer (Inl ContentConflictError)
           else answer (push_result_of done (pc_created c) (pc_created_bytes c)
                          (pc_reused c) (pc_reused_bytes c)))))))"

text \<open>The start of a push: scan, then create the dataset and register the manifest.\<close>

definition register_push ::
    "'w control_plane \<Rightarrow> ('l, 'p, 'r) local_port \<Rightarrow> 'p \<Rightarrow> dataset_name
     \<Rightarrow> ('w \<times> 'l, 'r scanned_dataset \<times> version_record) act" where
  "register_push cp lp source dataset =
     svc_bind (locally (lp_scan lp source)) (\<lambda>scanned.
       let m = scd_manifest scanned
       in svc_bind (emit lp PK_SCANNED None no_counts m) (\<lambda>_.
          svc_bind (answer (of_option PyUnicodeEncodeError (utf8_encode (dn_value dataset)))) (\<lambda>name_bytes.
          svc_bind (remotely (cp_create_dataset cp dataset
             (make_idempotency_key ''dataset-create'' [name_bytes]))) (\<lambda>ds.
          svc_bind (remotely (cp_register_version cp (dsr_id ds) m
             (make_idempotency_key ''version-register''
                [uuid_bytes (dsr_id ds), digest_raw (mf_sha256 m), mf_canonical m]))) (\<lambda>version.
          svc_bind (answer (require_manifest (vsr_manifest_sha version) (mf_sha256 m))) (\<lambda>_.
            answer (Inr (scanned, version))))))))"

definition push_run ::
    "'w control_plane \<Rightarrow> ('l, 'p, 'r) local_port \<Rightarrow> 'p \<Rightarrow> dataset_name \<Rightarrow> ('w \<times> 'l, push_result) act" where
  "push_run cp lp source dataset =
     svc_bind (register_push cp lp source dataset) (\<lambda>(scanned, version).
       if vsr_state version = V_READY
       then answer (push_result_of version 0 0 (unique_blob_count (scd_manifest scanned))
                      (unique_blob_bytes (scd_manifest scanned)))
       else publish_pushed cp lp (vsr_id version) scanned)"

section \<open>The totals of a push\<close>

definition one_more :: "push_counts \<Rightarrow> push_counts \<Rightarrow> bool" where
  "one_more c c' =
     (pc_resolved c' = pc_resolved c + 1 \<and> pc_created c' + pc_reused c' = pc_created c + pc_reused c + 1)"

lemma one_more_counts: "one_more c (count_created n c)" "one_more c (count_reused n c)"
  by (simp_all add: one_more_def count_created_def count_reused_def)

lemma upload_blob_counts: "upload_blob cp lp s m f c w = (Inr c', w') \<Longrightarrow> one_more c c'"
  unfolding upload_blob_def Let_def svc_bind_Inr
  by (elim exE conjE) (simp split: if_splits; (elim conjE exE)?; auto simp: svc_bind_Inr one_more_counts)

lemma push_blob_counts: "push_blob cp lp v m f c w = (Inr c', w') \<Longrightarrow> one_more c c'"
  unfolding push_blob_def Let_def svc_bind_Inr
  by (elim exE conjE) (simp split: if_splits option.splits; (elim conjE exE)?;
      auto simp: svc_bind_Inr one_more_counts dest: upload_blob_counts)

lemma push_blobs_counts:
  "push_blobs cp lp v m fs c w = (Inr c', w') \<Longrightarrow>
     pc_resolved c' = pc_resolved c + int (length fs)
     \<and> pc_created c' + pc_reused c' = pc_created c + pc_reused c + int (length fs)"
proof (induction fs arbitrary: c w)
  case (Cons f fs)
  then obtain c1 w1 where "push_blob cp lp v m f c w = (Inr c1, w1)" "push_blobs cp lp v m fs c1 w1 = (Inr c', w')"
    by (auto simp: svc_bind_Inr)
  then show ?case using push_blob_counts [of cp lp v m f c w c1 w1] Cons.IH [of c1 w1] by (simp add: one_more_def)
qed simp

lemma unique_sources_digests:
  "distinct (map (\<lambda>f. me_sha (scf_entry f)) (unique_sources fs))
   \<and> (\<lambda>f. me_sha (scf_entry f)) ` set (unique_sources fs) = (\<lambda>f. me_sha (scf_entry f)) ` set fs"
proof -
  have "distinct (map (\<lambda>f. me_sha (scf_entry f)) (fold add_source fs gs))
     \<and> (\<lambda>f. me_sha (scf_entry f)) ` set (fold add_source fs gs)
         = (\<lambda>f. me_sha (scf_entry f)) ` (set gs \<union> set fs)"
    if "distinct (map (\<lambda>f. me_sha (scf_entry f)) gs)" for gs :: "'a scanned_file list"
    using that
  proof (induction fs arbitrary: gs)
    case (Cons f fs)
    have "distinct (map (\<lambda>f. me_sha (scf_entry f)) (add_source f gs))"
        "(\<lambda>f. me_sha (scf_entry f)) ` set (add_source f gs) = (\<lambda>f. me_sha (scf_entry f)) ` (insert f (set gs))"
      using Cons.prems by (auto simp: add_source_def)
    then show ?case using Cons.IH [of "add_source f gs"] by (simp add: image_Un)
  qed simp
  from this [of "[]"] show ?thesis by (simp add: unique_sources_def)
qed

lemma unique_sources_count:
  assumes "map scf_entry fs = mf_entries m"
  shows "int (length (unique_sources fs)) = unique_blob_count m"
proof -
  have "length (unique_sources fs) = card ((\<lambda>f. me_sha (scf_entry f)) ` set fs)"
    using unique_sources_digests [of fs] by (metis distinct_card length_map list.set_map)
  also have "(\<lambda>f. me_sha (scf_entry f)) ` set fs = set (map me_sha (mf_entries m))"
    using assms by (metis (no_types, lifting) list.map_comp list.set_map map_eq_conv comp_apply)
  finally show ?thesis by (simp add: unique_blob_count_def length_remdups_card_conv)
qed

lemma push_result_of_Inr:
  "push_result_of version a b c d = Inr res \<longleftrightarrow>
     a + c = vsr_unique_blob_count version \<and> b + d = vsr_unique_blob_bytes version
     \<and> res = \<lparr>psh_reference = version_reference version, psh_state = vsr_state version,
              psh_file_count = vsr_file_count version, psh_logical_bytes = vsr_logical_bytes version,
              psh_unique_blob_count = vsr_unique_blob_count version,
              psh_unique_blob_bytes = vsr_unique_blob_bytes version,
              psh_created_count = a, psh_created_bytes = b, psh_reused_count = c, psh_reused_bytes = d\<rparr>"
  by (auto simp: push_result_of_def)

text \<open>The stages a successful push has gone through.\<close>

lemma locally_Inr: "locally f w = (r, w') \<longleftrightarrow> f (snd w) = (r, snd w') \<and> fst w' = fst w"
  by (cases w; cases w') (auto simp: locally_eq)

lemma remotely_Inr: "remotely f w = (r, w') \<longleftrightarrow> f (fst w) = (r, fst w') \<and> snd w' = snd w"
  by (cases w; cases w') (auto simp: remotely_eq)

lemma publish_pushed_Inr [consumes 1]:
  assumes "publish_pushed cp lp v scanned w = (Inr res, w')"
  obtains c w1 ended where
    "push_blobs cp lp v (scd_manifest scanned) (unique_sources (scd_files scanned)) no_counts w = (Inr c, w1)"
    "cp_finalize cp v (fst w1) = (Inr ended, fst w')"
    "vsr_manifest_sha ended = mf_sha256 (scd_manifest scanned)" "vsr_state ended = V_READY"
    "push_result_of ended (pc_created c) (pc_created_bytes c) (pc_reused c) (pc_reused_bytes c) = Inr res"
  using assms unfolding publish_pushed_def Let_def svc_bind_Inr
  by (elim exE conjE) (auto simp: emit_def locally_Inr remotely_Inr require_manifest_def split: if_splits)

lemma register_push_Inr [consumes 1]:
  fixes cp :: "'w control_plane" and lp :: "('l, 'p, 'r) local_port"
  assumes "register_push cp lp source dataset w = (Inr (scanned, version), w')"
  obtains l1 key1 ds c1 key2 where
    "lp_scan lp source (snd w) = (Inr scanned, l1)"
    "cp_create_dataset cp dataset key1 (fst w) = (Inr ds, c1)"
    "cp_register_version cp (dsr_id ds) (scd_manifest scanned) key2 c1 = (Inr version, fst w')"
    "vsr_manifest_sha version = mf_sha256 (scd_manifest scanned)"
  using assms unfolding register_push_def Let_def svc_bind_Inr
  by (elim exE conjE) (simp add: emit_def locally_Inr remotely_Inr require_manifest_def; blast)

lemma push_run_Inr [consumes 1]:
  assumes "push_run cp lp source dataset w = (Inr res, w')"
  obtains scanned version w1 where
    "register_push cp lp source dataset w = (Inr (scanned, version), w1)"
    "vsr_state version = V_READY" "w' = w1"
    "push_result_of version 0 0 (unique_blob_count (scd_manifest scanned))
       (unique_blob_bytes (scd_manifest scanned)) = Inr res"
  | scanned version w1 where
    "register_push cp lp source dataset w = (Inr (scanned, version), w1)"
    "publish_pushed cp lp (vsr_id version) scanned w1 = (Inr res, w')"
  using assms unfolding push_run_def svc_bind_Inr
  by (auto split: if_splits prod.splits)

text \<open>
  C35: A push reports exactly the deduplicated totals of the scanned manifest: when it succeeds, the
  version is READY, the blobs it counts as created and as reused together are the distinct
  contents of the scan, each counted once, and counts and bytes are those of the version.
\<close>

theorem push_reports_unique_totals:
  assumes "push_run cp lp source dataset (c, l) = (Inr res, w')"
    and "lp_scan lp source l = (Inr scanned, l1)"
    and "map scf_entry (scd_files scanned) = mf_entries (scd_manifest scanned)"
  shows "psh_created_count res + psh_reused_count res = unique_blob_count (scd_manifest scanned)
    \<and> psh_unique_blob_count res = unique_blob_count (scd_manifest scanned)
    \<and> psh_created_bytes res + psh_reused_bytes res = psh_unique_blob_bytes res
    \<and> psh_state res = V_READY"
  using assms(1)
proof (cases rule: push_run_Inr)
  case (1 scanned' version w1)
  have "scanned' = scanned" using 1(1) assms(2) by (auto elim: register_push_Inr)
  then show ?thesis using 1(2,4) by (auto simp: push_result_of_Inr)
next
  case (2 scanned' version w1)
  have s: "scanned' = scanned" using 2(1) assms(2) by (auto elim: register_push_Inr)
  from 2(2) show ?thesis
  proof (cases rule: publish_pushed_Inr)
    case (1 k w2 ended)
    then show ?thesis
      using push_blobs_counts [OF 1(1)] unique_sources_count [OF assms(3)] s
      by (auto simp: push_result_of_Inr no_counts_def)
  qed
qed

section \<open>A push of one empty file\<close>

definition small_scan :: "unit scanned_dataset" where
  "small_scan = \<lparr>scd_manifest = small_manifest, scd_files = [\<lparr>scf_entry = empty_file, scf_ref = ()\<rparr>]\<rparr>"

definition quiet_port :: "(unit, unit, unit) local_port" where
  "quiet_port =
     \<lparr>lp_scan = (\<lambda>_. answer (Inr small_scan)),
      lp_put = (\<lambda>_ _ _. answer (Inr \<lparr>ptr_outcome = PUT_CREATED, ptr_etag = None\<rparr>)),
      lp_progress = (\<lambda>_. answer (Inr ()))\<rparr>"

definition small_preparation :: "bool \<Rightarrow> upload_preparation" where
  "small_preparation available =
     \<lparr>prp_version = small_record, prp_sha = me_sha empty_file, prp_size = me_size empty_file,
      prp_available = available, prp_session = Some 3\<rparr>"

definition upload_plane :: "unit control_plane" where
  "upload_plane = (plane_of small_record small_manifest)
     \<lparr>cp_create_dataset := (\<lambda>name _. answer (Inr \<lparr>dsr_id = 1, dsr_name = name\<rparr>)),
      cp_register_version := (\<lambda>_ _ _. answer (Inr (small_record\<lparr>vsr_state := V_DRAFT\<rparr>))),
      cp_prepare_upload := (\<lambda>_ _ _. answer (Inr (small_preparation False))),
      cp_upload_url := (\<lambda>_. answer (Inr \<lparr>psr_url = lit ''u'', psr_headers = []\<rparr>)),
      cp_complete_upload := (\<lambda>_ _. answer (Inr (small_preparation True)))\<rparr>"

theorem push_reports_unique_totals_witness:
  "\<exists>res w'. push_run upload_plane quiet_port () (DatasetName (lit ''d'')) ((), ()) = (Inr res, w')
     \<and> psh_created_count res + psh_reused_count res = 1 \<and> psh_created_count res = 1 \<and> psh_state res = V_READY"
proof -
  obtain res w' where p: "push_run upload_plane quiet_port () (DatasetName (lit ''d'')) ((), ()) = (Inr res, w')"
      and c: "psh_created_count res = 1"
    by (simp add: push_run_def register_push_def publish_pushed_def unique_sources_def add_source_def push_blob_def
        upload_blob_def emit_def upload_plane_def plane_of_def quiet_port_def small_scan_def small_preparation_def
        small_record_def svc_bind_def remotely_def locally_def require_manifest_def push_result_of_def
        count_created_def no_counts_def utf8_encode_def utf8_char_def small_totals Let_def empty_file_def)
  have "lp_scan quiet_port () () = (Inr small_scan, ())" by (simp add: quiet_port_def)
  moreover have "map scf_entry (scd_files small_scan) = mf_entries (scd_manifest small_scan)"
    by (simp add: small_scan_def small_totals)
  ultimately have "psh_created_count res + psh_reused_count res = 1 \<and> psh_state res = V_READY"
    using push_reports_unique_totals [OF p] by (simp add: small_scan_def small_totals)
  then show ?thesis using p c by blast
qed

section \<open>The contract of a control plane\<close>

text \<open>
  \<open>reach w w'\<close>: the plane can go from \<open>w\<close> to \<open>w'\<close>; \<open>sound\<close> worlds stay sound. \<open>holds_ready w v sha\<close>: \<open>v\<close>
  is a published version whose manifest has the digest \<open>sha\<close>; it stays one. A record that says
  READY tells the truth.
\<close>

locale registry_port =
  fixes cp :: "'w control_plane"
    and sound :: "'w \<Rightarrow> bool"
    and reach :: "'w \<Rightarrow> 'w \<Rightarrow> bool"
    and holds_ready :: "'w \<Rightarrow> uuid \<Rightarrow> sha256_digest \<Rightarrow> bool"
  assumes reach_refl: "reach w w"
    and reach_trans: "reach w w' \<Longrightarrow> reach w' w'' \<Longrightarrow> reach w w''"
    and reach_sound: "reach w w' \<Longrightarrow> sound w \<Longrightarrow> sound w'"
    and create_reach: "reach w (snd (cp_create_dataset cp dataset key w))"
    and register_reach: "reach w (snd (cp_register_version cp ds m key w))"
    and prepare_reach: "reach w (snd (cp_prepare_upload cp v sha key w))"
    and url_reach: "reach w (snd (cp_upload_url cp s w))"
    and complete_reach: "reach w (snd (cp_complete_upload cp s etag w))"
    and finalize_reach: "reach w (snd (cp_finalize cp v w))"
    and ready_stays: "reach w w' \<Longrightarrow> sound w \<Longrightarrow> holds_ready w v sha \<Longrightarrow> holds_ready w' v sha"
    and register_truth: "sound w \<Longrightarrow> cp_register_version cp ds m key w = (Inr r, w') \<Longrightarrow> vsr_state r = V_READY \<Longrightarrow>
          holds_ready w' (vsr_id r) (vsr_manifest_sha r)"
    and finalize_truth: "sound w \<Longrightarrow> cp_finalize cp v w = (Inr r, w') \<Longrightarrow> vsr_state r = V_READY \<Longrightarrow>
          holds_ready w' (vsr_id r) (vsr_manifest_sha r)"
begin

lemma reach_remotely:
  "(\<And>w. reach w (snd (f w))) \<Longrightarrow> reach w0 (fst w) \<Longrightarrow> reach w0 (fst (snd (remotely f w)))"
  by (simp add: remotely_def prod.case_eq_if) (rule reach_trans)

lemma reach_locally: "reach w0 (fst w) \<Longrightarrow> reach w0 (fst (snd (locally f w)))"
  by (simp add: locally_def prod.case_eq_if)

lemmas reach_rules = svc_bind_keeps [where P = "\<lambda>w. reach w0 (fst w)" for w0] reach_locally
  reach_remotely create_reach register_reach prepare_reach url_reach complete_reach finalize_reach

lemma upload_blob_reach: "reach w0 (fst w) \<Longrightarrow> reach w0 (fst (snd (upload_blob cp lp s m f c w)))"
  unfolding upload_blob_def Let_def emit_def
  by (intro reach_rules | simp split del: if_split)+ (auto intro!: reach_rules)

lemma push_blob_reach: "reach w0 (fst w) \<Longrightarrow> reach w0 (fst (snd (push_blob cp lp v m f c w)))"
  unfolding push_blob_def Let_def emit_def
  by (auto intro!: reach_rules upload_blob_reach split: option.split)

lemma push_blobs_reach: "reach w0 (fst w) \<Longrightarrow> reach w0 (fst (snd (push_blobs cp lp v m fs c w)))"
  by (induction fs arbitrary: c w) (auto intro!: reach_rules push_blob_reach)

lemma publish_pushed_reach: "reach w0 (fst w) \<Longrightarrow> reach w0 (fst (snd (publish_pushed cp lp v scanned w)))"
  unfolding publish_pushed_def Let_def emit_def
  by (auto intro!: reach_rules push_blobs_reach)

lemma register_push_reach: "reach w0 (fst w) \<Longrightarrow> reach w0 (fst (snd (register_push cp lp source dataset w)))"
  unfolding register_push_def Let_def emit_def
  by (auto intro!: reach_rules)

lemma push_reach: "reach w0 (fst w) \<Longrightarrow> reach w0 (fst (snd (push_run cp lp source dataset w)))"
  unfolding push_run_def
  by (auto intro!: reach_rules register_push_reach publish_pushed_reach split: prod.split)

text \<open>A push that succeeds leaves the scanned manifest published, in whatever state it leaves behind.\<close>

lemma push_publishes:
  assumes "push_run cp lp source dataset w = (Inr res, w')" "sound (fst w)"
  shows "\<exists>scanned l1 v. lp_scan lp source (snd w) = (Inr scanned, l1)
    \<and> holds_ready (fst w') v (mf_sha256 (scd_manifest scanned))"
  using assms(1)
proof (cases rule: push_run_Inr)
  case (1 scanned version w1)
  from 1(1) show ?thesis
  proof (cases rule: register_push_Inr)
    case (1 l1 key1 ds c1 key2)
    then have "sound c1" using assms(2) create_reach [of "fst w" dataset key1] reach_sound by simp
    then show ?thesis
      using 1 register_truth [OF _ 1(3)] \<open>vsr_state version = V_READY\<close> \<open>w' = w1\<close> by auto
  qed
next
  case (2 scanned version w1)
  obtain l1 where l1: "lp_scan lp source (snd w) = (Inr scanned, l1)"
    using 2(1) by (auto elim: register_push_Inr)
  have "reach (fst w) (fst w1)"
    using register_push_reach [OF reach_refl, where lp = lp and source = source and dataset = dataset and w = w] 2(1)
    by simp
  from 2(2) show ?thesis
  proof (cases rule: publish_pushed_Inr)
    case (1 c w2 ended)
    have "reach (fst w) (fst w2)"
      using push_blobs_reach [OF \<open>reach (fst w) (fst w1)\<close>] 1(1) by (metis snd_conv)
    then have "sound (fst w2)" using reach_sound assms(2) by blast
    then show ?thesis using finalize_truth [OF _ 1(2)] 1 l1 by auto
  qed
qed

end

end
