(* ===== verification/Wire.thy ===== *)
theory Wire
  imports Push
begin

text \<open>
  The documents between client and API: what the response models of \<^verbatim>\<open>apps/api/schemas\<close> hold when the
  routes (\<^verbatim>\<open>apps/api/routes\<close>) fill them, and how \<^verbatim>\<open>robolake/infrastructure/api_client.py\<close> reads them
  back. A document is a JSON value; writing and reading its text is in \<open>Json\<close>. The lemmas show
  which documents are read back as what was sent.
\<close>

section \<open>Python's conversions of a JSON value\<close>

text \<open>
  The client converts whatever it finds with \<^verbatim>\<open>str\<close>, \<^verbatim>\<open>int\<close>, \<^verbatim>\<open>bool\<close> and \<^verbatim>\<open>UUID\<close>. The API sends the right
  types; what the conversions make of floats, of containers and of foreign numerals is left open.
\<close>

record conversions =
  cv_str :: "json \<Rightarrow> ustr"
  cv_int :: "json \<Rightarrow> int res"
  cv_bool :: "json \<Rightarrow> bool"
  cv_hex :: "ustr \<Rightarrow> int option"

definition py_str :: "conversions \<Rightarrow> json \<Rightarrow> ustr" where
  "py_str cv v =
     (case v of
        JStr s \<Rightarrow> s
      | JNull \<Rightarrow> lit ''None''
      | JBool b \<Rightarrow> (if b then lit ''True'' else lit ''False'')
      | JInt n \<Rightarrow> int_str n
      | _ \<Rightarrow> cv_str cv v)"

definition py_int :: "conversions \<Rightarrow> json \<Rightarrow> int res" where
  "py_int cv v =
     (case v of
        JInt n \<Rightarrow> Inr n
      | JBool b \<Rightarrow> Inr (if b then 1 else 0)
      | JNull \<Rightarrow> Inl PyTypeError
      | JArr _ \<Rightarrow> Inl PyTypeError
      | JObj _ \<Rightarrow> Inl PyTypeError
      | _ \<Rightarrow> cv_int cv v)"

definition py_bool :: "conversions \<Rightarrow> json \<Rightarrow> bool" where
  "py_bool cv v =
     (case v of
        JNull \<Rightarrow> False
      | JBool b \<Rightarrow> b
      | JInt n \<Rightarrow> n \<noteq> 0
      | JStr s \<Rightarrow> s \<noteq> []
      | JArr vs \<Rightarrow> vs \<noteq> []
      | JObj ms \<Rightarrow> ms \<noteq> []
      | JNonFinite \<Rightarrow> True
      | JFloat _ _ \<Rightarrow> cv_bool cv v)"

text \<open>\<^verbatim>\<open>text.replace(part, "")\<close> for a part that is not empty.\<close>

function remove_text :: "ustr \<Rightarrow> ustr \<Rightarrow> ustr" where
  "remove_text part [] = []"
| "remove_text part (c # s) =
     (if part \<noteq> [] \<and> starts_with part (c # s) then remove_text part (drop (length part - 1) s)
      else c # remove_text part s)"
  by pat_completeness auto
termination by (relation "measure (\<lambda>(part, s). length s)") auto

definition strip_braces :: "ustr \<Rightarrow> ustr" where
  "strip_braces s =
     (let trim = dropWhile (\<lambda>c. c \<in> {123, 125}) in rev (trim (rev (trim s))))"

text \<open>\<^verbatim>\<open>UUID(text)\<close>.\<close>

definition uuid_of :: "conversions \<Rightarrow> ustr \<Rightarrow> uuid res" where
  "uuid_of cv text =
     (let h = filter (\<lambda>c. c \<noteq> 45)
                (strip_braces (remove_text (lit ''uuid:'') (remove_text (lit ''urn:'') text)))
      in if length h \<noteq> 32 then Inl PyValueError
         else
           case (case hex_decode h of Some bs \<Rightarrow> Some (int (be_val bs)) | None \<Rightarrow> cv_hex cv h) of
             None \<Rightarrow> Inl PyValueError
           | Some n \<Rightarrow> (if 0 \<le> n \<and> n < 2 ^ 128 then Inr (of_int n) else Inl PyValueError))"

lemma remove_text_absent: "c \<notin> set s \<Longrightarrow> remove_text (c # part) s = s"
  by (induction "c # part" s rule: remove_text.induct) (auto simp: starts_with_def)

lemma strip_braces_absent: "123 \<notin> set s \<Longrightarrow> 125 \<notin> set s \<Longrightarrow> strip_braces s = s"
proof -
  assume a: "123 \<notin> set s" "125 \<notin> set s"
  have "dropWhile (\<lambda>c. c \<in> {123, 125}) t = t" if "set t = set s" for t
    using a that by (cases t) auto
  then show ?thesis by (simp add: strip_braces_def)
qed

lemma uuid_str_char: "c \<in> set (uuid_str u) \<Longrightarrow> c = 45 \<or> hex_val c \<noteq> None"
proof -
  assume "c \<in> set (uuid_str u)"
  then have "c = 45 \<or> c \<in> set (filter (\<lambda>c. c \<noteq> 45) (uuid_str u))" by simp
  then show ?thesis using hex_encode_chars [of c "uuid_bytes u"] by (auto simp: uuid_str_hex)
qed

lemma be_val_uuid: "be_val (uuid_bytes u) = unat u"
proof -
  have "uuid_bytes u = be_bytes 16 (unat u)"
  proof (rule nth_equalityI)
    fix i assume "i < length (uuid_bytes u)"
    then have i: "i < 16" by simp
    have "(2 :: nat) ^ (8 * (15 - i)) = 256 ^ (15 - i)" by (simp add: power_mult)
    moreover have "unat (drop_bit (8 * (15 - i)) u) = unat u div 2 ^ (8 * (15 - i))"
      by (simp add: unat_drop_bit_eq flip: drop_bit_eq_div)
    moreover have "ucast (drop_bit (8 * (15 - i)) u) = (of_nat (unat (drop_bit (8 * (15 - i)) u)) :: byte)"
      by (simp del: drop_bit_eq_div)
    ultimately have "ucast (drop_bit (8 * (15 - i)) u) = (of_nat (unat u div 256 ^ (15 - i)) :: byte)"
      by (simp only:)
    then show "uuid_bytes u ! i = be_bytes 16 (unat u) ! i"
      using i by (simp add: uuid_bytes_nth be_bytes_def)
  qed simp
  then have "be_val (uuid_bytes u) = unat u mod 256 ^ 16" by (simp only: be_val_bytes)
  moreover have "unat u < 256 ^ 16" using unsigned_less [of u] by simp
  ultimately show ?thesis by simp
qed

text \<open>\<^verbatim>\<open>UUID(str(u)) == u\<close>.\<close>

lemma uuid_roundtrip [simp]: "uuid_of cv (uuid_str u) = Inr u"
proof -
  have absent: "c \<notin> set (uuid_str u)" if "c \<in> {117, 123, 125}" for c
    using that uuid_str_char [of c u] by (auto simp: hex_val_def)
  then have "strip_braces (remove_text (lit ''uuid:'') (remove_text (lit ''urn:'') (uuid_str u))) = uuid_str u"
    by (simp add: remove_text_absent strip_braces_absent)
  moreover have "int (unat u) < 2 ^ 128" using unsigned_less [of u] by simp
  ultimately show ?thesis
    by (simp add: uuid_of_def uuid_str_hex be_val_uuid)
qed

section \<open>Documents the API sends\<close>

type_synonym document = "(ustr \<times> json) list"

definition version_state_text :: "version_state \<Rightarrow> ustr" where
  "version_state_text s =
     (case s of
        V_DRAFT \<Rightarrow> lit ''DRAFT''
      | V_UPLOADING \<Rightarrow> lit ''UPLOADING''
      | V_VERIFYING \<Rightarrow> lit ''VERIFYING''
      | V_READY \<Rightarrow> lit ''READY''
      | V_FAILED \<Rightarrow> lit ''FAILED'')"

definition failure_code_text :: "failure_code \<Rightarrow> ustr" where
  "failure_code_text c = lit ''STORED_OBJECT_MISMATCH''"

definition next_action_text :: "next_action \<Rightarrow> ustr" where
  "next_action_text a =
     (case a of
        NA_NONE \<Rightarrow> lit ''NONE''
      | NA_RETRY_PUSH \<Rightarrow> lit ''RETRY_PUSH''
      | NA_RETRY_STATUS \<Rightarrow> lit ''RETRY_STATUS''
      | NA_CONTACT_OPERATOR \<Rightarrow> lit ''CONTACT_OPERATOR'')"

definition optional_json :: "('a \<Rightarrow> json) \<Rightarrow> 'a option \<Rightarrow> json" where
  "optional_json f v = (case v of None \<Rightarrow> JNull | Some x \<Rightarrow> f x)"

definition dataset_response :: "dataset_record \<Rightarrow> document" where
  "dataset_response r =
     [(lit ''id'', JStr (uuid_str (dsr_id r))), (lit ''name'', JStr (dn_value (dsr_name r)))]"

definition version_response :: "version_record \<Rightarrow> document" where
  "version_response r =
     [(lit ''id'', JStr (uuid_str (vsr_id r))),
      (lit ''dataset_id'', JStr (uuid_str (vsr_dataset_id r))),
      (lit ''reference'', JStr (reference_str (version_reference r))),
      (lit ''manifest_sha256'', JStr (digest_value (vsr_manifest_sha r))),
      (lit ''state'', JStr (version_state_text (vsr_state r))),
      (lit ''file_count'', JInt (vsr_file_count r)),
      (lit ''logical_bytes'', JInt (vsr_logical_bytes r)),
      (lit ''unique_blob_count'', JInt (vsr_unique_blob_count r)),
      (lit ''unique_blob_bytes'', JInt (vsr_unique_blob_bytes r)),
      (lit ''is_empty'', JBool (version_is_empty r))]"

text \<open>
  \<open>percent n t\<close> is the float \<^verbatim>\<open>n / t * 100\<close>. A snapshot or content of nothing counts as complete
  when the version is READY.
\<close>

definition completion_percent :: "(int \<Rightarrow> int \<Rightarrow> json) \<Rightarrow> version_state \<Rightarrow> int \<Rightarrow> int \<Rightarrow> json" where
  "completion_percent percent state part whole =
     (if whole = 0 then (if state = V_READY then percent 1 1 else JNull) else percent part whole)"

definition status_response :: "(int \<Rightarrow> int \<Rightarrow> json) \<Rightarrow> version_status \<Rightarrow> document" where
  "status_response percent s =
     (let v = vst_version s; sn = vst_snapshot s; ct = vst_content s
      in version_response v @
         [(lit ''snapshot'', JObj
             [(lit ''file_count'', JInt (sns_file_count sn)),
              (lit ''logical_bytes'', JInt (sns_logical_bytes sn)),
              (lit ''ready_file_count'', JInt (sns_ready_file_count sn)),
              (lit ''ready_logical_bytes'', JInt (sns_ready_logical_bytes sn)),
              (lit ''completion_percent'',
                 completion_percent percent (vsr_state v) (sns_ready_file_count sn) (sns_file_count sn))]),
          (lit ''content'', JObj
             [(lit ''unique_blob_count'', JInt (cns_unique_count ct)),
              (lit ''unique_blob_bytes'', JInt (cns_unique_bytes ct)),
              (lit ''available_blob_count'', JInt (cns_available_count ct)),
              (lit ''available_blob_bytes'', JInt (cns_available_bytes ct)),
              (lit ''completion_percent'',
                 completion_percent percent (vsr_state v) (cns_available_count ct) (cns_unique_count ct))]),
          (lit ''failure_code'', optional_json (\<lambda>c. JStr (failure_code_text c)) (vsr_failure_code v)),
          (lit ''failure_detail'', optional_json JStr (vsr_failure_detail v)),
          (lit ''next_action'', JStr (next_action_text (status_next_action s)))])"

definition preparation_response :: "upload_preparation \<Rightarrow> document" where
  "preparation_response p =
     [(lit ''version'', JObj (version_response (prp_version p))),
      (lit ''blob_sha256'', JStr (digest_value (prp_sha p))),
      (lit ''size_bytes'', JInt (prp_size p)),
      (lit ''available'', JBool (prp_available p)),
      (lit ''session_id'', optional_json (\<lambda>s. JStr (uuid_str s)) (prp_session p))]"

definition presigned_response :: "presigned_request \<Rightarrow> document" where
  "presigned_response r =
     [(lit ''url'', JStr (psr_url r)),
      (lit ''headers'', JObj (map (\<lambda>(k, v). (k, JStr v)) (psr_headers r)))]"

definition download_response :: "download_capability \<Rightarrow> document" where
  "download_response c =
     [(lit ''item'', optional_json (\<lambda>i. JObj
         [(lit ''entry'', JObj
             [(lit ''relative_path'', JStr (rp_value (me_path (dit_entry i)))),
              (lit ''size_bytes'', JInt (me_size (dit_entry i))),
              (lit ''sha256'', JStr (digest_value (me_sha (dit_entry i))))]),
          (lit ''request'', JObj (presigned_response (dit_request i)))]) (dcp_item c)),
      (lit ''next_cursor'', optional_json JStr (dcp_next c)),
      (lit ''complete'', JBool (dcp_complete c))]"

text \<open>The error envelope; \<open>describe\<close> is the text of an exception.\<close>

definition error_document :: "(error \<Rightarrow> ustr) \<Rightarrow> error \<Rightarrow> document" where
  "error_document describe e =
     (let r = handle_exception e
      in [(lit ''error'', JObj
            [(lit ''code'', JStr (lit (er_code r))),
             (lit ''message'', JStr (describe e)),
             (lit ''next_action'', optional_json (\<lambda>a. JStr (lit a)) (er_next_action r))])])"

section \<open>How the client reads them\<close>

text \<open>\<^verbatim>\<open>payload[key]\<close>; \<open>field\<close> of \<open>Json\<close> is \<^verbatim>\<open>payload.get(key)\<close>.\<close>

definition item :: "string \<Rightarrow> document \<Rightarrow> json res" where
  "item k d = of_option PyKeyError (map_of d (lit k))"

definition as_mapping :: "json \<Rightarrow> document res" where
  "as_mapping v = (case v of JObj d \<Rightarrow> Inr d | _ \<Rightarrow> Inl PyTypeError)"

text \<open>\<^verbatim>\<open>except (KeyError, TypeError, ValueError)\<close>; the errors of the domain are no \<^verbatim>\<open>ValueError\<close>.\<close>

definition protocol_guard :: "'a res \<Rightarrow> 'a res" where
  "protocol_guard r =
     (case r of
        Inl e \<Rightarrow> Inl (if e \<in> {PyKeyError, PyTypeError, PyValueError, PyJSONDecodeError, PyUnicodeEncodeError}
                      then ApiProtocolError else e)
      | Inr x \<Rightarrow> Inr x)"

definition item_uuid :: "conversions \<Rightarrow> string \<Rightarrow> document \<Rightarrow> uuid res" where
  "item_uuid cv k d = res_bind (item k d) (\<lambda>v. uuid_of cv (py_str cv v))"

definition item_int :: "conversions \<Rightarrow> string \<Rightarrow> document \<Rightarrow> int res" where
  "item_int cv k d = res_bind (item k d) (py_int cv)"

definition item_str :: "conversions \<Rightarrow> string \<Rightarrow> document \<Rightarrow> ustr res" where
  "item_str cv k d = res_bind (item k d) (\<lambda>v. Inr (py_str cv v))"

definition optional_item :: "(json \<Rightarrow> 'a res) \<Rightarrow> json \<Rightarrow> 'a option res" where
  "optional_item f v = (if v = JNull then Inr None else res_bind (f v) (\<lambda>x. Inr (Some x)))"

definition version_state_of :: "ustr \<Rightarrow> version_state res" where
  "version_state_of s =
     of_option PyValueError
       (find (\<lambda>st. version_state_text st = s) [V_DRAFT, V_UPLOADING, V_VERIFYING, V_READY, V_FAILED])"

definition failure_code_of :: "ustr \<Rightarrow> failure_code res" where
  "failure_code_of s =
     of_option PyValueError (find (\<lambda>c. failure_code_text c = s) [FC_STORED_OBJECT_MISMATCH])"

definition read_dataset :: "unicode \<Rightarrow> conversions \<Rightarrow> document \<Rightarrow> dataset_record res" where
  "read_dataset U cv d =
     protocol_guard
       (res_bind (item_uuid cv ''id'' d) (\<lambda>i.
        res_bind (item_str cv ''name'' d) (\<lambda>s.
        res_bind (mk_dataset_name U s) (\<lambda>n. Inr \<lparr>dsr_id = i, dsr_name = n\<rparr>))))"

definition read_version :: "unicode \<Rightarrow> conversions \<Rightarrow> document \<Rightarrow> version_record res" where
  "read_version U cv d =
     protocol_guard
       (res_bind (item_str cv ''reference'' d) (\<lambda>r.
        res_bind (parse_reference U r) (\<lambda>reference.
        res_bind (item_uuid cv ''id'' d) (\<lambda>i.
        res_bind (item_uuid cv ''dataset_id'' d) (\<lambda>ds.
        res_bind (item_str cv ''manifest_sha256'' d) (\<lambda>h.
        res_bind (mk_digest h) (\<lambda>sha.
        res_bind (item_str cv ''state'' d) (\<lambda>s.
        res_bind (version_state_of s) (\<lambda>state.
        res_bind (item_int cv ''file_count'' d) (\<lambda>files.
        res_bind (item_int cv ''logical_bytes'' d) (\<lambda>logical.
        res_bind (item_int cv ''unique_blob_count'' d) (\<lambda>blobs.
        res_bind (item_int cv ''unique_blob_bytes'' d) (\<lambda>nbytes.
        res_bind (optional_item (\<lambda>v. failure_code_of (py_str cv v)) (field ''failure_code'' d)) (\<lambda>code.
        res_bind (optional_item (\<lambda>v. Inr (py_str cv v)) (field ''failure_detail'' d)) (\<lambda>detail.
          Inr \<lparr>vsr_id = i, vsr_dataset_id = ds, vsr_dataset_name = dr_dataset reference,
               vsr_number = dr_version_number reference, vsr_manifest_sha = sha, vsr_state = state,
               vsr_file_count = files, vsr_logical_bytes = logical, vsr_unique_blob_count = blobs,
               vsr_unique_blob_bytes = nbytes, vsr_failure_code = code,
               vsr_failure_detail = detail\<rparr>)))))))))))))))"

definition read_status :: "unicode \<Rightarrow> conversions \<Rightarrow> document \<Rightarrow> version_status res" where
  "read_status U cv d =
     protocol_guard
       (res_bind (read_version U cv d) (\<lambda>version.
        res_bind (res_bind (item ''snapshot'' d) as_mapping) (\<lambda>sn.
        res_bind (res_bind (item ''content'' d) as_mapping) (\<lambda>ct.
        res_bind (item_int cv ''file_count'' sn) (\<lambda>a.
        res_bind (item_int cv ''logical_bytes'' sn) (\<lambda>b.
        res_bind (item_int cv ''ready_file_count'' sn) (\<lambda>ra.
        res_bind (item_int cv ''ready_logical_bytes'' sn) (\<lambda>rb.
        res_bind (mk_snapshot_status a b ra rb) (\<lambda>snapshot.
        res_bind (item_int cv ''unique_blob_count'' ct) (\<lambda>u.
        res_bind (item_int cv ''unique_blob_bytes'' ct) (\<lambda>ub.
        res_bind (item_int cv ''available_blob_count'' ct) (\<lambda>av.
        res_bind (item_int cv ''available_blob_bytes'' ct) (\<lambda>avb.
        res_bind (mk_content_status u ub av avb) (\<lambda>content.
        res_bind (optional_item (\<lambda>v. failure_code_of (py_str cv v)) (field ''failure_code'' d)) (\<lambda>blocking.
          Inr \<lparr>vst_version = version, vst_snapshot = snapshot, vst_content = content,
               vst_blocking = blocking\<rparr>)))))))))))))))"

definition read_preparation :: "unicode \<Rightarrow> conversions \<Rightarrow> document \<Rightarrow> upload_preparation res" where
  "read_preparation U cv d =
     protocol_guard
       (res_bind (res_bind (item ''version'' d) as_mapping) (\<lambda>vd.
        res_bind (read_version U cv vd) (\<lambda>version.
        res_bind (item_str cv ''blob_sha256'' d) (\<lambda>h.
        res_bind (mk_digest h) (\<lambda>sha.
        res_bind (item_int cv ''size_bytes'' d) (\<lambda>n.
        res_bind (item ''available'' d) (\<lambda>available.
        res_bind (optional_item (\<lambda>v. uuid_of cv (py_str cv v)) (field ''session_id'' d)) (\<lambda>session.
          Inr \<lparr>prp_version = version, prp_sha = sha, prp_size = n,
               prp_available = py_bool cv available, prp_session = session\<rparr>))))))))"

definition header_text :: "ustr \<times> json \<Rightarrow> (ustr \<times> ustr) res" where
  "header_text kv = (case snd kv of JStr s \<Rightarrow> Inr (fst kv, s) | _ \<Rightarrow> Inl PyTypeError)"

definition read_presigned :: "conversions \<Rightarrow> document \<Rightarrow> presigned_request res" where
  "read_presigned cv d =
     protocol_guard
       (res_bind (res_bind (item ''headers'' d) as_mapping) (\<lambda>hs.
        res_bind (res_map header_text hs) (\<lambda>headers.
        res_bind (item_str cv ''url'' d) (\<lambda>url. Inr \<lparr>psr_url = url, psr_headers = headers\<rparr>))))"

definition read_item :: "unicode \<Rightarrow> conversions \<Rightarrow> json \<Rightarrow> download_item res" where
  "read_item U cv v =
     res_bind (as_mapping v) (\<lambda>d.
     res_bind (res_bind (item ''entry'' d) as_mapping) (\<lambda>ed.
     res_bind (item_str cv ''relative_path'' ed) (\<lambda>p.
     res_bind (mk_relative_path U p) (\<lambda>path.
     res_bind (item_int cv ''size_bytes'' ed) (\<lambda>n.
     res_bind (item_str cv ''sha256'' ed) (\<lambda>h.
     res_bind (mk_digest h) (\<lambda>sha.
     res_bind (mk_manifest_entry path n sha) (\<lambda>entry.
     res_bind (res_bind (item ''request'' d) as_mapping) (\<lambda>rd.
     res_bind (read_presigned cv rd) (\<lambda>request.
       Inr \<lparr>dit_entry = entry, dit_request = request\<rparr>))))))))))"

definition read_capability :: "unicode \<Rightarrow> conversions \<Rightarrow> document \<Rightarrow> download_capability res" where
  "read_capability U cv d =
     protocol_guard
       (res_bind (optional_item (read_item U cv) (field ''item'' d)) (\<lambda>i.
        res_bind (optional_item (\<lambda>v. Inr (py_str cv v)) (field ''next_cursor'' d)) (\<lambda>c.
        res_bind (item ''complete'' d) (\<lambda>complete.
          Inr \<lparr>dcp_item = i, dcp_next = c, dcp_complete = py_bool cv complete\<rparr>))))"

text \<open>\<^verbatim>\<open>_raise_api_error\<close>: the exception an error response makes the client raise.\<close>

definition read_error :: "conversions \<Rightarrow> json res \<Rightarrow> error" where
  "read_error cv payload =
     (case protocol_guard
             (res_bind payload (\<lambda>v.
              res_bind (as_mapping v) (\<lambda>d.
              res_bind (res_bind (item ''error'' d) as_mapping) (\<lambda>detail.
              res_bind (item_str cv ''code'' detail) (\<lambda>code.
                case field ''message'' detail of JStr _ \<Rightarrow> Inr code | _ \<Rightarrow> Inl PyTypeError))))) of
        Inl e \<Rightarrow> e
      | Inr code \<Rightarrow>
          (case find (\<lambda>(k, _). lit k = code) client_error_table of
             None \<Rightarrow> ApiProtocolError
           | Some (_, e) \<Rightarrow> e))"

section \<open>What is read back\<close>

lemma lit_inj [simp]: "lit s = lit t \<longleftrightarrow> s = t"
  by (auto simp: lit_def inj_map_eq_map [OF inj_of_char])

lemma item_Cons: "item k ((lit k', v) # d) = (if k' = k then Inr v else item k d)"
  by (simp add: item_def)

lemma field_Cons: "field k ((lit k', v) # d) = (if k' = k then v else field k d)"
  by (simp add: field_def)

lemma protocol_guard_Inr [simp]: "protocol_guard (Inr x) = Inr x"
  by (simp add: protocol_guard_def)

lemma protocol_guard_iff: "protocol_guard r = Inr x \<longleftrightarrow> r = Inr x"
  by (auto simp: protocol_guard_def split: sum.split)

lemma as_mapping_Inr: "as_mapping v = Inr d \<longleftrightarrow> v = JObj d"
  by (cases v) (auto simp: as_mapping_def)

lemma version_state_roundtrip [simp]: "version_state_of (version_state_text s) = Inr s"
  by (cases s) (simp_all add: version_state_of_def version_state_text_def)

lemma failure_code_roundtrip [simp]: "failure_code_of (failure_code_text c) = Inr c"
  by (cases c) (simp add: failure_code_of_def)

text \<open>What the version document shows of a version: everything but its failure.\<close>

definition shown :: "version_record \<Rightarrow> version_record" where
  "shown r = r\<lparr>vsr_failure_code := None, vsr_failure_detail := None\<rparr>"

definition wf_version :: "unicode \<Rightarrow> version_record \<Rightarrow> bool" where
  "wf_version U r =
     (wf_name U (vsr_dataset_name r) \<and> 1 \<le> vsr_number r \<and> length (nat_str (nat (vsr_number r))) \<le> 4300
      \<and> wf_digest (vsr_manifest_sha r))"

lemmas item_simps = item_Cons field_Cons item_uuid_def item_int_def item_str_def py_str_def py_int_def
  py_bool_def as_mapping_def optional_item_def optional_json_def field_def item_def

lemma read_version_response:
  assumes "unicode_laws U" "wf_version U r"
  shows "read_version U cv (version_response r) = Inr (shown r)"
proof -
  have "parse_reference U (reference_str (version_reference r)) = Inr (version_reference r)"
    using assms by (intro reference_roundtrip) (simp_all add: wf_version_def version_reference_def)
  then show ?thesis
    using assms(2)
    by (simp add: read_version_def version_response_def item_simps mk_digest_wf wf_version_def
        version_reference_def shown_def)
qed

section \<open>Round trips of the documents\<close>

lemma read_dataset_response: "wf_name U (dsr_name r) \<Longrightarrow> read_dataset U cv (dataset_response r) = Inr r"
  by (simp add: read_dataset_def dataset_response_def item_simps wf_name_def)

definition wf_preparation :: "unicode \<Rightarrow> upload_preparation \<Rightarrow> bool" where
  "wf_preparation U p = (wf_version U (prp_version p) \<and> wf_digest (prp_sha p))"

lemma read_preparation_response:
  assumes "unicode_laws U" "wf_preparation U p"
  shows "read_preparation U cv (preparation_response p) = Inr (p\<lparr>prp_version := shown (prp_version p)\<rparr>)"
  using assms
  by (cases "prp_session p")
     (simp_all add: read_preparation_def preparation_response_def item_simps wf_preparation_def
        read_version_response mk_digest_wf)

lemma header_texts: "res_map header_text (map (\<lambda>(k, v). (k, JStr v)) hs) = Inr hs"
  by (induction hs) (auto simp: header_text_def)

lemma read_presigned_response: "read_presigned cv (presigned_response r) = Inr r"
  by (simp add: read_presigned_def presigned_response_def item_simps header_texts)

definition wf_item :: "unicode \<Rightarrow> download_item \<Rightarrow> bool" where
  "wf_item U i =
     (let e = dit_entry i in wf_path U (me_path e) \<and> 0 \<le> me_size e \<and> wf_digest (me_sha e))"

lemma read_capability_response:
  assumes "\<And>i. dcp_item c = Some i \<Longrightarrow> wf_item U i"
  shows "read_capability U cv (download_response c) = Inr c"
proof (cases "dcp_item c")
  case None
  then show ?thesis
    by (cases "dcp_next c") (simp_all add: read_capability_def download_response_def item_simps)
next
  case (Some i)
  then have "wf_item U i" by (rule assms)
  then have "read_item U cv (JObj
         [(lit ''entry'', JObj
             [(lit ''relative_path'', JStr (rp_value (me_path (dit_entry i)))),
              (lit ''size_bytes'', JInt (me_size (dit_entry i))),
              (lit ''sha256'', JStr (digest_value (me_sha (dit_entry i))))]),
          (lit ''request'', JObj (presigned_response (dit_request i)))]) = Inr i"
    by (simp add: read_item_def item_simps wf_item_def Let_def wf_path_def mk_digest_wf mk_manifest_entry_def
        read_presigned_response)
  then show ?thesis
    using Some by (cases "dcp_next c") (simp_all add: read_capability_def download_response_def item_simps)
qed

text \<open>
  The status document names the failure of the version, but not the content that blocks it: the
  client takes the one for the other.
\<close>

lemma read_status_response:
  assumes "unicode_laws U" "wf_version U (vst_version s)"
    and "mk_snapshot_status (sns_file_count (vst_snapshot s)) (sns_logical_bytes (vst_snapshot s))
           (sns_ready_file_count (vst_snapshot s)) (sns_ready_logical_bytes (vst_snapshot s)) = Inr (vst_snapshot s)"
    and "mk_content_status (cns_unique_count (vst_content s)) (cns_unique_bytes (vst_content s))
           (cns_available_count (vst_content s)) (cns_available_bytes (vst_content s)) = Inr (vst_content s)"
  shows "read_status U cv (status_response percent s) = Inr (s\<lparr>vst_blocking := vsr_failure_code (vst_version s)\<rparr>)"
proof -
  let ?v = "vst_version s"
  have r: "parse_reference U (reference_str (version_reference ?v)) = Inr (version_reference ?v)"
    using assms(1,2) by (intro reference_roundtrip) (simp_all add: wf_version_def version_reference_def)
  have v: "read_version U cv (status_response percent s) = Inr ?v"
    using r assms(2)
    by (cases "vsr_failure_code ?v"; cases "vsr_failure_detail ?v")
       (simp_all add: read_version_def status_response_def version_response_def Let_def item_simps mk_digest_wf
          wf_version_def version_reference_def)
  show ?thesis
    using v assms(3,4)
    by (cases "vsr_failure_code ?v")
       (simp_all add: read_status_def status_response_def version_response_def Let_def item_simps)
qed

text \<open>The client raises for an error document exactly what the table of \<open>Errors\<close> says.\<close>

lemma read_error_document:
  "read_error cv (Inr (JObj (error_document describe e))) = raise_api_error (handle_exception e)"
proof -
  have "(case find (\<lambda>(k, _). lit k = lit c) t of None \<Rightarrow> ApiProtocolError | Some (_, x) \<Rightarrow> x)
      = (case map_of t c of None \<Rightarrow> ApiProtocolError | Some x \<Rightarrow> x)" for c :: string and t
    by (induction t) auto
  then show ?thesis
    by (simp add: read_error_def error_document_def raise_api_error_def Let_def item_simps)
qed

text \<open>The text of a document, as written and as read.\<close>

definition fits_version :: "version_record \<Rightarrow> bool" where
  "fits_version r =
     (int_fits (vsr_file_count r) \<and> int_fits (vsr_logical_bytes r) \<and> int_fits (vsr_unique_blob_count r)
      \<and> int_fits (vsr_unique_blob_bytes r))"

lemma writable_version: "fits_version r \<Longrightarrow> writable (JObj (version_response r))"
  by (simp add: version_response_def fits_version_def)

lemma writable_preparation:
  "fits_version (prp_version p) \<Longrightarrow> int_fits (prp_size p) \<Longrightarrow> writable (JObj (preparation_response p))"
  using writable_version [of "prp_version p"]
  by (simp add: preparation_response_def optional_json_def split: option.split)

definition fits_item :: "download_item \<Rightarrow> bool" where
  "fits_item i = (int_fits (me_size (dit_entry i)) \<and> distinct (map fst (psr_headers (dit_request i))))"

lemma writable_presigned:
  "distinct (map fst (psr_headers r)) \<Longrightarrow> writable (JObj (presigned_response r))"
  by (auto simp: presigned_response_def comp_def case_prod_beta)

lemma writable_download:
  assumes "\<And>i. dcp_item c = Some i \<Longrightarrow> fits_item i"
  shows "writable (JObj (download_response c))"
  using assms writable_presigned
  by (auto simp: download_response_def optional_json_def fits_item_def split: option.split)

text \<open>
  C36: What the API sends is what the client gets: for validated values, the texts of an upload
  preparation and of a download capability parse as the documents that were written, and the
  client reads from them the same preparation, up to the failure of its version, and the same
  capability.
\<close>

theorem client_reads_what_api_sends:
  assumes "unicode_laws U" "wf_preparation U p" "fits_version (prp_version p)" "int_fits (prp_size p)"
    and "\<And>i. dcp_item c = Some i \<Longrightarrow> wf_item U i \<and> fits_item i"
  shows "loads plain_hook (dumps (JObj (preparation_response p))) = Inr (JObj (preparation_response p))
    \<and> read_preparation U cv (preparation_response p) = Inr (p\<lparr>prp_version := shown (prp_version p)\<rparr>)
    \<and> loads plain_hook (dumps (JObj (download_response c))) = Inr (JObj (download_response c))
    \<and> read_capability U cv (download_response c) = Inr c"
proof (intro conjI)
  show "loads plain_hook (dumps (JObj (preparation_response p))) = Inr (JObj (preparation_response p))"
    using assms(3,4) by (intro loads_dumps writable_preparation) simp_all
  show "loads plain_hook (dumps (JObj (download_response c))) = Inr (JObj (download_response c))"
    using assms(5) by (intro loads_dumps writable_download) simp_all
  show "read_preparation U cv (preparation_response p) = Inr (p\<lparr>prp_version := shown (prp_version p)\<rparr>)"
    using assms(1,2) by (rule read_preparation_response)
  show "read_capability U cv (download_response c) = Inr c"
    using assms(5) by (intro read_capability_response) simp
qed

definition strict_conversions :: conversions where
  "strict_conversions =
     \<lparr>cv_str = (\<lambda>_. []), cv_int = (\<lambda>_. Inl PyValueError), cv_bool = (\<lambda>_. True), cv_hex = (\<lambda>_. None)\<rparr>"

theorem client_reads_what_api_sends_witness:
  "read_preparation ascii_unicode strict_conversions (preparation_response (small_preparation True))
      = Inr (small_preparation True)
   \<and> read_capability ascii_unicode strict_conversions (download_response
        \<lparr>dcp_item = Some \<lparr>dit_entry = empty_file, dit_request = \<lparr>psr_url = lit ''u'', psr_headers = [(lit ''h'', lit ''v'')]\<rparr>\<rparr>,
         dcp_next = None, dcp_complete = True\<rparr>)
      = Inr \<lparr>dcp_item = Some \<lparr>dit_entry = empty_file, dit_request = \<lparr>psr_url = lit ''u'', psr_headers = [(lit ''h'', lit ''v'')]\<rparr>\<rparr>,
         dcp_next = None, dcp_complete = True\<rparr>"
proof -
  let ?c = "\<lparr>dcp_item = Some \<lparr>dit_entry = empty_file, dit_request = \<lparr>psr_url = lit ''u'', psr_headers = [(lit ''h'', lit ''v'')]\<rparr>\<rparr>,
         dcp_next = None, dcp_complete = True\<rparr>"
  have fits: "int_fits 0" "int_fits 1" by (simp_all add: int_fits_def nat_str.simps max_int_digits_def)
  have sha: "wf_digest (me_sha empty_file)" by (simp add: empty_file_def)
  have "wf_version ascii_unicode small_record"
    by (simp add: wf_version_def small_record_def small_manifest_def Let_def wf_name_def mk_dataset_name_def
        ascii_unicode_def utf8_encode_def utf8_char_def limit_defs starts_with_def ends_with_def bad_segment_def
        dot_segments_def bad_char_def is_Cc_def is_Cs_def nat_str.simps)
  then have p: "wf_preparation ascii_unicode (small_preparation True)"
    using sha by (simp add: wf_preparation_def small_preparation_def)
  have "fits_version (prp_version (small_preparation True))" "int_fits (prp_size (small_preparation True))"
    using fits by (simp_all add: fits_version_def small_preparation_def small_record_def empty_file_def)
  moreover have "wf_item ascii_unicode i \<and> fits_item i" if "dcp_item ?c = Some i" for i
    using that empty_file_wf sha fits by (auto simp: wf_item_def fits_item_def wf_entry_def empty_file_def Let_def)
  ultimately show ?thesis
    using client_reads_what_api_sends [OF ascii_unicode_laws p, of ?c strict_conversions]
    by (simp add: shown_def small_preparation_def small_record_def)
qed

end
