(* ===== verification/Api.thy ===== *)
theory Api
  imports Wire
begin

text \<open>
  The API between the services and their client: the routes of \<^verbatim>\<open>apps/api/routes\<close> with the field
  constraints of their request models, the error responses of \<^verbatim>\<open>apps/api/errors.py\<close>, an unreliable
  network, and \<^verbatim>\<open>RoboLakeApiClient\<close> of \<^verbatim>\<open>robolake/infrastructure/api_client.py\<close>, whose operations form a
  control plane for the workflows.
\<close>

section \<open>Requests\<close>

text \<open>
  A request as a route gets it: the framework has matched the path and decoded its UUIDs, the
  query, the \<^verbatim>\<open>Idempotency-Key\<close> header and the JSON body, and checked their types.
\<close>

datatype api_request =
    CreateDataset ustr ustr
  | RegisterVersion uuid int "(ustr \<times> int \<times> ustr) list" ustr
  | ResolveVersion ustr int
  | VersionStatus uuid
  | VersionManifest uuid
  | PrepareUpload uuid ustr ustr
  | IssueUploadUrl uuid
  | UploadStatus uuid
  | CompleteUpload uuid "ustr option"
  | FinalizeVersion uuid
  | DownloadPlan uuid "ustr option"

definition text_within :: "nat \<Rightarrow> nat \<Rightarrow> ustr \<Rightarrow> bool" where
  "text_within low high s = (low \<le> length s \<and> length s \<le> high)"

definition valid_key :: "ustr \<Rightarrow> bool" where
  "valid_key key = text_within 1 255 key"

definition valid_entry :: "ustr \<times> int \<times> ustr \<Rightarrow> bool" where
  "valid_entry x = (case x of (p, n, s) \<Rightarrow> text_within 1 1024 p \<and> 0 \<le> n \<and> text_within 64 64 s)"

text \<open>
  The constraints declared on the fields; a request that breaks one never reaches its route.
\<close>

definition valid_dataset_create :: "ustr \<Rightarrow> bool" where
  "valid_dataset_create name = text_within 1 255 name"

definition valid_manifest_register :: "int \<Rightarrow> (ustr \<times> int \<times> ustr) list \<Rightarrow> bool" where
  "valid_manifest_register schema entries =
     (schema = 1 \<and> length entries \<le> 100000 \<and> list_all valid_entry entries)"

definition valid_resolve :: "ustr \<Rightarrow> int \<Rightarrow> bool" where
  "valid_resolve dataset version = (text_within 1 255 dataset \<and> 1 \<le> version)"

definition valid_upload_prepare :: "ustr \<Rightarrow> bool" where
  "valid_upload_prepare sha = text_within 64 64 sha"

definition valid_complete_upload :: "ustr option \<Rightarrow> bool" where
  "valid_complete_upload etag = (case etag of None \<Rightarrow> True | Some t \<Rightarrow> text_within 0 1024 t)"

definition valid_download_plan :: "ustr option \<Rightarrow> bool" where
  "valid_download_plan cursor = (case cursor of None \<Rightarrow> True | Some c \<Rightarrow> text_within 0 128 c)"

fun valid_request :: "api_request \<Rightarrow> bool" where
  "valid_request (CreateDataset name key) = (valid_dataset_create name \<and> valid_key key)"
| "valid_request (RegisterVersion _ schema entries key) = (valid_manifest_register schema entries \<and> valid_key key)"
| "valid_request (ResolveVersion dataset version) = valid_resolve dataset version"
| "valid_request (PrepareUpload _ sha key) = (valid_upload_prepare sha \<and> valid_key key)"
| "valid_request (CompleteUpload _ etag) = valid_complete_upload etag"
| "valid_request (DownloadPlan _ cursor) = valid_download_plan cursor"
| "valid_request _ = True"

lemmas valid_defs = valid_dataset_create_def valid_manifest_register_def valid_resolve_def
  valid_upload_prepare_def valid_complete_upload_def valid_download_plan_def valid_key_def text_within_def

section \<open>Routes\<close>

text \<open>
  The service behind the API: its Unicode tables, the environment of the \<open>i\<close>-th store call and the
  object storage of the \<open>k\<close>-th request, its settings, and the texts of exceptions and percentages.
\<close>

record api =
  api_unicode :: unicode
  api_env :: "nat \<Rightarrow> nat \<Rightarrow> env"
  api_objects :: "nat \<Rightarrow> objects"
  api_ttl :: int
  api_chunk :: int
  api_describe :: "error \<Rightarrow> ustr"
  api_percent :: "int \<Rightarrow> int \<Rightarrow> json"

datatype body = JsonBody document | RawBody bytes

record http_response =
  hs_status :: int
  hs_body :: body

definition json_response :: "int \<Rightarrow> document \<Rightarrow> http_response" where
  "json_response status d = \<lparr>hs_status = status, hs_body = JsonBody d\<rparr>"

definition replying :: "int \<Rightarrow> ('a \<Rightarrow> document) \<Rightarrow> 'a svc \<Rightarrow> http_response svc" where
  "replying status render call = svc_bind call (\<lambda>x. answer (Inr (json_response status (render x))))"

text \<open>Each route calls one service method; an invalid value raises before the call.\<close>

definition checked :: "'a res \<Rightarrow> ('a \<Rightarrow> 'b svc) \<Rightarrow> 'b svc" where
  "checked r f = svc_bind (answer r) f"

definition post_dataset :: "api \<Rightarrow> nat \<Rightarrow> ustr \<Rightarrow> ustr \<Rightarrow> http_response svc" where
  "post_dataset A k name key =
     checked (mk_dataset_name (api_unicode A) name) (\<lambda>n.
       replying 201 dataset_response (svc_create_dataset (api_unicode A) (api_env A k) n key))"

definition post_version :: "api \<Rightarrow> nat \<Rightarrow> uuid \<Rightarrow> (ustr \<times> int \<times> ustr) list \<Rightarrow> ustr \<Rightarrow> http_response svc" where
  "post_version A k ds entries key =
     checked (res_bind (res_map (parse_entry (api_unicode A)) entries) (build (api_unicode A))) (\<lambda>m.
       replying 201 version_response (svc_register_version (api_unicode A) (api_env A k) ds m key))"

definition get_resolved_version :: "api \<Rightarrow> ustr \<Rightarrow> int \<Rightarrow> http_response svc" where
  "get_resolved_version A dataset version =
     checked (mk_dataset_name (api_unicode A) dataset) (\<lambda>n.
       replying 200 version_response
         (consult (resolve_version (api_unicode A) \<lparr>dr_dataset = n, dr_version_number = version\<rparr>)))"

definition get_version_status :: "api \<Rightarrow> uuid \<Rightarrow> http_response svc" where
  "get_version_status A v =
     replying 200 (status_response (api_percent A)) (consult (get_status (api_unicode A) v))"

definition get_version_manifest :: "api \<Rightarrow> uuid \<Rightarrow> http_response svc" where
  "get_version_manifest A v =
     svc_bind (consult (svc_manifest (api_unicode A) v))
       (\<lambda>m. answer (Inr \<lparr>hs_status = 200, hs_body = RawBody (mf_canonical m)\<rparr>))"

definition post_upload_session :: "api \<Rightarrow> nat \<Rightarrow> uuid \<Rightarrow> ustr \<Rightarrow> ustr \<Rightarrow> http_response svc" where
  "post_upload_session A k v sha key =
     checked (mk_digest sha) (\<lambda>digest.
       replying 200 preparation_response
         (svc_prepare_upload (api_unicode A) (api_env A k) (api_objects A k) (api_chunk A) v digest key))"

definition post_upload_url :: "api \<Rightarrow> nat \<Rightarrow> uuid \<Rightarrow> http_response svc" where
  "post_upload_url A k s =
     replying 200 presigned_response
       (issue_upload_url (api_unicode A) (api_env A k) (api_objects A k) (api_ttl A) s)"

definition get_upload_session :: "api \<Rightarrow> uuid \<Rightarrow> http_response svc" where
  "get_upload_session A s = replying 200 preparation_response (upload_status (api_unicode A) s)"

definition post_complete :: "api \<Rightarrow> nat \<Rightarrow> uuid \<Rightarrow> ustr option \<Rightarrow> http_response svc" where
  "post_complete A k s etag =
     replying 200 preparation_response
       (complete_upload (api_unicode A) (api_env A k) (api_objects A k) (api_chunk A) s etag)"

definition post_finalize :: "api \<Rightarrow> nat \<Rightarrow> uuid \<Rightarrow> http_response svc" where
  "post_finalize A k v = replying 200 version_response (svc_finalize (api_unicode A) (api_env A k) v)"

definition post_download_plan :: "api \<Rightarrow> nat \<Rightarrow> uuid \<Rightarrow> ustr option \<Rightarrow> http_response svc" where
  "post_download_plan A k v cursor =
     replying 200 download_response
       (consult (download_plan (api_unicode A) (api_objects A k) (api_ttl A) v cursor))"

lemmas route_defs = post_dataset_def post_version_def get_resolved_version_def get_version_status_def
  get_version_manifest_def post_upload_session_def post_upload_url_def get_upload_session_def
  post_complete_def post_finalize_def post_download_plan_def

fun route :: "api \<Rightarrow> nat \<Rightarrow> api_request \<Rightarrow> http_response svc" where
  "route A k (CreateDataset name key) = post_dataset A k name key"
| "route A k (RegisterVersion ds schema entries key) = post_version A k ds entries key"
| "route A k (ResolveVersion dataset version) = get_resolved_version A dataset version"
| "route A k (VersionStatus v) = get_version_status A v"
| "route A k (VersionManifest v) = get_version_manifest A v"
| "route A k (PrepareUpload v sha key) = post_upload_session A k v sha key"
| "route A k (IssueUploadUrl s) = post_upload_url A k s"
| "route A k (UploadStatus s) = get_upload_session A s"
| "route A k (CompleteUpload s etag) = post_complete A k s etag"
| "route A k (FinalizeVersion v) = post_finalize A k v"
| "route A k (DownloadPlan v cursor) = post_download_plan A k v cursor"

definition invalid_response :: http_response where
  "invalid_response =
     json_response 422
       [(lit ''error'', JObj
          [(lit ''code'', JStr (lit ''INVALID_REQUEST'')),
           (lit ''message'', JStr (lit ''Request fields are invalid.'')), (lit ''next_action'', JNull)])]"

text \<open>The application: validation, the route, and the exception handlers.\<close>

definition serve :: "api \<Rightarrow> nat \<Rightarrow> api_request \<Rightarrow> db \<Rightarrow> http_response \<times> db" where
  "serve A k q d =
     (if \<not> valid_request q then (invalid_response, d)
      else
        case route A k q d of
          (Inr r, d') \<Rightarrow> (r, d')
        | (Inl e, d') \<Rightarrow>
            (json_response (er_status (handle_exception e)) (error_document (api_describe A) e), d'))"

section \<open>The client\<close>

text \<open>
  The network delivers the request and its response, or fails (\<^verbatim>\<open>httpx.RequestError\<close>) before the
  request arrives or after it was served.
\<close>

datatype delivery = Delivered | RequestLost | ResponseLost

record api_client =
  cl_unicode :: unicode
  cl_conv :: conversions
  cl_delivery :: "nat \<Rightarrow> delivery"

record api_world =
  aw_db :: db
  aw_calls :: nat

type_synonym 'a api_call = "(api_world, 'a) act"

text \<open>\<^verbatim>\<open>response.json()\<close> and \<^verbatim>\<open>response.content\<close>.\<close>

definition body_json :: "body \<Rightarrow> json res" where
  "body_json b =
     (case b of
        JsonBody d \<Rightarrow> Inr (JObj d)
      | RawBody bs \<Rightarrow>
          (case utf8_decode bs of None \<Rightarrow> Inl PyUnicodeEncodeError | Some s \<Rightarrow> loads plain_hook s))"

definition body_content :: "body \<Rightarrow> bytes" where
  "body_content b =
     (case b of
        RawBody bs \<Rightarrow> bs
      | JsonBody d \<Rightarrow> (case utf8_encode (dumps (JObj d)) of Some bs \<Rightarrow> bs | None \<Rightarrow> []))"

definition exchange :: "api \<Rightarrow> api_client \<Rightarrow> api_request \<Rightarrow> http_response api_call" where
  "exchange A C q w =
     (let k = aw_calls w; w' = w\<lparr>aw_calls := k + 1\<rparr>
      in case cl_delivery C k of
           RequestLost \<Rightarrow> (Inl ApiUnavailableError, w')
         | ResponseLost \<Rightarrow> (Inl ApiUnavailableError, w'\<lparr>aw_db := snd (serve A k q (aw_db w))\<rparr>)
         | Delivered \<Rightarrow>
             (case serve A k q (aw_db w) of (r, d) \<Rightarrow> (Inr r, w'\<lparr>aw_db := d\<rparr>)))"

text \<open>\<^verbatim>\<open>_request\<close> and \<^verbatim>\<open>_payload\<close>.\<close>

definition client_request :: "api \<Rightarrow> api_client \<Rightarrow> api_request \<Rightarrow> body api_call" where
  "client_request A C q =
     svc_bind (exchange A C q) (\<lambda>r.
       if 200 \<le> hs_status r \<and> hs_status r \<le> 299 then answer (Inr (hs_body r))
       else answer (Inl (read_error (cl_conv C) (body_json (hs_body r)))))"

definition client_payload :: "api \<Rightarrow> api_client \<Rightarrow> api_request \<Rightarrow> document api_call" where
  "client_payload A C q =
     svc_bind (client_request A C q) (\<lambda>b. answer (protocol_guard (res_bind (body_json b) as_mapping)))"

definition reading :: "(document \<Rightarrow> 'a res) \<Rightarrow> document api_call \<Rightarrow> 'a api_call" where
  "reading f call = svc_bind call (\<lambda>d. answer (f d))"

definition entry_request :: "manifest_entry \<Rightarrow> ustr \<times> int \<times> ustr" where
  "entry_request e = (rp_value (me_path e), me_size e, digest_value (me_sha e))"

definition client_create_dataset :: "api \<Rightarrow> api_client \<Rightarrow> dataset_name \<Rightarrow> ustr \<Rightarrow> dataset_record api_call" where
  "client_create_dataset A C name key =
     reading (read_dataset (cl_unicode C) (cl_conv C)) (client_payload A C (CreateDataset (dn_value name) key))"

definition client_register_version :: "api \<Rightarrow> api_client \<Rightarrow> uuid \<Rightarrow> manifest \<Rightarrow> ustr \<Rightarrow> version_record api_call" where
  "client_register_version A C ds m key =
     reading (read_version (cl_unicode C) (cl_conv C))
       (client_payload A C (RegisterVersion ds (mf_schema_version m) (map entry_request (mf_entries m)) key))"

definition client_resolve :: "api \<Rightarrow> api_client \<Rightarrow> dataset_reference \<Rightarrow> version_record api_call" where
  "client_resolve A C ref =
     reading (read_version (cl_unicode C) (cl_conv C))
       (client_payload A C (ResolveVersion (dn_value (dr_dataset ref)) (dr_version_number ref)))"

definition client_status :: "api \<Rightarrow> api_client \<Rightarrow> uuid \<Rightarrow> version_status api_call" where
  "client_status A C v =
     reading (read_status (cl_unicode C) (cl_conv C)) (client_payload A C (VersionStatus v))"

definition client_manifest :: "api \<Rightarrow> api_client \<Rightarrow> uuid \<Rightarrow> manifest api_call" where
  "client_manifest A C v =
     svc_bind (client_request A C (VersionManifest v))
       (\<lambda>b. answer (from_canonical_bytes (cl_unicode C) (body_content b)))"

definition client_prepare_upload ::
    "api \<Rightarrow> api_client \<Rightarrow> uuid \<Rightarrow> sha256_digest \<Rightarrow> ustr \<Rightarrow> upload_preparation api_call" where
  "client_prepare_upload A C v digest key =
     reading (read_preparation (cl_unicode C) (cl_conv C))
       (client_payload A C (PrepareUpload v (digest_value digest) key))"

definition client_upload_url :: "api \<Rightarrow> api_client \<Rightarrow> uuid \<Rightarrow> presigned_request api_call" where
  "client_upload_url A C s = reading (read_presigned (cl_conv C)) (client_payload A C (IssueUploadUrl s))"

definition client_complete_upload ::
    "api \<Rightarrow> api_client \<Rightarrow> uuid \<Rightarrow> ustr option \<Rightarrow> upload_preparation api_call" where
  "client_complete_upload A C s etag =
     reading (read_preparation (cl_unicode C) (cl_conv C)) (client_payload A C (CompleteUpload s etag))"

definition client_finalize :: "api \<Rightarrow> api_client \<Rightarrow> uuid \<Rightarrow> version_record api_call" where
  "client_finalize A C v =
     reading (read_version (cl_unicode C) (cl_conv C)) (client_payload A C (FinalizeVersion v))"

definition client_download_plan ::
    "api \<Rightarrow> api_client \<Rightarrow> uuid \<Rightarrow> ustr option \<Rightarrow> download_capability api_call" where
  "client_download_plan A C v cursor =
     reading (read_capability (cl_unicode C) (cl_conv C)) (client_payload A C (DownloadPlan v cursor))"

lemmas client_call_defs = client_create_dataset_def client_register_version_def client_resolve_def
  client_status_def client_prepare_upload_def client_upload_url_def client_complete_upload_def
  client_finalize_def client_download_plan_def

definition service_plane :: "api \<Rightarrow> api_client \<Rightarrow> api_world control_plane" where
  "service_plane A C =
     \<lparr>cp_create_dataset = client_create_dataset A C, cp_register_version = client_register_version A C,
      cp_resolve = client_resolve A C, cp_status = client_status A C, cp_manifest = client_manifest A C,
      cp_prepare_upload = client_prepare_upload A C, cp_upload_url = client_upload_url A C,
      cp_complete_upload = client_complete_upload A C, cp_finalize = client_finalize A C,
      cp_download_plan = client_download_plan A C\<rparr>"

section \<open>What the calls leave\<close>

lemma replying_stepwise [intro]: "stepwise U m \<Longrightarrow> stepwise U (replying status render m)"
  by (auto simp: replying_def)

lemma checked_stepwise [intro]: "(\<And>x. stepwise U (f x)) \<Longrightarrow> stepwise U (checked r f)"
  by (auto simp: checked_def)

lemma upload_status_stepwise: "stepwise U (upload_status U i)"
  by (auto simp: upload_status_def)

lemma route_stepwise: "stepwise (api_unicode A) (route A k q)"
  by (cases q) (auto simp: route_defs intro!: replying_stepwise checked_stepwise stepwise_rules services_stepwise upload_status_stepwise)

lemma serve_later: "later (api_unicode A) d (snd (serve A k q d))"
  using route_stepwise [of A k q]
  by (auto simp: serve_def stepwise_def later.now split: prod.split sum.split) (metis snd_conv)+

lemma exchange_later: "later (api_unicode A) (aw_db w) (aw_db (snd (exchange A C q w)))"
  using serve_later [of A "aw_db w" "aw_calls w" q]
  by (auto simp: exchange_def Let_def later.now split: delivery.split prod.split)

definition advances :: "api \<Rightarrow> api_world \<Rightarrow> api_world \<Rightarrow> bool" where
  "advances A w w' = later (api_unicode A) (aw_db w) (aw_db w')"

lemma advances_refl: "advances A w w"
  by (simp add: advances_def later.now)

lemma advances_trans: "advances A w w' \<Longrightarrow> advances A w' w'' \<Longrightarrow> advances A w w''"
  unfolding advances_def using later_trans by blast

lemma request_advances: "advances A w (snd (client_request A C q w))"
  unfolding client_request_def
  by (rule svc_bind_keeps [where P = "advances A w"])
     (auto simp: advances_refl intro: advances_trans [OF _ exchange_later [folded advances_def]])

lemma payload_advances: "advances A w (snd (client_payload A C q w))"
  unfolding client_payload_def
  by (rule svc_bind_keeps [where P = "advances A w"])
     (auto simp: advances_refl intro: advances_trans [OF _ request_advances])

lemma reading_advances: "advances A w (snd (reading f (client_payload A C q) w))"
  unfolding reading_def
  by (rule svc_bind_keeps [where P = "advances A w"])
     (auto simp: advances_refl intro: advances_trans [OF _ payload_advances])

end
