(* ===== verification/Source.thy ===== *)
theory Source
  imports Push
begin

text \<open>
  The source of a push on the local file system: \<^verbatim>\<open>FileSystemScanner\<close> of
  \<^verbatim>\<open>robolake/infrastructure/scanner.py\<close> and the upload half of \<^verbatim>\<open>http_transfer.py\<close>. Other processes may
  change the source between any two system calls, so the model is over what each call answers;
  the files read are finite, and a directory holds finitely many names. The lemmas show what a
  scan that succeeds has seen, what it gives for a tree that does not change, and which bytes an
  accepted upload has sent.
\<close>

section \<open>What the system calls answer\<close>

record file_identity =
  fid_device :: int
  fid_inode :: int
  fid_size :: int
  fid_mtime :: int

datatype file_kind = K_DIRECTORY | K_REGULAR | K_SYMLINK | K_OTHER

text \<open>\<^verbatim>\<open>_identity\<close> of a \<^verbatim>\<open>stat_result\<close> is its identity here.\<close>

record file_stat =
  fst_kind :: file_kind
  fst_identity :: file_identity

datatype refusal = ELOOP | ENOTDIR | ENOENT | EOTHER

type_synonym 'a told = "refusal + 'a"

text \<open>
  Reading one open file: \<^verbatim>\<open>fstat\<close>, the chunks until the end of the file, \<^verbatim>\<open>fstat\<close> again. A read may fail
  after some chunks.
\<close>

record file_reading =
  frd_before :: "file_stat told"
  frd_chunks :: "bytes list"
  frd_fails :: bool
  frd_after :: "file_stat told"

text \<open>
  One name of a directory: what \<^verbatim>\<open>lstat\<close> tells, what opening it as a file gives, and what opening and
  listing it as a directory gives; a listing may fail after some names.
\<close>

datatype source_entry =
  SourceEntry (sen_name: ustr) (sen_stat: "file_stat told") (sen_file: "file_reading told")
    (sen_listing: "(source_entry list \<times> bool) told")

record source_view =
  svw_supported :: bool
  svw_lstat :: "file_stat told"
  svw_open :: "unit told"
  svw_fstat :: "file_stat told"
  svw_entries :: "source_entry list"
  svw_fails :: bool

text \<open>Local references, as \<^verbatim>\<open>contracts.py\<close> has them.\<close>

record local_file_ref =
  lfr_root :: ustr
  lfr_root_identity :: file_identity
  lfr_raw_parts :: "ustr list"
  lfr_file_identity :: file_identity

type_synonym local_file = "local_file_ref scanned_file"

section \<open>The scanner\<close>

record scanner =
  scn_unicode :: unicode
  scn_max_bytes :: int

text \<open>Where \<^verbatim>\<open>OSError\<close> is translated by its number, and where it is not.\<close>

definition unsafe_refusal :: "'a told \<Rightarrow> 'a res" where
  "unsafe_refusal t =
     (case t of
        Inl r \<Rightarrow> Inl (if r \<in> {ELOOP, ENOTDIR, ENOENT} then UnsafeFileTypeError else PyOSError)
      | Inr x \<Rightarrow> Inr x)"

definition any_refusal :: "'a told \<Rightarrow> 'a res" where
  "any_refusal t = (case t of Inl r \<Rightarrow> Inl PyOSError | Inr x \<Rightarrow> Inr x)"

definition require_supported_platform :: "source_view \<Rightarrow> unit res" where
  "require_supported_platform v = (if svw_supported v then Inr () else Inl UnsupportedPlatformError)"

definition scan_file :: "scanner \<Rightarrow> ustr \<Rightarrow> file_identity \<Rightarrow> ustr list \<Rightarrow> file_reading told \<Rightarrow> local_file res" where
  "scan_file S root root_identity raw_parts handle =
     res_bind (mk_relative_path (scn_unicode S) (join_with 47 raw_parts)) (\<lambda>relative.
     res_bind (unsafe_refusal handle) (\<lambda>reading.
     res_bind (any_refusal (frd_before reading)) (\<lambda>before.
       if fst_kind before \<noteq> K_REGULAR then Inl UnsafeFileTypeError
       else if scn_max_bytes S < fid_size (fst_identity before) then Inl UnsupportedFileSizeError
       else if frd_fails reading then Inl PyOSError
       else
         res_bind (any_refusal (frd_after reading)) (\<lambda>after.
           if fst_identity after \<noteq> fst_identity before then Inl SourceChangedError
           else
             res_bind (mk_digest (sha256_hex (concat (frd_chunks reading)))) (\<lambda>digest.
             res_bind (mk_manifest_entry relative (fid_size (fst_identity before)) digest) (\<lambda>entry.
               Inr \<lparr>scf_entry = entry,
                    scf_ref = \<lparr>lfr_root = root, lfr_root_identity = root_identity, lfr_raw_parts = raw_parts,
                               lfr_file_identity = fst_identity before\<rparr>\<rparr>))))))"

text \<open>
  \<^verbatim>\<open>_scan_directory\<close> over the names of a directory; \<^verbatim>\<open>stat\<close> of a name that is gone is reported as a
  changed source, and every other failure is not translated.
\<close>

fun scan_entries ::
    "scanner \<Rightarrow> ustr \<Rightarrow> file_identity \<Rightarrow> ustr list \<Rightarrow> source_entry list \<Rightarrow> bool \<Rightarrow> local_file list res" where
  "scan_entries S root root_identity parents [] fails = (if fails then Inl PyOSError else Inr [])"
| "scan_entries S root root_identity parents (SourceEntry name discovered handle listing # rest) fails =
     res_bind
       (case discovered of
          Inl r \<Rightarrow> Inl (if r = ENOENT then SourceChangedError else PyOSError)
        | Inr st \<Rightarrow>
            (case fst_kind st of
               K_SYMLINK \<Rightarrow> Inl UnsafeFileTypeError
             | K_OTHER \<Rightarrow> Inl UnsafeFileTypeError
             | K_REGULAR \<Rightarrow>
                 res_bind (scan_file S root root_identity (parents @ [name]) handle) (\<lambda>f. Inr [f])
             | K_DIRECTORY \<Rightarrow>
                 (case listing of
                    Inl r \<Rightarrow> Inl (if r \<in> {ELOOP, ENOTDIR, ENOENT} then UnsafeFileTypeError else PyOSError)
                  | Inr (names, broken) \<Rightarrow>
                      scan_entries S root root_identity (parents @ [name]) names broken)))
       (\<lambda>found. res_bind (scan_entries S root root_identity parents rest fails) (\<lambda>more. Inr (found @ more)))"

text \<open>The dictionary of the files by their path: the last file of a path stays.\<close>

definition file_at :: "local_file list \<Rightarrow> relative_path \<Rightarrow> local_file res" where
  "file_at files p = of_option PyKeyError (find (\<lambda>f. me_path (scf_entry f) = p) (rev files))"

definition scan :: "scanner \<Rightarrow> ustr \<Rightarrow> source_view \<Rightarrow> local_file_ref scanned_dataset res" where
  "scan S root v =
     res_bind (require_supported_platform v) (\<lambda>_.
     res_bind (any_refusal (svw_lstat v)) (\<lambda>source_stat.
       if fst_kind source_stat \<noteq> K_DIRECTORY then Inl UnsafeFileTypeError
       else
         res_bind (unsafe_refusal (svw_open v)) (\<lambda>_.
         res_bind (any_refusal (svw_fstat v)) (\<lambda>root_stat.
           if fst_identity root_stat \<noteq> fst_identity source_stat then Inl SourceChangedError
           else
             res_bind (scan_entries S root (fst_identity root_stat) [] (svw_entries v) (svw_fails v)) (\<lambda>files.
             res_bind (build (scn_unicode S) (map scf_entry files)) (\<lambda>m.
             res_bind (res_map (\<lambda>e. file_at files (me_path e)) (mf_entries m)) (\<lambda>ordered.
               Inr \<lparr>scd_manifest = m, scd_files = ordered\<rparr>)))))))"

section \<open>What a successful scan has seen\<close>

text \<open>The regular files of a view with their paths, in the order the scan meets them.\<close>

fun regular_files :: "ustr list \<Rightarrow> source_entry list \<Rightarrow> (ustr list \<times> file_reading told) list" where
  "regular_files parents [] = []"
| "regular_files parents (SourceEntry name discovered handle listing # rest) =
     (case discovered of
        Inl r \<Rightarrow> []
      | Inr st \<Rightarrow>
          (case fst_kind st of
             K_REGULAR \<Rightarrow> [(parents @ [name], handle)]
           | K_DIRECTORY \<Rightarrow> (case listing of Inl r \<Rightarrow> [] | Inr (names, broken) \<Rightarrow> regular_files (parents @ [name]) names)
           | _ \<Rightarrow> [])) @ regular_files parents rest"

text \<open>Directories and regular files only, each directory listed to its end.\<close>

fun plain_entries :: "source_entry list \<Rightarrow> bool" where
  "plain_entries [] = True"
| "plain_entries (SourceEntry name discovered handle listing # rest) =
     ((case discovered of
         Inl r \<Rightarrow> False
       | Inr st \<Rightarrow>
           (case fst_kind st of
              K_REGULAR \<Rightarrow> True
            | K_DIRECTORY \<Rightarrow> (case listing of Inl r \<Rightarrow> False | Inr (names, broken) \<Rightarrow> \<not> broken \<and> plain_entries names)
            | _ \<Rightarrow> False)) \<and> plain_entries rest)"

lemma gather_Inr:
  assumes "\<And>us. found = Inr us \<longleftrightarrow> b \<and> list_all2 P xs us"
    and "\<And>us vs. found = Inr us \<Longrightarrow> remaining = Inr vs \<longleftrightarrow> c \<and> list_all2 P ys vs"
  shows "res_bind found (\<lambda>us. res_bind remaining (\<lambda>vs. Inr (us @ vs))) = Inr files
    \<longleftrightarrow> b \<and> c \<and> list_all2 P (xs @ ys) files"
proof -
  have "res_bind found (\<lambda>us. res_bind remaining (\<lambda>vs. Inr (us @ vs))) = Inr files
    \<longleftrightarrow> (\<exists>us vs. found = Inr us \<and> remaining = Inr vs \<and> files = us @ vs)"
    by (auto simp: res_bind_eq_Inr)
  also have "\<dots> \<longleftrightarrow> (\<exists>us vs. (b \<and> list_all2 P xs us) \<and> (c \<and> list_all2 P ys vs) \<and> files = us @ vs)"
    using assms by blast
  also have "\<dots> \<longleftrightarrow> b \<and> c \<and> list_all2 P (xs @ ys) files"
    by (auto simp: list_all2_append1 list_all2_lengthD) (metis list_all2_lengthD)
  finally show ?thesis .
qed

lemma scan_entries_Inr:
  "scan_entries S root rid parents es fails = Inr files \<longleftrightarrow>
     \<not> fails \<and> plain_entries es
     \<and> list_all2 (\<lambda>(parts, h) f. scan_file S root rid parts h = Inr f) (regular_files parents es) files"
proof (induction S root rid parents es fails arbitrary: files rule: scan_entries.induct)
  case (2 S root rid parents name discovered handle listing rest fails)
  let ?P = "\<lambda>(parts, h) f. scan_file S root rid parts h = Inr f"
  let ?found = "case discovered of
          Inl r \<Rightarrow> Inl (if r = ENOENT then SourceChangedError else PyOSError)
        | Inr st \<Rightarrow>
            (case fst_kind st of
               K_SYMLINK \<Rightarrow> Inl UnsafeFileTypeError
             | K_OTHER \<Rightarrow> Inl UnsafeFileTypeError
             | K_REGULAR \<Rightarrow>
                 res_bind (scan_file S root rid (parents @ [name]) handle) (\<lambda>f. Inr [f])
             | K_DIRECTORY \<Rightarrow>
                 (case listing of
                    Inl r \<Rightarrow> Inl (if r \<in> {ELOOP, ENOTDIR, ENOENT} then UnsafeFileTypeError else PyOSError)
                  | Inr (names, broken) \<Rightarrow>
                      scan_entries S root rid (parents @ [name]) names broken))"
  let ?b = "case discovered of
         Inl r \<Rightarrow> False
       | Inr st \<Rightarrow>
           (case fst_kind st of
              K_REGULAR \<Rightarrow> True
            | K_DIRECTORY \<Rightarrow> (case listing of Inl r \<Rightarrow> False | Inr (names, broken) \<Rightarrow> \<not> broken \<and> plain_entries names)
            | _ \<Rightarrow> False)"
  let ?xs = "case discovered of
        Inl r \<Rightarrow> []
      | Inr st \<Rightarrow>
          (case fst_kind st of
             K_REGULAR \<Rightarrow> [(parents @ [name], handle)]
           | K_DIRECTORY \<Rightarrow> (case listing of Inl r \<Rightarrow> [] | Inr (names, broken) \<Rightarrow> regular_files (parents @ [name]) names)
           | _ \<Rightarrow> [])"
  have head: "?found = Inr us \<longleftrightarrow> ?b \<and> list_all2 ?P ?xs us" for us
    using 2(1) by (auto simp: res_bind_eq_Inr list_all2_Cons1 split: sum.split file_kind.split)
  have tail: "scan_entries S root rid parents rest fails = Inr vs
      \<longleftrightarrow> (\<not> fails \<and> plain_entries rest) \<and> list_all2 ?P (regular_files parents rest) vs"
    if "?found = Inr us" for us vs
    using 2(2) [OF that] by simp
  have "res_bind ?found (\<lambda>us. res_bind (scan_entries S root rid parents rest fails) (\<lambda>vs. Inr (us @ vs))) = Inr files
      \<longleftrightarrow> ?b \<and> (\<not> fails \<and> plain_entries rest) \<and> list_all2 ?P (?xs @ regular_files parents rest) files"
    by (rule gather_Inr) (fact head, fact tail)
  then show ?case
    unfolding scan_entries.simps plain_entries.simps regular_files.simps by blast
qed auto

text \<open>A file that was read whole between two equal observations of it.\<close>

definition read_stably :: "scanner \<Rightarrow> ustr \<Rightarrow> file_identity \<Rightarrow> ustr list \<Rightarrow> file_reading \<Rightarrow> local_file \<Rightarrow> bool" where
  "read_stably S root rid parts reading f =
     (\<exists>before after.
        frd_before reading = Inr before \<and> fst_kind before = K_REGULAR
        \<and> fid_size (fst_identity before) \<le> scn_max_bytes S \<and> \<not> frd_fails reading
        \<and> frd_after reading = Inr after \<and> fst_identity after = fst_identity before
        \<and> mk_relative_path (scn_unicode S) (join_with 47 parts) = Inr (me_path (scf_entry f))
        \<and> me_size (scf_entry f) = fid_size (fst_identity before)
        \<and> me_sha (scf_entry f) = content_digest (concat (frd_chunks reading))
        \<and> scf_ref f = \<lparr>lfr_root = root, lfr_root_identity = rid, lfr_raw_parts = parts,
                      lfr_file_identity = fst_identity before\<rparr>)"

lemma scan_file_Inr:
  assumes "scan_file S root rid parts h = Inr f"
  shows "\<exists>reading. h = Inr reading \<and> read_stably S root rid parts reading f"
  using assms
  by (auto simp: scan_file_def res_bind_eq_Inr unsafe_refusal_def any_refusal_def read_stably_def
      mk_manifest_entry_def content_digest_wf mk_digest_wf content_digest_def split: if_splits sum.splits)

lemma scan_Inr:
  assumes "scan S root v = Inr sd"
  obtains rid files where
    "svw_fstat v = Inr rid" "scan_entries S root (fst_identity rid) [] (svw_entries v) (svw_fails v) = Inr files"
    "build (scn_unicode S) (map scf_entry files) = Inr (scd_manifest sd)"
    "res_map (\<lambda>e. file_at files (me_path e)) (mf_entries (scd_manifest sd)) = Inr (scd_files sd)"
  using assms
  by (auto simp: scan_def res_bind_eq_Inr any_refusal_def split: if_splits sum.splits)

text \<open>The files of a manifest that was built are found again by their paths.\<close>

lemma built_files:
  assumes "build U (map scf_entry files) = Inr m"
  shows "\<exists>ordered. res_map (\<lambda>e. file_at files (me_path e)) (mf_entries m) = Inr ordered
    \<and> map scf_entry ordered = mf_entries m \<and> set ordered = set files \<and> length ordered = length files"
proof -
  have b: "built U m" "mf_entries m = sort_key entry_key (map scf_entry files)"
    using build_Inr [OF assms] by auto
  then have "distinct (map me_path (map scf_entry files))"
    using distinct_map_mset [of "mf_entries m" "map scf_entry files" me_path] by (simp add: built_def)
  then have d: "distinct (map (\<lambda>f. me_path (scf_entry f)) files)" by (simp add: comp_def)
  have found: "file_at files (me_path (scf_entry f)) = Inr f" if "f \<in> set files" for f
    using tab_get_distinct [of "\<lambda>f. me_path (scf_entry f)" "rev files" f] that d
    by (simp add: file_at_def tab_get_def rev_map [symmetric])
  define g where "g e = (THE f. f \<in> set files \<and> scf_entry f = e)" for e
  have inj: "f' = f" if "f \<in> set files" "f' \<in> set files" "scf_entry f' = scf_entry f" for f f'
    using found [OF that(1)] found [OF that(2)] that(3) by simp
  then have g: "g (scf_entry f) = f" if "f \<in> set files" for f
    unfolding g_def using that by (intro the_equality) auto
  have "set (mf_entries m) = scf_entry ` set files" using b(2) by simp
  then have "res_map (\<lambda>e. file_at files (me_path e)) (mf_entries m) = Inr (map g (mf_entries m))"
    using found g by (intro res_map_all_Inr) auto
  moreover have "map scf_entry (map g (mf_entries m)) = mf_entries m"
    using \<open>set (mf_entries m) = _\<close> g by (auto intro!: map_idI)
  moreover have "set (map g (mf_entries m)) = set files"
    using \<open>set (mf_entries m) = _\<close> g by force
  moreover have "length (map g (mf_entries m)) = length files" using b(2) by simp
  ultimately show ?thesis by blast
qed

text \<open>
  C37: A scan is a faithful picture of what it read, whatever other processes do to the source
  meanwhile: it succeeds only when every name it met was a directory or a regular file, and then
  its files are one by one the entries of its canonical manifest, and they are exactly the regular
  files met, each one read whole between two equal observations of its identity, with the size
  observed, the digest of the bytes read and the normalised path.
\<close>

theorem scan_is_faithful:
  assumes "scan S root v = Inr sd"
  shows "plain_entries (svw_entries v) \<and> built (scn_unicode S) (scd_manifest sd)
    \<and> map scf_entry (scd_files sd) = mf_entries (scd_manifest sd)
    \<and> (\<exists>rid files. svw_fstat v = Inr rid \<and> set files = set (scd_files sd)
        \<and> length files = length (scd_files sd)
        \<and> list_all2 (\<lambda>(parts, h) f. \<exists>reading. h = Inr reading \<and> read_stably S root (fst_identity rid) parts reading f)
            (regular_files [] (svw_entries v)) files)"
proof -
  obtain rid files where s: "svw_fstat v = Inr rid"
      "scan_entries S root (fst_identity rid) [] (svw_entries v) (svw_fails v) = Inr files"
      "build (scn_unicode S) (map scf_entry files) = Inr (scd_manifest sd)"
      "res_map (\<lambda>e. file_at files (me_path e)) (mf_entries (scd_manifest sd)) = Inr (scd_files sd)"
    using assms by (rule scan_Inr)
  have "map scf_entry (scd_files sd) = mf_entries (scd_manifest sd) \<and> set (scd_files sd) = set files
      \<and> length (scd_files sd) = length files"
    using built_files [OF s(3)] s(4) by auto
  moreover have "plain_entries (svw_entries v)"
    and "list_all2 (\<lambda>(parts, h) f. \<exists>reading. h = Inr reading \<and> read_stably S root (fst_identity rid) parts reading f)
      (regular_files [] (svw_entries v)) files"
    using s(2) scan_file_Inr by (auto simp: scan_entries_Inr elim!: list_all2_mono)
  ultimately show ?thesis
    using s(1) build_Inr(1) [OF s(3)] by (intro conjI exI [of _ rid] exI [of _ files]) simp_all
qed

section \<open>Scanning a tree that does not change\<close>

datatype source_tree =
    STREE_FILE file_identity bytes
  | STREE_DIRECTORY "(ustr \<times> source_tree) list"
  | STREE_SYMLINK
  | STREE_OTHER

text \<open>\<^verbatim>\<open>iter_file_chunks\<close>: reads of at most \<open>k\<close> bytes until one returns nothing.\<close>

function file_chunks :: "nat \<Rightarrow> bytes \<Rightarrow> bytes list" where
  "file_chunks k content = (if take k content = [] then [] else take k content # file_chunks k (drop k content))"
  by pat_completeness auto
termination by (relation "measure (\<lambda>(k, content). length content)") (auto simp: Suc_le_eq length_greater_0_conv)

declare file_chunks.simps [simp del]

lemma concat_file_chunks: "0 < k \<Longrightarrow> concat (file_chunks k content) = content"
proof (induction k content rule: file_chunks.induct)
  case (1 k content)
  then show ?case
    by (cases "content = []") (simp_all add: file_chunks.simps [of k content] file_chunks.simps [of k "[]"])
qed

text \<open>What the system calls answer over such a tree, read in chunks of \<open>k\<close> bytes.\<close>

definition steady_reading :: "file_stat \<Rightarrow> bytes list \<Rightarrow> file_reading" where
  "steady_reading st parts = \<lparr>frd_before = Inr st, frd_chunks = parts, frd_fails = False, frd_after = Inr st\<rparr>"

fun tree_entries :: "file_identity \<Rightarrow> nat \<Rightarrow> (ustr \<times> source_tree) list \<Rightarrow> source_entry list" where
  "tree_entries rid k [] = []"
| "tree_entries rid k ((name, STREE_FILE i content) # rest) =
     SourceEntry name (Inr \<lparr>fst_kind = K_REGULAR, fst_identity = i\<rparr>)
       (Inr (steady_reading \<lparr>fst_kind = K_REGULAR, fst_identity = i\<rparr> (file_chunks k content))) (Inl ENOTDIR)
     # tree_entries rid k rest"
| "tree_entries rid k ((name, STREE_DIRECTORY children) # rest) =
     SourceEntry name (Inr \<lparr>fst_kind = K_DIRECTORY, fst_identity = rid\<rparr>)
       (Inr (steady_reading \<lparr>fst_kind = K_DIRECTORY, fst_identity = rid\<rparr> [])) (Inr (tree_entries rid k children, False))
     # tree_entries rid k rest"
| "tree_entries rid k ((name, STREE_SYMLINK) # rest) =
     SourceEntry name (Inr \<lparr>fst_kind = K_SYMLINK, fst_identity = rid\<rparr>) (Inl ELOOP) (Inl ELOOP) # tree_entries rid k rest"
| "tree_entries rid k ((name, STREE_OTHER) # rest) =
     SourceEntry name (Inr \<lparr>fst_kind = K_OTHER, fst_identity = rid\<rparr>) (Inl EOTHER) (Inl ENOTDIR) # tree_entries rid k rest"

definition tree_view :: "file_identity \<Rightarrow> nat \<Rightarrow> (ustr \<times> source_tree) list \<Rightarrow> source_view" where
  "tree_view rid k children =
     \<lparr>svw_supported = True, svw_lstat = Inr \<lparr>fst_kind = K_DIRECTORY, fst_identity = rid\<rparr>, svw_open = Inr (),
      svw_fstat = Inr \<lparr>fst_kind = K_DIRECTORY, fst_identity = rid\<rparr>, svw_entries = tree_entries rid k children,
      svw_fails = False\<rparr>"

text \<open>Its files, and the trees a scan accepts: files of the size their identity says, within the limit.\<close>

fun tree_files :: "ustr list \<Rightarrow> (ustr \<times> source_tree) list \<Rightarrow> (ustr list \<times> file_identity \<times> bytes) list" where
  "tree_files parents [] = []"
| "tree_files parents ((name, STREE_FILE i content) # rest) = (parents @ [name], i, content) # tree_files parents rest"
| "tree_files parents ((name, STREE_DIRECTORY children) # rest) =
     tree_files (parents @ [name]) children @ tree_files parents rest"
| "tree_files parents ((_, _) # rest) = tree_files parents rest"

fun plain_tree :: "int \<Rightarrow> (ustr \<times> source_tree) list \<Rightarrow> bool" where
  "plain_tree limit [] = True"
| "plain_tree limit ((name, STREE_FILE i content) # rest) =
     (fid_size i = int (length content) \<and> fid_size i \<le> limit \<and> plain_tree limit rest)"
| "plain_tree limit ((name, STREE_DIRECTORY children) # rest) = (plain_tree limit children \<and> plain_tree limit rest)"
| "plain_tree limit ((_, _) # rest) = False"

definition content_entry :: "unicode \<Rightarrow> ustr list \<times> file_identity \<times> bytes \<Rightarrow> manifest_entry res" where
  "content_entry U x =
     (case x of (parts, i, content) \<Rightarrow>
        res_bind (mk_relative_path U (join_with 47 parts)) (\<lambda>p.
          Inr \<lparr>me_path = p, me_size = int (length content), me_sha = content_digest content\<rparr>))"

lemma res_map_append:
  "res_map f (xs @ ys) = res_bind (res_map f xs) (\<lambda>us. res_bind (res_map f ys) (\<lambda>vs. Inr (us @ vs)))"
  by (induction xs) (simp_all add: res_bind_def split: sum.split)

lemma scan_steady_file:
  assumes "fid_size i = int (length content)" "fid_size i \<le> scn_max_bytes S" "0 < k"
  shows "scan_file S root rid parts (Inr (steady_reading \<lparr>fst_kind = K_REGULAR, fst_identity = i\<rparr> (file_chunks k content)))
    = res_bind (content_entry (scn_unicode S) (parts, i, content)) (\<lambda>e. Inr \<lparr>scf_entry = e,
        scf_ref = \<lparr>lfr_root = root, lfr_root_identity = rid, lfr_raw_parts = parts, lfr_file_identity = i\<rparr>\<rparr>)"
  using assms
  by (simp add: scan_file_def unsafe_refusal_def any_refusal_def steady_reading_def content_entry_def
      res_bind_assoc mk_manifest_entry_def concat_file_chunks)

lemma scan_tree_entries:
  assumes "plain_tree (scn_max_bytes S) ts" "0 < k"
  shows "scan_entries S root rid parents (tree_entries drid k ts) False
    = res_map (\<lambda>x. res_bind (content_entry (scn_unicode S) x) (\<lambda>e. Inr \<lparr>scf_entry = e,
        scf_ref = \<lparr>lfr_root = root, lfr_root_identity = rid, lfr_raw_parts = fst x, lfr_file_identity = fst (snd x)\<rparr>\<rparr>))
      (tree_files parents ts)"
  using assms(1)
proof (induction parents ts rule: tree_files.induct)
  case (2 parents name i content rest)
  then show ?case
    using assms(2) by (simp add: scan_steady_file res_bind_assoc) (simp add: res_bind_def split: sum.split)
next
  case (3 parents name children rest)
  then show ?case by (simp add: res_map_append)
qed simp_all

lemma scan_unchanged:
  assumes "plain_tree (scn_max_bytes S) ts" "0 < k"
  shows "map_sum id scd_manifest (scan S root (tree_view rid k ts))
    = res_bind (res_map (content_entry (scn_unicode S)) (tree_files [] ts)) (build (scn_unicode S))"
proof -
  let ?h = "\<lambda>x e. \<lparr>scf_entry = e, scf_ref = \<lparr>lfr_root = root, lfr_root_identity = rid, lfr_raw_parts = fst x,
    lfr_file_identity = fst (snd x)\<rparr>\<rparr>"
  let ?files = "res_map (\<lambda>x. res_bind (content_entry (scn_unicode S) x) (\<lambda>e. Inr (?h x e))) (tree_files [] ts)"
  have entries: "res_map (content_entry (scn_unicode S)) xs
      = map_sum id (map scf_entry) (res_map (\<lambda>x. res_bind (content_entry (scn_unicode S) x) (\<lambda>e. Inr (?h x e))) xs)" for xs
    by (induction xs) (auto simp: res_bind_def split: sum.split)
  have s: "scan S root (tree_view rid k ts)
    = res_bind ?files (\<lambda>files. res_bind (build (scn_unicode S) (map scf_entry files)) (\<lambda>m.
        res_bind (res_map (\<lambda>e. file_at files (me_path e)) (mf_entries m)) (\<lambda>ordered.
          Inr \<lparr>scd_manifest = m, scd_files = ordered\<rparr>)))"
    by (simp add: scan_def tree_view_def require_supported_platform_def any_refusal_def unsafe_refusal_def
        scan_tree_entries [OF assms])
  show ?thesis
  proof (cases ?files)
    case (Inr files)
    then have "res_map (content_entry (scn_unicode S)) (tree_files [] ts) = Inr (map scf_entry files)"
      by (simp add: entries)
    then show ?thesis
      unfolding s Inr using built_files [of "scn_unicode S" files]
      by (cases "build (scn_unicode S) (map scf_entry files)") auto
  qed (simp add: s entries)
qed

text \<open>
  C38: Scanning a tree of directories and regular files, each within the size limit, that nobody
  changes gives the manifest built from exactly its files, each with its normalised path, its length and the digest of its
  content, whatever the size of the chunks; it fails only with the error of an unsafe path or of the
  manifest builder.
\<close>

theorem scan_of_unchanged_tree:
  assumes "plain_tree (scn_max_bytes S) ts" "0 < k"
  shows "map_sum id scd_manifest (scan S root (tree_view rid k ts))
    = res_bind (res_map (content_entry (scn_unicode S)) (tree_files [] ts)) (build (scn_unicode S))"
  using assms by (rule scan_unchanged)

section \<open>Uploading a scanned file\<close>

text \<open>
  What the system calls answer when the file of a local reference is opened again and read. The
  parents are opened one inside the other, numbered from the root.
\<close>

record source_reopening =
  rop_root :: "file_stat told"
  rop_parent :: "nat \<Rightarrow> unit told"
  rop_file :: "file_stat told"
  rop_chunks :: "bytes list"
  rop_fails :: bool
  rop_after :: "file_stat told"

text \<open>\<^verbatim>\<open>_open_scanned_file\<close>: every \<^verbatim>\<open>OSError\<close> means that the source has changed.\<close>

definition changed_refusal :: "'a told \<Rightarrow> 'a res" where
  "changed_refusal t = (case t of Inl r \<Rightarrow> Inl SourceChangedError | Inr x \<Rightarrow> Inr x)"

definition open_scanned_file :: "local_file_ref \<Rightarrow> source_reopening \<Rightarrow> unit res" where
  "open_scanned_file ref r =
     res_bind (changed_refusal (rop_root r)) (\<lambda>root_stat.
       if fst_identity root_stat \<noteq> lfr_root_identity ref then Inl SourceChangedError
       else
         res_bind (res_map (\<lambda>n. changed_refusal (rop_parent r n)) [0..<length (butlast (lfr_raw_parts ref))]) (\<lambda>_.
         res_bind (changed_refusal (rop_file r)) (\<lambda>st.
           if fst_kind st \<noteq> K_REGULAR then Inl UnsafeFileTypeError
           else if fst_identity st \<noteq> lfr_file_identity ref then Inl SourceChangedError
           else Inr ())))"

record stream_state =
  sts_size :: int
  sts_sha :: "ustr option"
  sts_complete :: bool

definition new_stream :: stream_state where
  "new_stream = \<lparr>sts_size = 0, sts_sha = None, sts_complete = False\<rparr>"

text \<open>
  \<^verbatim>\<open>_iter_verified\<close>, asked \<open>n\<close> times: \<open>digested\<close> are the bytes given out so far. The result is the state,
  or the exception raised into the client, and all the bytes given out.
\<close>

fun iter_verified ::
    "local_file_ref \<Rightarrow> source_reopening \<Rightarrow> nat \<Rightarrow> bytes list \<Rightarrow> bytes \<Rightarrow> stream_state \<Rightarrow> stream_state res \<times> bytes" where
  "iter_verified ref r 0 parts digested st = (Inr st, digested)"
| "iter_verified ref r (Suc n) (part # parts) digested st =
     iter_verified ref r n parts (digested @ part) (st\<lparr>sts_size := sts_size st + int (length part)\<rparr>)"
| "iter_verified ref r (Suc n) [] digested st =
     (if rop_fails r then (Inl PyOSError, digested)
      else
        (res_bind (any_refusal (rop_after r)) (\<lambda>after.
           if fst_identity after \<noteq> lfr_file_identity ref then Inl SourceChangedError
           else Inr (st\<lparr>sts_sha := Some (sha256_hex digested), sts_complete := True\<rparr>)), digested))"

text \<open>
  The \<^verbatim>\<open>PUT\<close> of the client: how often it asks for content before it stops, and its answer, a status and an
  \<^verbatim>\<open>ETag\<close>, or none (\<^verbatim>\<open>httpx.RequestError\<close>).
\<close>

record put_exchange =
  pex_pulls :: nat
  pex_answer :: "(int \<times> ustr option) option"

definition judge_put :: "manifest_entry \<Rightarrow> stream_state \<Rightarrow> (int \<times> ustr option) option \<Rightarrow> put_receipt res" where
  "judge_put entry st reply =
     (case reply of
        None \<Rightarrow> Inl RetryableTransferError
      | Some (status, etag) \<Rightarrow>
          (if status = 200
           then (if \<not> sts_complete st \<or> sts_size st \<noteq> me_size entry \<or> sts_sha st \<noteq> Some (digest_value (me_sha entry))
                 then Inl SourceChangedError
                 else Inr \<lparr>ptr_outcome = PUT_CREATED, ptr_etag = etag\<rparr>)
           else if status = 412 then Inr \<lparr>ptr_outcome = PUT_ALREADY_EXISTS, ptr_etag = etag\<rparr>
           else if status = 409 then Inr \<lparr>ptr_outcome = PUT_CONFLICT, ptr_etag = etag\<rparr>
           else if retryable_status status then Inl RetryableTransferError
           else Inl TransferRejectedError))"

definition put :: "local_file_ref \<Rightarrow> manifest_entry \<Rightarrow> source_reopening \<Rightarrow> put_exchange \<Rightarrow> put_receipt res \<times> bytes" where
  "put ref entry r x =
     (case open_scanned_file ref r of
        Inl e \<Rightarrow> (Inl e, [])
      | Inr _ \<Rightarrow>
          (case iter_verified ref r (pex_pulls x) (rop_chunks r) [] new_stream of
             (stream, sent) \<Rightarrow>
               ((case res_bind stream (\<lambda>st. judge_put entry st (pex_answer x)) of
                   Inl e \<Rightarrow> Inl (if e = PyOSError then SourceChangedError else e)
                 | Inr receipt \<Rightarrow> Inr receipt), sent)))"

lemma iter_verified_complete:
  assumes "iter_verified ref r n parts digested st = (Inr st', sent)" "sts_complete st'" "\<not> sts_complete st"
    and "sts_size st = int (length digested)"
  shows "sent = digested @ concat parts \<and> sts_size st' = int (length sent) \<and> sts_sha st' = Some (sha256_hex sent)
    \<and> \<not> rop_fails r \<and> (\<exists>after. rop_after r = Inr after \<and> fst_identity after = lfr_file_identity ref)"
  using assms
  by (induction ref r n parts digested st rule: iter_verified.induct)
     (auto simp: res_bind_eq_Inr any_refusal_def split: if_splits sum.splits)

lemma iter_verified_errors:
  "fst (iter_verified ref r n parts digested st) = Inl e \<Longrightarrow> e \<in> {PyOSError, SourceChangedError}"
  by (induction ref r n parts digested st rule: iter_verified.induct)
     (auto simp: res_bind_eq_Inl any_refusal_def split: if_splits sum.splits)

lemma open_scanned_file_errors:
  "open_scanned_file ref r = Inl e \<Longrightarrow> e \<in> {SourceChangedError, UnsafeFileTypeError}"
proof -
  have "res_map (\<lambda>n. changed_refusal (rop_parent r n)) ns = Inl e \<Longrightarrow> e = SourceChangedError" for ns
    by (induction ns) (auto simp: changed_refusal_def split: sum.splits)
  then show "open_scanned_file ref r = Inl e \<Longrightarrow> ?thesis"
    by (auto simp: open_scanned_file_def res_bind_eq_Inl changed_refusal_def split: if_splits sum.splits)
qed


section \<open>The local ports of a push\<close>

text \<open>
  A host on which the pushes run: what the source looks like at the \<open>n\<close>-th call, and what became of
  the bytes sent.
\<close>

record host =
  hst_calls :: nat
  hst_view :: "nat \<Rightarrow> ustr \<Rightarrow> source_view"
  hst_reopening :: "nat \<Rightarrow> local_file_ref \<Rightarrow> source_reopening"
  hst_exchange :: "nat \<Rightarrow> presigned_request \<Rightarrow> put_exchange"
  hst_sent :: "(presigned_request \<times> bytes) list"

definition host_port :: "scanner \<Rightarrow> (host, ustr, local_file_ref) local_port" where
  "host_port S =
     \<lparr>lp_scan = (\<lambda>root h. (scan S root (hst_view h (hst_calls h) root), h\<lparr>hst_calls := hst_calls h + 1\<rparr>)),
      lp_put = (\<lambda>ref request entry h.
        let n = hst_calls h
        in case put ref entry (hst_reopening h n ref) (hst_exchange h n request) of
             (res, sent) \<Rightarrow> (res, h\<lparr>hst_calls := n + 1, hst_sent := hst_sent h @ [(request, sent)]\<rparr>)),
      lp_progress = (\<lambda>e. answer (Inr ()))\<rparr>"

section \<open>A tree of one empty file\<close>

definition small_identity :: file_identity where
  "small_identity = \<lparr>fid_device = 0, fid_inode = 1, fid_size = 0, fid_mtime = 0\<rparr>"

definition small_tree :: "(ustr \<times> source_tree) list" where
  "small_tree = [(lit ''a'', STREE_FILE small_identity [])]"

definition small_scanner :: scanner where
  "small_scanner = \<lparr>scn_unicode = ascii_unicode, scn_max_bytes = 5000000000\<rparr>"

lemma small_plain: "plain_tree (scn_max_bytes small_scanner) small_tree"
  by (simp add: small_tree_def small_scanner_def small_identity_def)

lemma small_entries: "res_map (content_entry (scn_unicode small_scanner)) (tree_files [] small_tree) = Inr [empty_file]"
  using empty_file_wf
  by (simp add: small_tree_def small_scanner_def content_entry_def wf_entry_def wf_path_def empty_file_def)

definition small_file :: local_file where
  "small_file = \<lparr>scf_entry = empty_file, scf_ref = \<lparr>lfr_root = lit ''r'', lfr_root_identity = small_identity,
     lfr_raw_parts = [lit ''a''], lfr_file_identity = small_identity\<rparr>\<rparr>"

lemma small_scan:
  "scan small_scanner (lit ''r'') (tree_view small_identity 1 small_tree)
    = Inr \<lparr>scd_manifest = small_manifest, scd_files = [small_file]\<rparr>"
proof -
  have one: "content_entry (scn_unicode small_scanner) ([lit ''a''], small_identity, []) = Inr empty_file"
    using small_entries by (simp add: small_tree_def split: sum.splits)
  have "scan_entries small_scanner (lit ''r'') small_identity [] (tree_entries small_identity 1 small_tree) False
      = Inr [small_file]"
    using one by (subst scan_tree_entries [OF small_plain]) (simp_all add: small_tree_def small_file_def)
  then show ?thesis
    by (simp add: scan_def tree_view_def require_supported_platform_def any_refusal_def unsafe_refusal_def
        small_scanner_def small_file_def small_built small_totals file_at_def)
qed

theorem scan_is_faithful_witness:
  "map scf_entry [small_file] = mf_entries small_manifest
   \<and> plain_entries (svw_entries (tree_view small_identity 1 small_tree))"
  using scan_is_faithful [OF small_scan] by simp

theorem scan_of_unchanged_tree_witness:
  "map_sum id scd_manifest (scan small_scanner (lit ''r'') (tree_view small_identity 1 small_tree)) = Inr small_manifest"
  using scan_of_unchanged_tree [OF small_plain, of 1 "lit ''r''" small_identity] small_entries small_built
  by (simp add: small_scanner_def)

definition small_reopening :: source_reopening where
  "small_reopening =
     (let st = \<lparr>fst_kind = K_REGULAR, fst_identity = small_identity\<rparr>
      in \<lparr>rop_root = Inr \<lparr>fst_kind = K_DIRECTORY, fst_identity = small_identity\<rparr>, rop_parent = (\<lambda>_. Inr ()),
          rop_file = Inr st, rop_chunks = [], rop_fails = False, rop_after = Inr st\<rparr>)"

lemma small_put:
  "put (scf_ref small_file) empty_file small_reopening \<lparr>pex_pulls = 1, pex_answer = Some (200, None)\<rparr>
    = (Inr \<lparr>ptr_outcome = PUT_CREATED, ptr_etag = None\<rparr>, [])"
  by (simp add: put_def open_scanned_file_def small_file_def small_reopening_def Let_def changed_refusal_def
      any_refusal_def judge_put_def new_stream_def empty_file_def content_digest_def)


end
