(* ===== verification/EndToEnd.thy ===== *)
theory EndToEnd
  imports Api TransferRules Source
begin

text \<open>
  Push and pull against the service: the API with its client keeps the contract of a control plane,
  so the properties of the workflows hold of the registry behind it, whatever requests and
  responses the network loses.
\<close>

section \<open>What a successful call answered\<close>

lemma error_status: "\<not> (200 \<le> er_status (handle_exception e) \<and> er_status (handle_exception e) \<le> 299)"
  by (simp add: handle_exception_def domain_handler_def storage_handler_def database_handler_def
      unexpected_handler_def split: option.split)

lemma serve_success:
  assumes "serve A k q d = (r, d')" "200 \<le> hs_status r \<and> hs_status r \<le> 299"
  shows "route A k q d = (Inr r, d')"
  using assms error_status
  by (auto simp: serve_def invalid_response_def json_response_def split: if_splits prod.splits sum.splits)

lemma replying_Inr:
  "replying status render call d = (Inr r, d') \<longleftrightarrow> (\<exists>x. call d = (Inr x, d') \<and> r = json_response status (render x))"
  by (auto simp: replying_def svc_bind_Inr)

lemma checked_Inr: "checked r f d = (Inr x, d') \<longleftrightarrow> (\<exists>y. r = Inr y \<and> f y d = (Inr x, d'))"
  by (cases r) (auto simp: checked_def)

lemma exchange_Inr:
  "exchange A C q w = (Inr r, w') \<longleftrightarrow>
     cl_delivery C (aw_calls w) = Delivered \<and> serve A (aw_calls w) q (aw_db w) = (r, aw_db w')
     \<and> aw_calls w' = aw_calls w + 1"
  by (cases w; cases w') (auto simp: exchange_def Let_def split: delivery.splits prod.splits)

lemma request_Inr:
  assumes "client_request A C q w = (Inr b, w')"
  obtains r where "route A (aw_calls w) q (aw_db w) = (Inr r, aw_db w')" "hs_body r = b"
  using assms serve_success
  by (auto simp: client_request_def svc_bind_Inr exchange_Inr split: if_splits)

lemma payload_Inr:
  assumes "client_payload A C q w = (Inr doc, w')"
  obtains r where "route A (aw_calls w) q (aw_db w) = (Inr r, aw_db w')" "body_json (hs_body r) = Inr (JObj doc)"
proof -
  obtain b where b: "client_request A C q w = (Inr b, w')" "protocol_guard (res_bind (body_json b) as_mapping) = Inr doc"
    using assms by (auto simp: client_payload_def svc_bind_Inr)
  have "body_json b = Inr (JObj doc)"
    using b(2) by (auto simp: protocol_guard_iff as_mapping_Inr res_bind_eq_Inr)
  then show thesis using b(1) that by (auto elim: request_Inr)
qed

text \<open>What a version document tells, whether or not it can be read completely.\<close>

lemma read_version_facts:
  assumes "read_version U cv (version_response r0) = Inr r"
  shows "vsr_id r = vsr_id r0 \<and> vsr_state r = vsr_state r0 \<and> vsr_manifest_sha r = vsr_manifest_sha r0"
proof -
  have eq: "read_version U cv (version_response r0)
     = protocol_guard
         (res_bind (parse_reference U (reference_str (version_reference r0))) (\<lambda>reference.
          res_bind (mk_digest (digest_value (vsr_manifest_sha r0))) (\<lambda>sha.
            Inr (r0\<lparr>vsr_dataset_name := dr_dataset reference, vsr_number := dr_version_number reference,
                    vsr_manifest_sha := sha, vsr_failure_code := None, vsr_failure_detail := None\<rparr>))))"
    by (cases r0) (simp add: read_version_def version_response_def item_simps)
  show ?thesis using assms unfolding eq protocol_guard_iff by (auto simp: res_bind_eq_Inr mk_digest_Inr)
qed

lemma version_call_Inr:
  assumes "reading (read_version U cv) (client_payload A C q) w = (Inr r, w')"
    and "\<And>x d'. route A (aw_calls w) q (aw_db w) = (Inr x, d') \<Longrightarrow> \<exists>status r0. x = json_response status (version_response r0) \<and> P r0 d'"
  shows "\<exists>r0. P r0 (aw_db w') \<and> vsr_id r = vsr_id r0 \<and> vsr_state r = vsr_state r0 \<and> vsr_manifest_sha r = vsr_manifest_sha r0"
proof -
  obtain doc where d: "client_payload A C q w = (Inr doc, w')" "read_version U cv doc = Inr r"
    using assms(1) by (auto simp: reading_def svc_bind_Inr)
  from d(1) obtain x where x: "route A (aw_calls w) q (aw_db w) = (Inr x, aw_db w')" "body_json (hs_body x) = Inr (JObj doc)"
    by (rule payload_Inr)
  obtain status r0 where "x = json_response status (version_response r0)" "P r0 (aw_db w')"
    using assms(2) [OF x(1)] by blast
  moreover then have "doc = version_response r0" using x(2) by (simp add: json_response_def body_json_def)
  ultimately show ?thesis using read_version_facts [of U cv r0 r] d(2) by blast
qed

section \<open>Records tell the truth\<close>

definition tells :: "db \<Rightarrow> version_record \<Rightarrow> bool" where
  "tells d r =
     (\<exists>v. get_version d (vsr_id r) = Some v \<and> dv_state v = vsr_state r
        \<and> dv_manifest_sha v = digest_value (vsr_manifest_sha r))"

lemma to_version_record_Inr:
  "to_version_record U v name = Inr r \<Longrightarrow>
     vsr_id r = dv_id v \<and> vsr_state r = dv_state v \<and> digest_value (vsr_manifest_sha r) = dv_manifest_sha v"
  by (auto simp: to_version_record_def res_bind_eq_Inr mk_digest_Inr)

lemma tellsI:
  "to_version_record U v name = Inr r \<Longrightarrow> get_version d (dv_id v) = Some v \<Longrightarrow> tells d r"
  using to_version_record_Inr [of U v name r] by (auto simp: tells_def)

lemma tells_versions: "db_versions d' = db_versions d \<Longrightarrow> tells d' r = tells d r"
  by (simp add: tells_def get_version_def)

lemma register_tells:
  assumes "register_version U e ds m key q d = Inr (r, d')" "committed d"
  shows "tells d' r"
proof -
  have w: "wf_db d" using assms(2) by (simp add: committed_def)
  have known: "get_version d (dv_id v) = Some v" if "v \<in> set (db_versions d)" for v
    using that w tab_get_distinct by (auto simp: get_version_def wf_db_def keys_ok_def)
  obtain canonical where r: "register_transaction U e ds canonical key q d = Inr (r, d')"
    using assms(1) by (auto simp: register_version_def res_bind_eq_Inr split: if_splits)
  then obtain v name d1 where v: "to_version_record U v name = Inr r" "get_version d1 (dv_id v) = Some v"
      "db_versions d' = db_versions d1"
  proof (cases "get_idem d VERSION_REGISTER key")
    case None
    then obtain v name d1 where f: "find_or_seal_version e ds canonical d = Inr (v, d1)"
        "to_version_record U v name = Inr r" "db_versions d' = db_versions d1"
      using r by (auto simp: register_transaction_def insert_idem_def res_bind_eq_Inr commit_Inr
          split: if_splits option.splits)
    have "get_version d1 (dv_id v) = Some v"
      using f(1) known seal_new_version_Inr(2) [OF _ w]
      by (auto simp: find_or_seal_version_def find_Some_iff split: option.splits)
    then show thesis using f that by blast
  next
    case (Some replay)
    then obtain i v name where "get_version d i = Some v" "to_version_record U v name = Inr r"
        "db_versions d' = db_versions d"
      using r by (auto simp: register_transaction_def res_bind_eq_Inr commit_Inr split: if_splits option.splits)
    then show thesis using that known get_id(2) by metis
  qed
  then show ?thesis using tellsI tells_versions by blast
qed

lemma finalize_tells:
  assumes "finalize_version U e i d = Inr (r, d')" "committed d"
  shows "tells d' r"
proof -
  obtain v name d1 where v: "to_version_record U v name = Inr r" "get_version d1 (dv_id v) = Some v"
      "db_versions d' = db_versions d1"
  proof -
    obtain version dataset where g: "get_version d i = Some version" "get_dataset d (dv_dataset_id version) = Some dataset"
      using assms(1) by (auto simp: finalize_version_def split: option.splits)
    show thesis
    proof (cases "dv_state version = V_READY")
      case True
      then show thesis
        using assms(1) g get_id(2) [OF g(1)] that [of version "ds_name dataset" d]
        by (auto simp: finalize_version_def res_bind_eq_Inr commit_Inr)
    next
      case False
      then obtain v d1 d2 where "update_version v d1 = Inr d2" "to_version_record U v (ds_name dataset) = Inr r"
          "db_versions d' = db_versions d2"
        using assms(1) g by (auto simp: finalize_version_def res_bind_eq_Inr Let_def commit_Inr split: if_splits)
      moreover have "get_version d2 (dv_id v) = Some v"
        using calculation(1) get_id(2) by (auto elim!: update_version_Inr simp: get_version_def tab_get_put) (metis imageI)
      ultimately show thesis using that by blast
    qed
  qed
  then show ?thesis using tellsI tells_versions by blast
qed

section \<open>The service keeps the contract of a control plane\<close>

definition published :: "db \<Rightarrow> uuid \<Rightarrow> sha256_digest \<Rightarrow> bool" where
  "published d i sha =
     (\<exists>v. get_version d i = Some v \<and> dv_state v = V_READY \<and> dv_manifest_sha v = digest_value sha
        \<and> blobs_available d i)"

lemma committed_later: "later U d d' \<Longrightarrow> committed d \<Longrightarrow> committed d'"
  using later_evolves by blast

lemma ready_available:
  "committed d \<Longrightarrow> get_version d i = Some v \<Longrightarrow> dv_state v = V_READY \<Longrightarrow> blobs_available d i"
  using get_id(2) [of d i v] by (auto simp: committed_def ready_ok_def)

lemma published_later:
  assumes "later U d d'" "committed d" "published d i sha"
  shows "published d' i sha"
proof -
  obtain v where v: "get_version d i = Some v" "dv_state v = V_READY" "dv_manifest_sha v = digest_value sha"
    using assms(3) by (auto simp: published_def)
  then have "get_version d' i = Some v"
    using later_get(1) [OF assms(1,2) v(1)] by (auto simp: version_evolves_def)
  then show ?thesis
    using v ready_available [OF committed_later [OF assms(1,2)]] by (auto simp: published_def)
qed

lemma tells_published: "tells d r \<Longrightarrow> committed d \<Longrightarrow> vsr_state r = V_READY \<Longrightarrow> published d (vsr_id r) (vsr_manifest_sha r)"
  using ready_available by (auto simp: tells_def published_def)

lemma transact_Inr: "transact f d = (Inr x, d') \<longleftrightarrow> f d = Inr (x, d')"
  by (auto simp: transact_def split: sum.splits prod.splits)

lemma route_register:
  assumes "route A k (RegisterVersion ds schema es key) d = (Inr x, d')" "committed d"
  shows "\<exists>status r0. x = json_response status (version_response r0) \<and> committed d' \<and> tells d' r0"
  using assms register_tells step_committed [OF do_register_version]
  by (auto simp: post_version_def checked_Inr replying_Inr svc_register_version_def transact_Inr) blast

lemma route_finalize:
  assumes "route A k (FinalizeVersion v) d = (Inr x, d')" "committed d"
  shows "\<exists>status r0. x = json_response status (version_response r0) \<and> committed d' \<and> tells d' r0"
  using assms finalize_tells step_committed [OF do_finalize]
  by (auto simp: post_finalize_def checked_Inr replying_Inr svc_finalize_def transact_Inr) blast

lemma version_call_published:
  assumes "reading (read_version U cv) (client_payload A C q) w = (Inr r, w')" "committed (aw_db w)"
    and "\<And>k d x d'. route A k q d = (Inr x, d') \<Longrightarrow> committed d
      \<Longrightarrow> \<exists>status r0. x = json_response status (version_response r0) \<and> committed d' \<and> tells d' r0"
    and "vsr_state r = V_READY"
  shows "published (aw_db w') (vsr_id r) (vsr_manifest_sha r)"
proof -
  have "\<exists>r0. (committed (aw_db w') \<and> tells (aw_db w') r0) \<and> vsr_id r = vsr_id r0
      \<and> vsr_state r = vsr_state r0 \<and> vsr_manifest_sha r = vsr_manifest_sha r0"
    by (rule version_call_Inr [OF assms(1)]) (use assms(2,3) in blast)
  then show ?thesis using tells_published assms(4) by auto
qed

interpretation service: registry_port "service_plane A C" "\<lambda>w. committed (aw_db w)" "advances A"
    "\<lambda>w. published (aw_db w)" for A C
proof unfold_locales
  show "advances A w w" for w by (rule advances_refl)
  show "advances A w w' \<Longrightarrow> advances A w' w'' \<Longrightarrow> advances A w w''" for w w' w'' by (rule advances_trans)
  show "advances A w w' \<Longrightarrow> committed (aw_db w) \<Longrightarrow> committed (aw_db w')" for w w'
    unfolding advances_def by (rule committed_later)
  show "advances A w w' \<Longrightarrow> committed (aw_db w) \<Longrightarrow> published (aw_db w) v sha \<Longrightarrow> published (aw_db w') v sha" for w w' v sha
    unfolding advances_def by (rule published_later)
  show "published (aw_db w') (vsr_id r) (vsr_manifest_sha r)"
    if "committed (aw_db w)" "cp_register_version (service_plane A C) ds m key w = (Inr r, w')" "vsr_state r = V_READY"
    for w ds m key r w'
    using that(2) unfolding service_plane_def control_plane.simps client_register_version_def
    by (rule version_call_published [OF _ that(1) _ that(3)]) (erule (1) route_register)
  show "published (aw_db w') (vsr_id r) (vsr_manifest_sha r)"
    if "committed (aw_db w)" "cp_finalize (service_plane A C) v w = (Inr r, w')" "vsr_state r = V_READY"
    for w v r w'
    using that(2) unfolding service_plane_def control_plane.simps client_finalize_def
    by (rule version_call_published [OF _ that(1) _ that(3)]) (erule (1) route_finalize)
qed (simp_all add: service_plane_def client_call_defs reading_advances)

lemma push_published:
  assumes "committed (aw_db w)"
    and "push_run (service_plane A C) lp source dataset (w, l) = (Inr res, (w', l'))"
  obtains scanned l1 i where "lp_scan lp source l = (Inr scanned, l1)" "later (api_unicode A) (aw_db w) (aw_db w')"
    "\<And>d. later (api_unicode A) (aw_db w') d \<Longrightarrow> published d i (mf_sha256 (scd_manifest scanned))"
proof -
  obtain scanned l1 i where p: "lp_scan lp source l = (Inr scanned, l1)"
      "published (aw_db w') i (mf_sha256 (scd_manifest scanned))"
    using service.push_publishes [OF assms(2)] assms(1) by auto
  have "advances A w w'"
    using service.push_reach [OF advances_refl, of A "(w, l)" C lp source dataset] assms(2) by simp
  then have later: "later (api_unicode A) (aw_db w) (aw_db w')" by (simp add: advances_def)
  then show ?thesis using p published_later committed_later assms(1) that by blast
qed

text \<open>
  A push over the API publishes what it scanned: whatever the network loses and the object
  storage answers, when the push returns a result the registry has moved along its own operations
  to a state with a READY version of exactly the scanned manifest digest, whose contents are all
  AVAILABLE, and it stays published in every later state.
\<close>

theorem push_publishes_manifest:
  assumes "committed (aw_db w)"
    and "push_run (service_plane A C) lp source dataset (w, l) = (Inr res, (w', l'))"
  shows "\<exists>scanned l1 i. lp_scan lp source l = (Inr scanned, l1)
    \<and> later (api_unicode A) (aw_db w) (aw_db w')
    \<and> (\<forall>d. later (api_unicode A) (aw_db w') d \<longrightarrow> published d i (mf_sha256 (scd_manifest scanned)))"
  using assms by (rule push_published) blast

text \<open>
  From the files of a directory to the registry: after a push of a tree that nobody changes there is
  a READY version whose manifest digest is the one of the manifest built from exactly its files.
\<close>

theorem push_publishes_tree:
  assumes "committed (aw_db w)" "hst_view h (hst_calls h) root = tree_view rid k ts"
    and "plain_tree (scn_max_bytes S) ts" "0 < k"
    and "push_run (service_plane A C) (host_port S) root dataset (w, h) = (Inr res, (w', h'))"
  shows "\<exists>es m i. res_map (content_entry (scn_unicode S)) (tree_files [] ts) = Inr es \<and> build (scn_unicode S) es = Inr m
    \<and> (\<forall>d. later (api_unicode A) (aw_db w') d \<longrightarrow> published d i (mf_sha256 m))"
proof -
  obtain scanned l1 i where p: "lp_scan (host_port S) root h = (Inr scanned, l1)"
      "later (api_unicode A) (aw_db w) (aw_db w')" "\<And>d. later (api_unicode A) (aw_db w') d \<Longrightarrow> published d i (mf_sha256 (scd_manifest scanned))"
    using push_published [OF assms(1,5)] by blast
  have "scan S root (tree_view rid k ts) = Inr scanned" using p(1) assms(2) by (simp add: host_port_def)
  then have "res_bind (res_map (content_entry (scn_unicode S)) (tree_files [] ts)) (build (scn_unicode S))
      = Inr (scd_manifest scanned)"
    using scan_unchanged [OF assms(3,4), of root rid] by simp
  then show ?thesis using p(3) by (auto simp: res_bind_eq_Inr)
qed

end
