(* ===== verification/Commands.thy ===== *)
theory Commands
  imports EndToEnd
begin

text \<open>
  The commands of the CLI (\<^verbatim>\<open>apps/cli/commands/datasets.py\<close>, \<^verbatim>\<open>apps/cli/output.py\<close>, \<^verbatim>\<open>apps/cli/main.py\<close>) over any
  control plane and local ports: what they print, and the exit code of the process. An exception
  that is no \<^verbatim>\<open>RoboLakeError\<close> leaves a command as it is.
\<close>

section \<open>Printing\<close>

datatype printed = Line ustr | Raw bytes

record outcome =
  oc_exit :: int
  oc_stdout :: "printed list"
  oc_stderr :: "ustr list"

definition render_action :: "error \<Rightarrow> ustr" where
  "render_action e =
     (case map_of
             [(''STORED_OBJECT_MISMATCH'', lit ''Contact the storage operator; automatic repair is disabled.''),
              (''UPLOAD_CONFLICT'', lit ''Rerun push to reconcile the deterministic object key.''),
              (''API_UNAVAILABLE'', lit ''Retry after the RoboLake API is reachable.''),
              (''NOT_FOUND'', lit ''Check the Dataset reference and retry.'')]
             (case error_code e of None \<Rightarrow> '''' | Some c \<Rightarrow> c) of
        None \<Rightarrow> lit ''Operation stopped safely.''
      | Some action \<Rightarrow> action)"

definition render_error :: "error \<Rightarrow> ustr" where
  "render_error e =
     lit ''Error ['' @ lit (case error_code e of None \<Rightarrow> '''' | Some c \<Rightarrow> c) @ lit '']: '' @ render_action e"

definition progress_text :: "progress_kind \<Rightarrow> ustr" where
  "progress_text k =
     (case k of
        PK_SCANNED \<Rightarrow> lit ''SCANNED'' | PK_UPLOADING \<Rightarrow> lit ''UPLOADING'' | PK_SKIPPED \<Rightarrow> lit ''SKIPPED''
      | PK_VERIFIED \<Rightarrow> lit ''VERIFIED'' | PK_FINALIZING \<Rightarrow> lit ''FINALIZING''
      | PK_DOWNLOADING \<Rightarrow> lit ''DOWNLOADING'' | PK_RESTORED \<Rightarrow> lit ''RESTORED'')"

definition render_progress :: "progress_event \<Rightarrow> ustr list" where
  "render_progress e =
     (if pev_kind e = PK_SCANNED then []
      else
        [progress_text (pev_kind e)
         @ (case pev_path e of None \<Rightarrow> [] | Some p \<Rightarrow> lit '' '' @ rp_value p)
         @ lit '': '' @ int_str (pev_resolved_count e) @ lit ''/'' @ int_str (pev_unique_count e) @ lit '' blobs (''
         @ int_str (pev_resolved_bytes e) @ lit ''/'' @ int_str (pev_unique_bytes e) @ lit '' unique bytes)''])"

section \<open>Commands\<close>

text \<open>\<^verbatim>\<open>except RoboLakeError\<close>: the error is printed and decides the exit code.\<close>

definition command :: "('a \<Rightarrow> outcome) \<Rightarrow> ('w, 'a) act \<Rightarrow> ('w, outcome) act" where
  "command render call w =
     (case call w of
        (Inr x, w') \<Rightarrow> (Inr (render x), w')
      | (Inl e, w') \<Rightarrow>
          (if is_domain_error e
           then (Inr \<lparr>oc_exit = exit_for_error e, oc_stdout = [], oc_stderr = [render_error e]\<rparr>, w')
           else (Inl e, w')))"

definition push_command ::
    "unicode \<Rightarrow> 'w control_plane \<Rightarrow> ('l, 'p, 'r) local_port \<Rightarrow> 'p \<Rightarrow> ustr \<Rightarrow> ('w \<times> 'l, outcome) act" where
  "push_command U cp lp source dataset =
     command
       (\<lambda>r. \<lparr>oc_exit = 0,
             oc_stdout = [Line (version_state_text (psh_state r) @ lit '' '' @ reference_str (psh_reference r))],
             oc_stderr = [lit ''Scanned '' @ int_str (psh_file_count r) @ lit '' files ('' @ int_str (psh_logical_bytes r)
                          @ lit '' bytes)'']\<rparr>)
       (svc_bind (answer (mk_dataset_name U dataset)) (\<lambda>name. push_run cp lp source name))"

definition render_status :: "version_status \<Rightarrow> ustr" where
  "render_status s =
     (let v = vst_version s; sn = vst_snapshot s; ct = vst_content s
      in lit ''State: '' @ version_state_text (vsr_state v)
         @ lit '', Snapshot: '' @ int_str (sns_ready_file_count sn) @ lit ''/'' @ int_str (sns_file_count sn)
         @ lit '' files ('' @ int_str (sns_ready_logical_bytes sn) @ lit ''/'' @ int_str (sns_logical_bytes sn)
         @ lit '' logical bytes), Content: '' @ int_str (cns_available_count ct) @ lit ''/'' @ int_str (cns_unique_count ct)
         @ lit '' blobs ('' @ int_str (cns_available_bytes ct) @ lit ''/'' @ int_str (cns_unique_bytes ct)
         @ lit '' unique bytes), Empty: '' @ (if version_is_empty v then lit ''yes'' else lit ''no''))"

definition status_command :: "unicode \<Rightarrow> 'w control_plane \<Rightarrow> ustr \<Rightarrow> ('w, outcome) act" where
  "status_command U cp reference =
     command (\<lambda>s. \<lparr>oc_exit = 0, oc_stdout = [Line (render_status s)], oc_stderr = []\<rparr>)
       (svc_bind (answer (parse_reference U reference)) (\<lambda>r.
          svc_bind (cp_resolve cp r) (\<lambda>version. cp_status cp (vsr_id version))))"

definition manifest_command :: "unicode \<Rightarrow> 'w control_plane \<Rightarrow> ustr \<Rightarrow> ('w, outcome) act" where
  "manifest_command U cp reference =
     command (\<lambda>m. \<lparr>oc_exit = 0, oc_stdout = [Raw (mf_canonical m)], oc_stderr = []\<rparr>)
       (svc_bind (answer (parse_reference U reference)) (\<lambda>r.
          svc_bind (cp_resolve cp r) (\<lambda>version. cp_manifest cp (vsr_id version))))"

text \<open>\<open>shown\<close> is the text of the output path as it was given.\<close>

definition pull_command ::
    "unicode \<Rightarrow> 'w control_plane \<Rightarrow> ('l, 'o, 't) tree_downloader \<Rightarrow> ustr \<Rightarrow> 'o \<Rightarrow> ustr \<Rightarrow> ('w \<times> 'l, outcome) act" where
  "pull_command U cp td reference out shown_path =
     command
       (\<lambda>r. \<lparr>oc_exit = 0,
             oc_stdout = [Line (lit ''RESTORED '' @ reference_str (plr_reference r) @ lit '' -> '' @ shown_path)],
             oc_stderr = []\<rparr>)
       (svc_bind (answer (parse_reference U reference)) (\<lambda>r. pull_run cp td r out))"

lemmas command_defs = push_command_def status_command_def manifest_command_def pull_command_def

section \<open>Exit codes\<close>

lemma exit_codes: "exit_for_error e \<in> {1, 2, 3, 4, 5}"
  by (simp add: exit_for_error_def)

lemma exit_nonzero [simp]: "exit_for_error e \<noteq> 0"
  by (simp add: exit_for_error_def)

text \<open>A command exits with 0 exactly when its call returned, and then prints what it rendered.\<close>

lemma command_exit:
  assumes "command render call w = (Inr oc, w')" "\<And>x. oc_exit (render x) = 0"
  shows "oc_exit oc = 0 \<longleftrightarrow> (\<exists>x. call w = (Inr x, w') \<and> oc = render x)"
  using assms by (auto simp: command_def split: prod.splits sum.splits if_splits)

lemma command_fails:
  assumes "command render call w = (Inr oc, w')" "oc_exit oc \<noteq> 0" "\<And>x. oc_exit (render x) = 0"
  shows "oc_stdout oc = [] \<and> (\<exists>e. call w = (Inl e, w') \<and> is_domain_error e \<and> oc_exit oc = exit_for_error e)"
  using assms by (auto simp: command_def split: prod.splits sum.splits if_splits)

text \<open>
  A push command over the API that exits with 0 has published the manifest it scanned, and a pull or
  manifest command that fails writes nothing to its output.
\<close>

theorem push_command_publishes:
  assumes "committed (aw_db w)" "push_command U (service_plane A C) lp source dataset (w, l) = (Inr oc, (w', l'))"
    and "oc_exit oc = 0"
  shows "\<exists>scanned l1 i. lp_scan lp source l = (Inr scanned, l1)
    \<and> published (aw_db w') i (mf_sha256 (scd_manifest scanned))"
proof -
  obtain res where "svc_bind (answer (mk_dataset_name U dataset)) (\<lambda>name. push_run (service_plane A C) lp source name) (w, l)
      = (Inr res, (w', l'))"
    using command_exit [OF assms(2) [unfolded push_command_def]] assms(3) by auto
  then obtain name where "push_run (service_plane A C) lp source name (w, l) = (Inr res, (w', l'))"
    by (auto simp: svc_bind_Inr)
  from push_published [OF assms(1) this] show ?thesis using later.now by metis
qed

end
