(* ===== verification/Boundary.thy ===== *)
theory Boundary
  imports Wire
begin

text \<open>
  The edge of the API: the limit on request bodies (\<^verbatim>\<open>apps/api/middleware/body_limit.py\<close>), the health of
  the dependencies (\<^verbatim>\<open>robolake/application/health.py\<close>) and the system routes (\<^verbatim>\<open>apps/api/routes/system.py\<close>).
\<close>

section \<open>The body limit\<close>

text \<open>
  What the server hands the application, message by message. A client may send for ever, so the
  middleware may not end: then \<open>buffer_body\<close> has no value.
\<close>

datatype asgi_message = HttpRequest bytes bool | HttpDisconnect | OtherMessage

partial_function (option) buffer_body ::
    "nat \<Rightarrow> (nat \<Rightarrow> asgi_message) \<Rightarrow> nat \<Rightarrow> nat \<Rightarrow> asgi_message list \<Rightarrow> asgi_message list option option" where
  "buffer_body limit receive i received buffered =
     (case receive i of
        HttpRequest body more_body \<Rightarrow>
          (if limit < received + length body then Some None
           else if \<not> more_body then Some (Some (buffered @ [receive i]))
           else buffer_body limit receive (i + 1) (received + length body) (buffered @ [receive i]))
      | HttpDisconnect \<Rightarrow> Some (Some (buffered @ [receive i]))
      | OtherMessage \<Rightarrow> buffer_body limit receive (i + 1) received (buffered @ [receive i]))"

definition replay_receive :: "asgi_message list \<Rightarrow> nat \<Rightarrow> asgi_message" where
  "replay_receive buffered k = (if k < length buffered then buffered ! k else HttpDisconnect)"

text \<open>\<open>None\<close>: the middleware waits for ever; otherwise the answer, of the application or 413.\<close>

definition body_limit :: "nat \<Rightarrow> 'r \<Rightarrow> bool \<Rightarrow> (nat \<Rightarrow> asgi_message) \<Rightarrow> ((nat \<Rightarrow> asgi_message) \<Rightarrow> 'r) \<Rightarrow> 'r option" where
  "body_limit limit too_large is_http receive app =
     (if \<not> is_http then Some (app receive)
      else map_option (\<lambda>b. case b of None \<Rightarrow> too_large | Some buffered \<Rightarrow> app (replay_receive buffered))
             (buffer_body limit receive 0 0 []))"

definition too_large_response :: document where
  "too_large_response =
     [(lit ''error'', JObj
        [(lit ''code'', JStr (lit ''REQUEST_BODY_TOO_LARGE'')),
         (lit ''message'', JStr (lit ''Request body exceeds the manifest protocol limit.'')),
         (lit ''next_action'', JNull)])]"

text \<open>What the messages up to the \<open>n\<close>-th carry, and where a body ends.\<close>

fun body_bytes :: "asgi_message \<Rightarrow> bytes" where
  "body_bytes (HttpRequest body more_body) = body"
| "body_bytes _ = []"

fun ends_body :: "asgi_message \<Rightarrow> bool" where
  "ends_body (HttpRequest body more_body) = (\<not> more_body)"
| "ends_body HttpDisconnect = True"
| "ends_body OtherMessage = False"

definition carried :: "(nat \<Rightarrow> asgi_message) \<Rightarrow> nat \<Rightarrow> nat" where
  "carried receive n = length (concat (map (\<lambda>k. body_bytes (receive k)) [0..<n]))"

lemma carried_Suc: "carried receive (Suc n) = carried receive n + length (body_bytes (receive n))"
  by (simp add: carried_def)

lemma carried_0 [simp]: "carried receive 0 = 0"
  by (simp add: carried_def)

lemma carried_mono: "m \<le> n \<Longrightarrow> carried receive m \<le> carried receive n"
  by (induction n rule: dec_induct) (simp_all add: carried_Suc)

text \<open>The loop has consumed the messages before \<open>i\<close>; \<open>n\<close> is the first message that ends the body.\<close>

lemma buffer_body_steps:
  assumes "i \<le> n" "\<forall>k<n. \<not> ends_body (receive k)" "carried receive i \<le> limit"
  shows "ends_body (receive n) \<Longrightarrow> carried receive (Suc n) \<le> limit \<Longrightarrow>
      buffer_body limit receive i (carried receive i) (map receive [0..<i]) = Some (Some (map receive [0..<Suc n]))"
    and "limit < carried receive (Suc n) \<Longrightarrow> carried receive n \<le> limit \<Longrightarrow>
      buffer_body limit receive i (carried receive i) (map receive [0..<i]) = Some None"
proof -
  have step: "buffer_body limit receive j (carried receive j) (map receive [0..<j])
      = buffer_body limit receive (Suc j) (carried receive (Suc j)) (map receive [0..<Suc j])"
    if "j < n" "carried receive n \<le> limit" for j
  proof -
    have "\<not> ends_body (receive j)" "carried receive (Suc j) \<le> limit"
      using assms(2) that carried_mono [of "Suc j" n receive] by auto
    then show ?thesis
      by (cases "receive j") (subst buffer_body.simps, simp add: carried_Suc)+
  qed
  have walk: "buffer_body limit receive i (carried receive i) (map receive [0..<i])
      = buffer_body limit receive n (carried receive n) (map receive [0..<n])" if "carried receive n \<le> limit"
    using assms(1) by (induction i rule: inc_induct) (use step that in auto)
  show "buffer_body limit receive i (carried receive i) (map receive [0..<i]) = Some (Some (map receive [0..<Suc n]))"
    if "ends_body (receive n)" "carried receive (Suc n) \<le> limit"
    using walk that carried_mono [of n "Suc n" receive]
    by (cases "receive n") (auto simp: carried_Suc buffer_body.simps [of limit receive n])
  show "buffer_body limit receive i (carried receive i) (map receive [0..<i]) = Some None"
    if "limit < carried receive (Suc n)" "carried receive n \<le> limit"
    using walk that by (cases "receive n") (auto simp: carried_Suc buffer_body.simps [of limit receive n])
qed

text \<open>
  A body that ends within the limit reaches the application unchanged, message by message; a body
  that exceeds it is answered with 413 at the first message too many, whatever follows and without
  a call of the application.
\<close>

theorem body_limit_exact:
  assumes "\<forall>k<n. \<not> ends_body (receive k)"
  shows "ends_body (receive n) \<Longrightarrow> carried receive (Suc n) \<le> limit \<Longrightarrow>
      body_limit limit too_large True receive app
        = Some (app (\<lambda>k. if k \<le> n then receive k else HttpDisconnect))"
    and "carried receive n \<le> limit \<Longrightarrow> limit < carried receive (Suc n) \<Longrightarrow>
      body_limit limit too_large True receive app = Some too_large"
proof -
  have "replay_receive (map receive [0..<Suc n]) = (\<lambda>k. if k \<le> n then receive k else HttpDisconnect)"
    by (auto simp: replay_receive_def fun_eq_iff less_Suc_eq_le simp del: upt_Suc)
  then show "ends_body (receive n) \<Longrightarrow> carried receive (Suc n) \<le> limit \<Longrightarrow>
      body_limit limit too_large True receive app
        = Some (app (\<lambda>k. if k \<le> n then receive k else HttpDisconnect))"
    using buffer_body_steps(1) [OF _ assms, of 0 limit] by (simp add: body_limit_def)
  show "carried receive n \<le> limit \<Longrightarrow> limit < carried receive (Suc n) \<Longrightarrow>
      body_limit limit too_large True receive app = Some too_large"
    using buffer_body_steps(2) [OF _ assms, of 0 limit] by (simp add: body_limit_def)
qed

section \<open>Health\<close>

datatype component_status = COMPONENT_OK | COMPONENT_DOWN

datatype overall_status = OVERALL_OK | OVERALL_DEGRADED

record health_report =
  hrp_status :: overall_status
  hrp_components :: "(ustr \<times> component_status) list"

text \<open>A probe has a name and either returns or raises an exception of any class.\<close>

record health_probe =
  hpr_name :: ustr
  hpr_check :: "unit res"

fun run_probes :: "health_probe list \<Rightarrow> health_report \<Rightarrow> health_report" where
  "run_probes [] r = r"
| "run_probes (p # ps) r =
     run_probes ps
       (case hpr_check p of
          Inl e \<Rightarrow> \<lparr>hrp_status = OVERALL_DEGRADED,
                   hrp_components = dict_set (hpr_name p) COMPONENT_DOWN (hrp_components r)\<rparr>
        | Inr _ \<Rightarrow> r\<lparr>hrp_components := dict_set (hpr_name p) COMPONENT_OK (hrp_components r)\<rparr>)"

definition check_health :: "health_probe list \<Rightarrow> health_report" where
  "check_health probes =
     run_probes probes \<lparr>hrp_status = OVERALL_OK, hrp_components = [(lit ''application'', COMPONENT_OK)]\<rparr>"

definition component_text :: "component_status \<Rightarrow> ustr" where
  "component_text c = (case c of COMPONENT_OK \<Rightarrow> lit ''ok'' | COMPONENT_DOWN \<Rightarrow> lit ''down'')"

text \<open>The route answers 503 for a degraded service.\<close>

definition health_check :: "health_probe list \<Rightarrow> int \<times> document" where
  "health_check probes =
     (let r = check_health probes
      in (if hrp_status r = OVERALL_DEGRADED then 503 else 200,
          [(lit ''status'', JStr (case hrp_status r of OVERALL_OK \<Rightarrow> lit ''ok'' | OVERALL_DEGRADED \<Rightarrow> lit ''degraded'')),
           (lit ''components'', JObj (map (\<lambda>(k, c). (k, JStr (component_text c))) (hrp_components r)))]))"

definition service_info :: document where
  "service_info =
     [(lit ''name'', JStr (lit ''RoboLake'')), (lit ''status'', JStr (lit ''running'')),
      (lit ''version'', JStr (lit ''0.1.0''))]"

lemma map_of_dict_set: "map_of (dict_set k v d) = (map_of d)(k \<mapsto> v)"
  by (induction k v d rule: dict_set.induct) auto

lemma run_probes_status:
  "hrp_status (run_probes ps r) = OVERALL_DEGRADED
     \<longleftrightarrow> hrp_status r = OVERALL_DEGRADED \<or> (\<exists>p \<in> set ps. \<exists>e. hpr_check p = Inl e)"
  by (induction ps r rule: run_probes.induct) (auto split: sum.splits)

lemma run_probes_other:
  "k \<notin> hpr_name ` set ps \<Longrightarrow> map_of (hrp_components (run_probes ps r)) k = map_of (hrp_components r) k"
  by (induction ps r rule: run_probes.induct) (auto simp: map_of_dict_set split: sum.splits)

lemma run_probes_component:
  assumes "distinct (map hpr_name ps)" "p \<in> set ps"
  shows "map_of (hrp_components (run_probes ps r)) (hpr_name p)
    = Some (case hpr_check p of Inl e \<Rightarrow> COMPONENT_DOWN | Inr _ \<Rightarrow> COMPONENT_OK)"
  using assms
proof (induction ps r rule: run_probes.induct)
  case (2 q ps r)
  then show ?case
    by (cases "p = q") (auto simp: run_probes_other map_of_dict_set split: sum.splits)
qed simp

text \<open>The service answers 200 exactly when every probe returned, and each probe is reported as it went.\<close>

theorem health_tells_every_probe:
  "fst (health_check probes) = 200 \<longleftrightarrow> (\<forall>p \<in> set probes. hpr_check p = Inr ())"
  "distinct (map hpr_name probes) \<Longrightarrow> p \<in> set probes \<Longrightarrow>
     map_of (hrp_components (check_health probes)) (hpr_name p)
       = Some (case hpr_check p of Inl e \<Rightarrow> COMPONENT_DOWN | Inr _ \<Rightarrow> COMPONENT_OK)"
proof -
  have "(\<exists>e. hpr_check p = Inl e) \<longleftrightarrow> hpr_check p \<noteq> Inr ()" for p
    by (cases "hpr_check p") auto
  then show "fst (health_check probes) = 200 \<longleftrightarrow> (\<forall>p \<in> set probes. hpr_check p = Inr ())"
    using run_probes_status [of probes] by (auto simp: health_check_def check_health_def Let_def)
qed (simp add: check_health_def run_probes_component)

end
