(* ===== verification/Restoring.thy ===== *)
theory Restoring
  imports EndToEnd
begin

text \<open>
  From one directory to another: a tree that was pushed over the API is what a later pull of that version
  restores, whatever happened to the registry in between and whatever the network lost.
\<close>

section \<open>What a pull learns from the service\<close>

lemma resolve_tells: "resolve_version U ref d = Inr r \<Longrightarrow> committed d \<Longrightarrow> tells d r"
proof -
  assume r: "resolve_version U ref d = Inr r" and c: "committed d"
  let ?rows = "concat (map (\<lambda>v. map (\<lambda>s. (v, ds_name s))
                              (filter (\<lambda>s. ds_id s = dv_dataset_id v
                                           \<and> ds_name s = dn_value (dr_dataset ref)) (db_datasets d)))
                     (filter (\<lambda>v. dv_number v = dr_version_number ref) (db_versions d)))"
  obtain v name where v: "?rows = [(v, name)]" "to_version_record U v name = Inr r"
    using r by (auto simp: resolve_version_def res_bind_eq_Inr one_or_none_def split: list.splits option.splits)
  have "(v, name) \<in> set ?rows" by (simp add: v(1))
  then have "v \<in> set (db_versions d)" by auto
  moreover have "distinct (map dv_id (db_versions d))"
    using c by (simp add: committed_def wf_db_def keys_ok_def)
  ultimately have "get_version d (dv_id v) = Some v" by (simp add: get_version_def tab_get_distinct)
  with v(2) show ?thesis by (rule tellsI)
qed

lemma resolve_call:
  assumes "client_resolve A C ref w = (Inr version, w')" "committed (aw_db w)"
    and "published (aw_db w) (vsr_id version) sha"
  shows "vsr_manifest_sha version = sha"
proof -
  have "\<exists>r0. (tells (aw_db w') r0 \<and> aw_db w' = aw_db w) \<and> vsr_id version = vsr_id r0 \<and> vsr_state version = vsr_state r0
      \<and> vsr_manifest_sha version = vsr_manifest_sha r0"
    using assms(1) unfolding client_resolve_def
    by (rule version_call_Inr)
       (use assms(2) in \<open>auto simp: get_resolved_version_def checked_Inr replying_Inr dest: resolve_tells\<close>)
  then show ?thesis
    using assms(3) by (auto simp: tells_def published_def intro: sha256_digest.expand)
qed

lemma parsed_manifest:
  assumes "unicode_laws U" "from_canonical_bytes U data = Inr m"
  shows "mf_canonical m = data \<and> built U m"
  using assms(2) from_payload_Inr [OF assms(1)]
  by (auto simp: from_canonical_bytes_def split: if_splits option.splits sum.splits)

section \<open>The files of a tree\<close>

definition restores_tree :: "unicode \<Rightarrow> path \<Rightarrow> (ustr list \<times> file_identity \<times> bytes) list \<Rightarrow> files \<Rightarrow> bool" where
  "restores_tree U out tree fs =
     ((\<forall>(parts, i, content) \<in> set tree. \<exists>p bs. mk_relative_path U (join_with 47 parts) = Inr p
         \<and> fs (out @ split_on 47 (rp_value p)) = Some (RegularFile bs)
         \<and> length bs = length content \<and> sha256_hex bs = sha256_hex content)
      \<and> (\<forall>r bs. fs (out @ r) = Some (RegularFile bs) \<longrightarrow>
           (\<exists>(parts, i, content) \<in> set tree. \<exists>p. mk_relative_path U (join_with 47 parts) = Inr p
              \<and> r = split_on 47 (rp_value p) \<and> length bs = length content \<and> sha256_hex bs = sha256_hex content)))"

lemma list_all2_mem:
  "list_all2 P xs ys \<Longrightarrow> x \<in> set xs \<Longrightarrow> \<exists>y \<in> set ys. P x y"
  "list_all2 P xs ys \<Longrightarrow> y \<in> set ys \<Longrightarrow> \<exists>x \<in> set xs. P x y"
  by (induction rule: list_all2_induct) auto

lemma content_entry_Inr:
  "content_entry U (parts, i, content) = Inr e \<longleftrightarrow>
     mk_relative_path U (join_with 47 parts) = Inr (me_path e) \<and> me_size e = int (length content)
     \<and> me_sha e = content_digest content"
  by (cases e) (auto simp: content_entry_def res_bind_eq_Inr)

lemma content_entries_wf:
  assumes "unicode_laws U" "res_map (content_entry U) tree = Inr es"
  shows "\<forall>e \<in> set es. wf_entry U e"
proof -
  have "wf_entry U e" if "content_entry U x = Inr e" for x e
  proof (cases x)
    case (fields parts i content)
    then show ?thesis
      using that mk_relative_path_wf(1) [OF assms(1)] by (auto simp: content_entry_Inr wf_entry_def)
  qed
  then show ?thesis using res_map_all [OF assms(2)] by blast
qed

lemma holds_tree:
  assumes "holds_files out (set (mf_entries m)) m fs" "set (mf_entries m) = set es"
    and "res_map (content_entry U) tree = Inr es"
  shows "restores_tree U out tree fs"
proof -
  have rel: "list_all2 (\<lambda>x e. content_entry U x = Inr e) tree es" using assms(3) by (simp add: res_map_eq_Inr)
  have ver: "length bs = length content \<and> sha256_hex bs = sha256_hex content"
    if "verified e bs" "content_entry U (parts, i, content) = Inr e" for e bs parts i content
    using that by (auto simp: verified_def content_entry_Inr content_digest_def)
  have "\<exists>p bs. mk_relative_path U (join_with 47 parts) = Inr p \<and> fs (out @ split_on 47 (rp_value p)) = Some (RegularFile bs)
      \<and> length bs = length content \<and> sha256_hex bs = sha256_hex content"
    if x: "(parts, i, content) \<in> set tree" for parts i content
  proof -
    obtain e where e: "e \<in> set es" "content_entry U (parts, i, content) = Inr e"
      using list_all2_mem(1) [OF rel x] by blast
    then obtain bs where "fs (out @ segments e) = Some (RegularFile bs)" "verified e bs"
      using assms(1,2) by (auto simp: holds_files_def)
    then show ?thesis using ver e(2) by (auto simp: segments_def content_entry_Inr)
  qed
  moreover have "\<exists>(parts, i, content) \<in> set tree. \<exists>p. mk_relative_path U (join_with 47 parts) = Inr p
      \<and> r = split_on 47 (rp_value p) \<and> length bs = length content \<and> sha256_hex bs = sha256_hex content"
    if "fs (out @ r) = Some (RegularFile bs)" for r bs
  proof -
    have "\<exists>e \<in> set es. r = segments e \<and> verified e bs"
      using assms(1) that unfolding holds_files_def assms(2) by (elim conjE) (drule spec, drule spec, erule mp)
    then obtain e where e: "e \<in> set es" "r = segments e" "verified e bs" by blast
    then obtain x where x: "x \<in> set tree" "content_entry U x = Inr e"
      using list_all2_mem(2) [OF rel e(1)] by blast
    obtain parts i content where "x = (parts, i, content)" by (cases x)
    then show ?thesis
      using x e(2) ver [OF e(3)] by (intro bexI [of _ x]) (auto simp: segments_def content_entry_Inr)
  qed
  ultimately show ?thesis unfolding restores_tree_def by blast
qed

section \<open>Pulling what was pushed\<close>

text \<open>
  The manifest that the client reads has the digest of the pushed one. When it has its bytes too, the
  output holds the pushed files: \<open>sent\<close> is the manifest the API sent.
\<close>

lemma pull_restores:
  assumes "unicode_laws U" "from_canonical_bytes U (mf_canonical m) = Inr m"
    and "restored U f out sent l'" "mf_canonical sent = mf_canonical m"
    and "res_map (content_entry U) tree = Inr es" "set (mf_entries m) = set es"
  shows "restores_tree U out tree (lw_files l')"
  using assms(2-4) holds_tree [OF _ assms(6,5)] by (auto simp: restored_def)

lemma pull_call:
  assumes "tree_idle U l" "pull_run (service_plane A C) (atomic_tree U host) reference out (w, l) = (Inr got, (w', l'))"
    and "committed (aw_db w)" "unicode_laws (api_unicode A)" "cl_unicode C = api_unicode A"
  obtains version w1 sent where "client_resolve A C reference w = (Inr version, w1)"
    "published (aw_db w) (vsr_id version) sha \<Longrightarrow> mf_sha256 sent = sha"
    "mf_sha256 sent = content_digest (mf_canonical sent)" "restored U (lw_files l) out sent l'"
proof -
  obtain version sent w1 w2 where v: "client_resolve A C reference w = (Inr version, w1)"
      "client_manifest A C (vsr_id version) w1 = (Inr sent, w2)" "mf_sha256 sent = vsr_manifest_sha version"
      "restored U (lw_files l) out sent l'"
    using atomic.pull_outcome [OF assms(1,2)] by (auto simp: service_plane_def)
  obtain data where "from_canonical_bytes (api_unicode A) data = Inr sent"
    using v(2) assms(5) by (auto simp: client_manifest_def svc_bind_Inr)
  then have "mf_sha256 sent = content_digest (mf_canonical sent)"
    using parsed_manifest [OF assms(4)] by (auto simp: built_def)
  then show thesis using that v resolve_call [OF v(1) assms(3)] by metis
qed

text \<open>
  C1: A directory that is pushed comes back. A push of a quiet tree over the API that returns has
  published a version of the manifest built from exactly its files. It stays published, and every
  later pull of that version over the API that returns, by any client and after any history of the
  registry, restores exactly the regular files of the tree, at their normalised paths, with the length
  and the SHA-256 digest of their contents; the only escape is a manifest the API sent that is another
  text with the same SHA-256 digest.
\<close>

theorem pushed_tree_is_restored:
  assumes "unicode_laws (api_unicode A)" "scn_unicode S = api_unicode A" "committed (aw_db w)"
    and "hst_view h (hst_calls h) root = tree_view rid k ts" "plain_tree (scn_max_bytes S) ts" "0 < k"
    and "push_run (service_plane A C) (host_port S) root dataset (w, h) = (Inr res, (w', h'))"
  shows "\<exists>es m i. res_map (content_entry (api_unicode A)) (tree_files [] ts) = Inr es \<and> build (api_unicode A) es = Inr m
    \<and> (\<forall>d. later (api_unicode A) (aw_db w') d \<longrightarrow> published d i (mf_sha256 m))
    \<and> (\<forall>C' host reference out w2 l got w3 l'.
         later (api_unicode A) (aw_db w') (aw_db w2) \<longrightarrow> cl_unicode C' = api_unicode A \<longrightarrow> tree_idle (api_unicode A) l \<longrightarrow>
         pull_run (service_plane A C') (atomic_tree (api_unicode A) host) reference out (w2, l) = (Inr got, (w3, l')) \<longrightarrow>
         (\<exists>version w4 sent. client_resolve A C' reference w2 = (Inr version, w4)
            \<and> restored (api_unicode A) (lw_files l) out sent l'
            \<and> (vsr_id version = i \<longrightarrow> sha256_hex (mf_canonical sent) = sha256_hex (mf_canonical m)
                 \<and> (mf_canonical sent = mf_canonical m \<longrightarrow>
                      restores_tree (api_unicode A) out (tree_files [] ts) (lw_files l')))))"
proof -
  let ?U = "api_unicode A"
  obtain es m i where m: "res_map (content_entry ?U) (tree_files [] ts) = Inr es" "build ?U es = Inr m"
      "\<forall>d. later ?U (aw_db w') d \<longrightarrow> published d i (mf_sha256 m)"
    using push_publishes_tree [OF assms(3-7)] assms(2) by auto
  have entries: "set (mf_entries m) = set es" "mf_sha256 m = content_digest (mf_canonical m)"
    using build_Inr [OF m(2)] by (auto simp: built_def)
  have canonical: "from_canonical_bytes ?U (mf_canonical m) = Inr m"
    using build_Inr [OF m(2)] content_entries_wf [OF assms(1) m(1)] by (intro from_canonical_built) auto
  have c: "committed (aw_db w')"
    using push_published [OF assms(3,7)] committed_later assms(3) by metis
  show ?thesis
  proof (intro exI conjI)
    show "\<forall>C' host reference out w2 l got w3 l'.
         later ?U (aw_db w') (aw_db w2) \<longrightarrow> cl_unicode C' = ?U \<longrightarrow> tree_idle ?U l \<longrightarrow>
         pull_run (service_plane A C') (atomic_tree ?U host) reference out (w2, l) = (Inr got, (w3, l')) \<longrightarrow>
         (\<exists>version w4 sent. client_resolve A C' reference w2 = (Inr version, w4)
            \<and> restored ?U (lw_files l) out sent l'
            \<and> (vsr_id version = i \<longrightarrow> sha256_hex (mf_canonical sent) = sha256_hex (mf_canonical m)
                 \<and> (mf_canonical sent = mf_canonical m \<longrightarrow> restores_tree ?U out (tree_files [] ts) (lw_files l'))))"
    proof (intro allI impI)
      fix C' host reference out w2 l got w3 l'
      assume p: "later ?U (aw_db w') (aw_db w2)" "cl_unicode C' = ?U" "tree_idle ?U l"
        "pull_run (service_plane A C') (atomic_tree ?U host) reference out (w2, l) = (Inr got, (w3, l'))"
      obtain version w4 sent where v: "client_resolve A C' reference w2 = (Inr version, w4)"
          "published (aw_db w2) (vsr_id version) (mf_sha256 m) \<Longrightarrow> mf_sha256 sent = mf_sha256 m"
          "mf_sha256 sent = content_digest (mf_canonical sent)" "restored ?U (lw_files l) out sent l'"
        using pull_call [OF p(3,4) committed_later [OF p(1) c] assms(1) p(2)] by metis
      have "sha256_hex (mf_canonical sent) = sha256_hex (mf_canonical m)" if "vsr_id version = i"
        using v(2,3) m(3) p(1) entries(2) that by (simp add: content_digest_def)
      then show "\<exists>version w4 sent. client_resolve A C' reference w2 = (Inr version, w4)
            \<and> restored ?U (lw_files l) out sent l'
            \<and> (vsr_id version = i \<longrightarrow> sha256_hex (mf_canonical sent) = sha256_hex (mf_canonical m)
                 \<and> (mf_canonical sent = mf_canonical m \<longrightarrow> restores_tree ?U out (tree_files [] ts) (lw_files l')))"
        using v(1,4) pull_restores [OF assms(1) canonical v(4) _ m(1) entries(1)] by blast
    qed
  qed (use m in auto)
qed

section \<open>A push of one empty file\<close>

text \<open>A registry with one READY version of one empty file, and a client that pushes its directory again.\<close>

definition ready_version :: version_row where
  "ready_version = (new_version_row late_env 1 1 small_manifest)\<lparr>dv_sealed_at := Some 2, dv_state := V_READY\<rparr>"

definition ready_blob :: blob_row where
  "ready_blob =
     \<lparr>bl_id = 7, bl_sha = digest_value (me_sha empty_file), bl_size = 0,
      bl_object_key = key_of_sha (digest_value (me_sha empty_file)), bl_state = B_AVAILABLE, bl_failure_code = None,
      bl_failure_detail = None, bl_created_at = 1, bl_verified_at = None\<rparr>"

definition ready_db :: db where
  "ready_db =
     empty_db\<lparr>db_datasets := [sample_dataset], db_versions := [ready_version], db_blobs := [ready_blob],
              db_entries := [\<lparr>de_version_id = 6, de_ordinal = 0, de_path = lit ''a'', de_blob_id = 7\<rparr>]\<rparr>"

definition ready_record :: version_record where
  "ready_record = small_record\<lparr>vsr_id := 6, vsr_dataset_name := sample_name\<rparr>"

lemma ready_columns:
  "dv_id ready_version = 6" "dv_dataset_id ready_version = 1" "dv_state ready_version = V_READY"
  "dv_file_count ready_version = 1" "dv_logical_bytes ready_version = 0" "dv_unique_blob_count ready_version = 1"
  "dv_unique_blob_bytes ready_version = 0" "dv_sealed_at ready_version = Some 2" "dv_number ready_version = 1"
  "dv_manifest_sha ready_version = digest_value (mf_sha256 small_manifest)" "dv_failure_code ready_version = None"
  "dv_failure_detail ready_version = None" "dv_schema_version ready_version = 1"
  by (simp_all add: ready_version_def new_version_row_def small_totals) (simp add: small_manifest_def Let_def)

lemma small_sha: "sha_text (digest_value (mf_sha256 small_manifest))" "sha_text (digest_value (me_sha empty_file))"
  by (simp_all add: small_manifest_def Let_def content_digest_def digest_sha_text empty_file_def)

lemma ready_committed: "committed ready_db"
proof -
  have row: "check_version ready_version"
    using small_sha(1) by (simp add: check_version_def ready_columns int8_def)
  have blob: "check_blob ready_blob"
    using small_sha(2) by (simp add: check_blob_def ready_blob_def int8_def)
  have entry: "check_entry \<lparr>de_version_id = 6, de_ordinal = 0, de_path = lit ''a'', de_blob_id = 7\<rparr>"
    using sample_row_checks(2) by (simp add: check_entry_def sample_entry_def)
  have "wf_db ready_db"
    using row blob entry
    by (simp add: wf_db_def keys_ok_def unique_ok_def checks_ok_def refs_ok_def ready_db_def empty_db_def ready_columns)
       (simp add: ready_blob_def sample_dataset_def)
  moreover have "settled ready_db"
    by (simp add: settled_def sealed_or_queued_def published_or_queued_def publication_states_ok_def
        multipart_sessions_def sessions_of_def ready_db_def empty_db_def ready_columns)
  moreover have "ready_ok ready_db" "totals_ok ready_db"
    by (simp_all add: ready_ok_def blobs_available_def totals_ok_def ordinals_ok_def summaries_ok_def joined_def
        entries_of_def get_blob_def ready_db_def empty_db_def ready_columns) (simp_all add: ready_blob_def)
  ultimately show ?thesis by (simp add: committed_def) (simp add: ready_db_def empty_db_def)
qed

lemma idem_key_length:
  "length (make_idempotency_key operation fs) = length operation + 77"
  using content_digest_wf [of "concat (map frame_field fs)"]
  by (simp add: make_idempotency_key_def request_fingerprint_def wf_digest_iff lit_def)

definition named :: "ustr \<Rightarrow> sha256_digest \<Rightarrow> idem_row" where
  "named key q = dataset_idem key q sample_dataset 1"

lemma ready_create:
  assumes "wf_digest q" "length key \<le> 255"
  shows "create_dataset ascii_unicode late_env sample_name key q ready_db
    = Inr (\<lparr>dsr_id = 1, dsr_name = sample_name\<rparr>, ready_db\<lparr>db_idem := [named key q]\<rparr>)"
proof -
  have idem: "check_idem (named key q)" "guard_m2_idempotency (named key q)"
    using assms by (simp_all add: check_idem_def named_def dataset_idem_def varchar_def sha_text_wf int4_def
        guard_m2_idempotency_def m2_scopes_def)
  have none: "get_idem ready_db DATASET_CREATE key = None"
    by (simp add: get_idem_def ready_db_def empty_db_def)
  have found: "find_or_add_dataset late_env sample_name ready_db = Inr (sample_dataset, ready_db)"
    by (simp add: find_or_add_dataset_def ready_db_def sample_dataset_def sample_name_def)
  have rec: "to_dataset_record ascii_unicode sample_dataset = Inr \<lparr>dsr_id = 1, dsr_name = sample_name\<rparr>"
    using sample_name_wf by (simp add: to_dataset_record_def sample_dataset_def)
  have ins: "insert_idem (named key q) ready_db = Inr (ready_db\<lparr>db_idem := [named key q]\<rparr>)"
    using idem by (simp add: insert_idem_def ready_db_def empty_db_def)
  show ?thesis
    using none found rec ins
    by (simp add: create_dataset_def commit_def flip: named_def) (simp add: ready_db_def empty_db_def)
qed

lemma ready_register:
  assumes "wf_digest q" "length key \<le> 255"
  shows "\<exists>idem. register_version ascii_unicode late_env 1 small_manifest key q (ready_db\<lparr>db_idem := [named key0 q0]\<rparr>)
    = Inr (ready_record, ready_db\<lparr>db_idem := idem\<rparr>)"
proof -
  let ?d = "ready_db\<lparr>db_idem := [named key0 q0]\<rparr>"
  let ?row = "version_idem key q ready_version 3"
  have idem: "check_idem ?row" "guard_m2_idempotency ?row" "idem_key ?row \<noteq> idem_key (named key0 q0)"
    using assms by (simp_all add: check_idem_def version_idem_def varchar_def sha_text_wf int4_def
        guard_m2_idempotency_def m2_scopes_def idem_key_def named_def dataset_idem_def)
  have get: "get_dataset ?d 1 = Some sample_dataset" "get_idem ?d VERSION_REGISTER key = None"
    by (simp_all add: ready_db_def get_defs sample_dataset_def idem_key_def named_def dataset_idem_def)
  have found: "find_or_seal_version late_env 1 small_manifest ?d = Inr (ready_version, ?d)"
    by (simp add: find_or_seal_version_def ready_db_def ready_columns)
  have rec: "to_version_record ascii_unicode ready_version (ds_name sample_dataset) = Inr ready_record"
    using sha_text_parse [OF small_sha(1)] sample_name_wf
    by (simp add: to_version_record_def ready_columns ready_record_def small_record_def sample_dataset_def)
  have ins: "insert_idem ?row ?d = Inr (ready_db\<lparr>db_idem := [named key0 q0, ?row]\<rparr>)"
    using idem by (simp add: insert_idem_def)
  have "register_transaction ascii_unicode late_env 1 small_manifest key q ?d
      = Inr (ready_record, ready_db\<lparr>db_idem := [named key0 q0, ?row]\<rparr>)"
    using get found rec ins
    by (simp add: register_transaction_def small_totals commit_def) (simp add: ready_db_def empty_db_def)
  then show ?thesis by (auto simp: register_version_def small_parses)
qed

definition sample_api :: api where
  "sample_api =
     \<lparr>api_unicode = ascii_unicode, api_env = (\<lambda>_ _. late_env), api_objects = (\<lambda>_. sample_objects None),
      api_ttl = 900, api_chunk = 1, api_describe = (\<lambda>_. []), api_percent = (\<lambda>_ _. JNull)\<rparr>"

definition sample_client :: api_client where
  "sample_client =
     \<lparr>cl_unicode = ascii_unicode, cl_conv = strict_conversions, cl_delivery = (\<lambda>_. Delivered)\<rparr>"

definition small_host :: host where
  "small_host =
     \<lparr>hst_calls = 0, hst_view = (\<lambda>_ _. tree_view small_identity 1 small_tree), hst_reopening = (\<lambda>_ _. small_reopening),
      hst_exchange = (\<lambda>_ _. \<lparr>pex_pulls = 1, pex_answer = None\<rparr>), hst_sent = []\<rparr>"

text \<open>One delivered call of the sample client whose service call succeeds.\<close>

lemma sample_call:
  assumes "valid_request q" "route sample_api k q d = (Inr (json_response status doc), d')"
    and "200 \<le> status" "status \<le> 299" "f doc = Inr x"
  shows "reading f (client_payload sample_api sample_client q) \<lparr>aw_db = d, aw_calls = k\<rparr>
    = (Inr x, \<lparr>aw_db = d', aw_calls = k + 1\<rparr>)"
  using assms
  by (simp add: reading_def client_payload_def client_request_def exchange_def Let_def serve_def svc_bind_def
      sample_client_def json_response_def body_json_def as_mapping_def)

lemma sample_create_call:
  assumes "length key \<le> 255" "key \<noteq> []"
  shows "\<exists>q. cp_create_dataset (service_plane sample_api sample_client) sample_name key \<lparr>aw_db = ready_db, aw_calls = 0\<rparr>
    = (Inr \<lparr>dsr_id = 1, dsr_name = sample_name\<rparr>, \<lparr>aw_db = ready_db\<lparr>db_idem := [named key q]\<rparr>, aw_calls = 1\<rparr>)"
proof -
  let ?q = "request_fingerprint [[100]]"
  have "utf8_encode (dn_value sample_name) = Some [100]"
    by (simp add: sample_name_def utf8_encode_def utf8_char_def)
  moreover have "mk_dataset_name ascii_unicode (dn_value sample_name) = Inr sample_name"
    using sample_name_wf by (simp add: sample_name_def)
  ultimately have route: "route sample_api 0 (CreateDataset (dn_value sample_name) key) ready_db
      = (Inr (json_response 201 (dataset_response \<lparr>dsr_id = 1, dsr_name = sample_name\<rparr>)),
         ready_db\<lparr>db_idem := [named key ?q]\<rparr>)"
    using ready_create [OF request_fingerprint_wf assms(1)]
    by (simp add: sample_api_def post_dataset_def checked_def replying_def svc_create_dataset_def transact_def svc_bind_def)
  have valid: "valid_request (CreateDataset (dn_value sample_name) key)"
    using assms by (cases key) (simp_all add: valid_defs sample_name_def)
  have read: "read_dataset ascii_unicode strict_conversions (dataset_response \<lparr>dsr_id = 1, dsr_name = sample_name\<rparr>)
      = Inr \<lparr>dsr_id = 1, dsr_name = sample_name\<rparr>"
    using sample_name_wf by (simp add: read_dataset_response wf_name_def sample_name_def)
  have "reading (read_dataset ascii_unicode strict_conversions)
      (client_payload sample_api sample_client (CreateDataset (dn_value sample_name) key)) \<lparr>aw_db = ready_db, aw_calls = 0\<rparr>
      = (Inr \<lparr>dsr_id = 1, dsr_name = sample_name\<rparr>, \<lparr>aw_db = ready_db\<lparr>db_idem := [named key ?q]\<rparr>, aw_calls = 0 + 1\<rparr>)"
    using sample_call [OF valid route, where f = "read_dataset ascii_unicode strict_conversions"] read by simp
  then show ?thesis by (auto simp: service_plane_def client_create_dataset_def) (auto simp: sample_client_def)
qed

lemma small_entry_request: "parse_entry ascii_unicode (entry_request empty_file) = Inr empty_file"
  using empty_file_wf
  by (simp add: parse_entry_def entry_request_def wf_entry_def wf_path_def wf_digest_def mk_manifest_entry_def)

lemma sample_register_call:
  assumes "length key \<le> 255" "key \<noteq> []"
  shows "\<exists>idem. cp_register_version (service_plane sample_api sample_client) 1 small_manifest key
      \<lparr>aw_db = ready_db\<lparr>db_idem := [named key0 q0]\<rparr>, aw_calls = 1\<rparr>
    = (Inr ready_record, \<lparr>aw_db = ready_db\<lparr>db_idem := idem\<rparr>, aw_calls = 2\<rparr>)"
proof -
  let ?q = "RegisterVersion 1 (mf_schema_version small_manifest) (map entry_request (mf_entries small_manifest)) key"
  have entry: "valid_entry (entry_request empty_file)"
    using small_sha(2) by (simp add: valid_entry_def entry_request_def text_within_def sha_text_def) (simp add: empty_file_def)
  have schema: "mf_schema_version small_manifest = 1" by (simp add: small_manifest_def Let_def)
  have valid: "valid_request ?q"
    using assms entry schema by (cases key) (simp_all add: small_totals valid_defs)
  obtain idem where r: "register_version ascii_unicode late_env 1 small_manifest key
        (request_fingerprint [uuid_bytes 1, digest_raw (mf_sha256 small_manifest), mf_canonical small_manifest])
        (ready_db\<lparr>db_idem := [named key0 q0]\<rparr>) = Inr (ready_record, ready_db\<lparr>db_idem := idem\<rparr>)"
    using ready_register [OF request_fingerprint_wf assms(1)] by blast
  have route: "route sample_api 1 ?q (ready_db\<lparr>db_idem := [named key0 q0]\<rparr>)
      = (Inr (json_response 201 (version_response ready_record)), ready_db\<lparr>db_idem := idem\<rparr>)"
    using r small_entry_request small_built
    by (simp add: sample_api_def post_version_def checked_def replying_def svc_register_version_def transact_def svc_bind_def small_totals)
  have "wf_version ascii_unicode ready_record"
    using small_sha(1) sample_name_wf
    by (simp add: wf_version_def ready_record_def small_record_def wf_name_def sample_name_def nat_str.simps sha_text_wf)
  then have read: "read_version ascii_unicode strict_conversions (version_response ready_record) = Inr ready_record"
    using read_version_response [OF ascii_unicode_laws] by (simp add: shown_def ready_record_def small_record_def)
  have "reading (read_version ascii_unicode strict_conversions) (client_payload sample_api sample_client ?q)
      \<lparr>aw_db = ready_db\<lparr>db_idem := [named key0 q0]\<rparr>, aw_calls = 1\<rparr>
      = (Inr ready_record, \<lparr>aw_db = ready_db\<lparr>db_idem := idem\<rparr>, aw_calls = 1 + 1\<rparr>)"
    using sample_call [OF valid route, where f = "read_version ascii_unicode strict_conversions"] read by simp
  then show ?thesis by (auto simp: service_plane_def client_register_version_def) (auto simp: sample_client_def)
qed

lemma sample_push:
  "\<exists>res w' h'. push_run (service_plane sample_api sample_client) (host_port small_scanner) (lit ''r'') sample_name
     (\<lparr>aw_db = ready_db, aw_calls = 0\<rparr>, small_host) = (Inr res, (w', h'))"
proof -
  have utf8: "utf8_encode (dn_value sample_name) = Some [100]"
    by (simp add: sample_name_def utf8_encode_def utf8_char_def)
  let ?key = "make_idempotency_key ''dataset-create'' [[100]]"
  let ?key2 = "make_idempotency_key ''version-register''
     [uuid_bytes 1, digest_raw (mf_sha256 small_manifest), mf_canonical small_manifest]"
  have keys: "length ?key \<le> 255" "?key \<noteq> []" "length ?key2 \<le> 255" "?key2 \<noteq> []"
    using idem_key_length [of "''dataset-create''" "[[100]]"]
      idem_key_length [of "''version-register''" "[uuid_bytes 1, digest_raw (mf_sha256 small_manifest), mf_canonical small_manifest]"]
    by auto
  obtain q where c: "cp_create_dataset (service_plane sample_api sample_client) sample_name ?key \<lparr>aw_db = ready_db, aw_calls = 0\<rparr>
    = (Inr \<lparr>dsr_id = 1, dsr_name = sample_name\<rparr>, \<lparr>aw_db = ready_db\<lparr>db_idem := [named ?key q]\<rparr>, aw_calls = 1\<rparr>)"
    using sample_create_call [OF keys(1,2)] by blast
  obtain idem where r: "cp_register_version (service_plane sample_api sample_client) 1 small_manifest ?key2
      \<lparr>aw_db = ready_db\<lparr>db_idem := [named ?key q]\<rparr>, aw_calls = 1\<rparr>
    = (Inr ready_record, \<lparr>aw_db = ready_db\<lparr>db_idem := idem\<rparr>, aw_calls = 2\<rparr>)"
    using sample_register_call [OF keys(3,4)] by blast
  show ?thesis
    using c r utf8 Source.small_scan
    by (simp add: push_run_def register_push_def emit_def host_port_def small_host_def svc_bind_def remotely_def
        locally_def Let_def require_manifest_def push_result_of_def small_totals ready_record_def small_record_def)
qed

theorem pushed_tree_is_restored_witness:
  "\<exists>res w' h' m i. push_run (service_plane sample_api sample_client) (host_port small_scanner) (lit ''r'') sample_name
     (\<lparr>aw_db = ready_db, aw_calls = 0\<rparr>, small_host) = (Inr res, (w', h'))
     \<and> build ascii_unicode [empty_file] = Inr m \<and> published (aw_db w') i (mf_sha256 m)"
proof -
  obtain res w' h' where p: "push_run (service_plane sample_api sample_client) (host_port small_scanner) (lit ''r'') sample_name
     (\<lparr>aw_db = ready_db, aw_calls = 0\<rparr>, small_host) = (Inr res, (w', h'))"
    using sample_push by blast
  have u: "api_unicode sample_api = ascii_unicode" "scn_unicode small_scanner = ascii_unicode"
    by (simp_all add: sample_api_def small_scanner_def)
  have "hst_view small_host (hst_calls small_host) (lit ''r'') = tree_view small_identity 1 small_tree"
    by (simp add: small_host_def)
  from pushed_tree_is_restored [OF _ _ _ this small_plain _ p] show ?thesis
    using p ready_committed later.now small_entries by (simp add: u) blast
qed

end
